theory Spec2Isabelle
  imports Complex_Main "HOL-Library.Word" "HOL-Library.Log_Nat"
begin

section \<open>Data model of \<open>NeonSoundVisualizer.tsx\<close>\<close>

text \<open>
  The component keeps its state in React refs and \<open>useState\<close> cells; the model threads one
  record through every function. A JavaScript \<open>number\<close> is modelled as a \<^typ>\<open>real\<close>.
  In the smoothing step of the draw functions and in \<open>createParticle\<close> every arithmetic
  operation is rounded to double precision (\<open>fl\<close> below), since what is claimed about them
  depends on the rounding. In the band levels, the moving average, the particle advance and
  the canvas coordinates arithmetic is exact. The values \<open>NaN\<close> and \<open>Infinity\<close> are not
  represented. An element of a \<open>Uint8Array\<close> is an \<^typ>\<open>8 word\<close>.
\<close>

type_synonym uint8 = "8 word"

text \<open>Interface \<open>Particle\<close>; the fields \<open>x\<close> and \<open>y\<close> are named \<open>px\<close> and \<open>py\<close>.\<close>

record Particle =
  px :: real
  py :: real
  vx :: real
  vy :: real
  life :: real
  maxLife :: real
  color :: string

text \<open>Interface \<open>VisualizerData\<close>.\<close>

record VisualizerData =
  frequencies :: "uint8 list"
  waveform :: "uint8 list"
  bassLevel :: real
  midLevel :: real
  trebleLevel :: real
  beat :: bool

text \<open>
  The \<open>AnalyserNode\<close> as the component configures it; \<open>frequencyBinCount\<close> is half the
  transform size.
\<close>

record AnalyserNode =
  fftSize :: nat
  smoothingTimeConstant :: real

definition frequencyBinCount :: "AnalyserNode \<Rightarrow> nat" where
  "frequencyBinCount a = fftSize a div 2"

text \<open>A \<open>MediaStream\<close>, as far as the component looks at it: its tracks by kind.\<close>

record MediaStream =
  audioTracks :: nat
  videoTracks :: nat

datatype SourceType = Mic | System

text \<open>A thrown error value with its \<open>name\<close> and \<open>message\<close>.\<close>

datatype JsError = JsError (errName: string) (errMessage: string)

text \<open>
  How the \<open>try\<close> block of a start handler went: the awaited promise was rejected with an
  error; it was resolved and the block ran to its end; or it was resolved and a later
  statement of the block (the construction of the audio graph) threw an error.
\<close>

datatype 'a Settled = Rejected JsError | Resolved 'a | ThrewAfter 'a JsError

text \<open>The canvas element: its pixel size and whether \<open>getContext('2d')\<close> yields a context.\<close>

record Canvas =
  width :: real
  height :: real
  has2d :: bool

text \<open>
  The raster surface is the log of the geometric commands sent to the 2D context (style
  assignments other than \<open>globalAlpha\<close> are left out).
\<close>

datatype DrawCmd =
    FillRect real real real real
  | BeginPath
  | MoveTo real real
  | LineTo real real
  | Stroke
  | GlobalAlpha real
  | Arc real real real
  | Fill

text \<open>
  What one tick reads from outside: the analyser's byte frequency and time-domain data
  (by bin index), the clock \<open>performance.now()\<close>, and the results of the calls of
  \<open>Math.random()\<close> in the order they are made.
\<close>

record Env =
  byteFrequencyData :: "nat \<Rightarrow> uint8"
  byteTimeDomainData :: "nat \<Rightarrow> uint8"
  now :: real
  random :: "nat \<Rightarrow> real"

text \<open>
  The refs and state cells of the component, the raster, the console, and the browser's
  list of pending animation-frame requests (with the counter that numbers them).
\<close>

record State =
  canvasRef :: "Canvas option"
  audioContextRef :: "unit option"
  analyserRef :: "AnalyserNode option"
  sourceRef :: "MediaStream option"
  animationIdRef :: nat
  particlesRef :: "Particle list"
  prevBarHeightsRef :: "real list"
  prevWaveRef :: "real list"
  bassEmaRef :: real
  lastBeatTsRef :: real
  isPlaying :: bool
  audioStream :: "MediaStream option"
  sourceType :: "SourceType option"
  errorMsg :: string
  raster :: "DrawCmd list"
  console :: "string list"
  frameQueue :: "nat list"
  frameCounter :: nat

text \<open>The state of a freshly mounted component with canvas \<open>c\<close>.\<close>

definition initialState :: "Canvas \<Rightarrow> State" where
  "initialState c =
     \<lparr> canvasRef = Some c, audioContextRef = None, analyserRef = None, sourceRef = None,
       animationIdRef = 0, particlesRef = [], prevBarHeightsRef = [], prevWaveRef = [],
       bassEmaRef = 0, lastBeatTsRef = 0, isPlaying = False, audioStream = None,
       sourceType = None, errorMsg = [], raster = [], console = [],
       frameQueue = [], frameCounter = 0 \<rparr>"

section \<open>Double precision\<close>

text \<open>\<open>2\<close> to the power \<open>k\<close>, for an integer \<open>k\<close>.\<close>

definition pow2 :: "int \<Rightarrow> real" where
  "pow2 k = (if 0 \<le> k then 2 ^ nat k else 1 / 2 ^ nat (- k))"

text \<open>
  The binary exponent of a number other than 0: the \<open>e\<close> with \<open>2 ^ e \<le> |x| < 2 ^ (e + 1)\<close>.
\<close>

definition expo :: "real \<Rightarrow> int" where
  "expo x = (if 1 \<le> \<bar>x\<bar> then int (floorlog 2 (nat \<lfloor>\<bar>x\<bar>\<rfloor>)) - 1
             else - int (floorlog 2 (nat (\<lceil>1 / \<bar>x\<bar>\<rceil> - 1))))"

text \<open>Rounding to the nearest integer, a tie going to the even one.\<close>

definition roundEven :: "real \<Rightarrow> int" where
  "roundEven y =
     (let n = \<lfloor>y\<rfloor>; r = y - real_of_int n
      in if r < 1 / 2 then n else if 1 / 2 < r then n + 1 else if even n then n else n + 1)"

text \<open>
  The result of an arithmetic operation of JavaScript whose exact result is \<open>x\<close>: the nearest
  number with a significand of 53 bits, ties to even (IEEE 754 binary64, round to nearest).
  The exponent is not bounded: subnormal numbers and overflow are not represented.
\<close>

definition fl :: "real \<Rightarrow> real" where
  "fl x = (if x = 0 then 0
           else real_of_int (roundEven (x / pow2 (expo x - 52))) * pow2 (expo x - 52))"

section \<open>Session start\<close>

definition micErrorLog :: string where
  \<open>micErrorLog = ''Error accessing microphone:''\<close>

definition systemErrorLog :: string where
  \<open>systemErrorLog = ''Error accessing system audio:''\<close>

definition noSystemAudioMessage :: string where
  \<open>noSystemAudioMessage = ''No system audio available. Ensure 'Share audio' is enabled.''\<close>

definition notSupportedMessage :: string where
  \<open>notSupportedMessage = ''System audio is not supported in this browser or selection. Try sharing a browser tab and enable "Share tab audio" or use Chrome on macOS.''\<close>

definition failedMessage :: string where
  \<open>failedMessage = ''Failed to access system audio. Please try again.''\<close>

text \<open>
  The audio graph both handlers build once a stream is there: a context, an analyser with
  \<open>fftSize = 256\<close> and \<open>smoothingTimeConstant = 0.9\<close>, and a source on the stream.
\<close>

definition connectGraph :: "MediaStream \<Rightarrow> State \<Rightarrow> State" where
  "connectGraph stream s =
     s\<lparr> audioContextRef := Some (),
        analyserRef := Some \<lparr> fftSize = 256, smoothingTimeConstant = 0.9 \<rparr>,
        sourceRef := Some stream \<rparr>"

text \<open>
  \<open>initializeMicrophone\<close>, given how its \<open>try\<close> block went. The \<open>catch\<close> block writes to
  the console only. The stream cell is set before the audio graph is built, the refs after.
\<close>

definition initializeMicrophone :: "MediaStream Settled \<Rightarrow> State \<Rightarrow> State" where
  "initializeMicrophone r s =
     (case r of
        Rejected error \<Rightarrow>
          s\<lparr> console := console s @ [micErrorLog, errName error, errMessage error] \<rparr>
      | Resolved stream \<Rightarrow>
          (connectGraph stream (s\<lparr> audioStream := Some stream \<rparr>))
            \<lparr> sourceType := Some Mic, isPlaying := True \<rparr>
      | ThrewAfter stream error \<Rightarrow>
          s\<lparr> audioStream := Some stream,
             console := console s @ [micErrorLog, errName error, errMessage error] \<rparr>)"

text \<open>
  The \<open>catch\<close> block of \<open>initializeSystemAudio\<close>: the message shown depends on the name of
  the error only.
\<close>

definition systemAudioCatch :: "JsError \<Rightarrow> State \<Rightarrow> State" where
  "systemAudioCatch error s =
     s\<lparr> console := console s @ [systemErrorLog, errName error, errMessage error],
        errorMsg := (if errName error = ''NotSupportedError'' then notSupportedMessage
                     else failedMessage) \<rparr>"

text \<open>
  \<open>initializeSystemAudio\<close>, given how its \<open>try\<close> block went. A stream without audio
  tracks throws \<open>new Error(noSystemAudioMessage)\<close>, whose name is \<open>Error\<close>, into the same
  \<open>catch\<close> block, before the stream cell is set.
\<close>

definition initializeSystemAudio :: "MediaStream Settled \<Rightarrow> State \<Rightarrow> State" where
  "initializeSystemAudio r s =
     (case r of
        Rejected error \<Rightarrow> systemAudioCatch error s
      | Resolved stream \<Rightarrow>
          if audioTracks stream = 0
          then systemAudioCatch (JsError ''Error'' noSystemAudioMessage) s
          else (connectGraph stream (s\<lparr> audioStream := Some stream \<rparr>))
                 \<lparr> sourceType := Some System, isPlaying := True, errorMsg := [] \<rparr>
      | ThrewAfter stream error \<Rightarrow>
          if audioTracks stream = 0
          then systemAudioCatch (JsError ''Error'' noSystemAudioMessage) s
          else systemAudioCatch error (s\<lparr> audioStream := Some stream \<rparr>))"

section \<open>Particles\<close>

definition colors :: "string list" where
  "colors = [''#00ffff'', ''#ff00ff'', ''#ffff00'', ''#00ff00'', ''#ff0080'', ''#8000ff'']"

text \<open>
  \<open>colors[k]\<close> for an integer \<open>k\<close>: outside the array JavaScript yields \<open>undefined\<close>.
\<close>

definition colorAt :: "int \<Rightarrow> string" where
  "colorAt k = (if 0 \<le> k \<and> k < int (length colors) then colors ! nat k else ''undefined'')"

text \<open>
  \<open>createParticle\<close>; \<open>r\<close> gives the four results of \<open>Math.random()\<close>, in the order of the
  object literal. Each subtraction, product and sum is rounded.
\<close>

definition createParticle :: "real \<Rightarrow> real \<Rightarrow> real \<Rightarrow> (nat \<Rightarrow> real) \<Rightarrow> Particle" where
  "createParticle x y intensity r =
     \<lparr> px = x, py = y,
       vx = fl (fl (r 0 - 0.5) * intensity),
       vy = fl (fl (r 1 - 0.5) * intensity),
       life = 0,
       maxLife = fl (60 + fl (r 2 * 60)),
       color = colorAt \<lfloor>fl (r 3 * real (length colors))\<rfloor> \<rparr>"

text \<open>The body of the filter callback of \<open>updateParticles\<close>: the mutation, then the test.\<close>

definition advance :: "Particle \<Rightarrow> Particle" where
  "advance p =
     p\<lparr> px := px p + vx p, py := py p + vy p, life := life p + 1,
        vx := vx p * 0.98, vy := vy p * 0.98 \<rparr>"

definition alive :: "Particle \<Rightarrow> bool" where
  "alive p = (life p < maxLife p)"

definition updateParticles :: "State \<Rightarrow> State" where
  "updateParticles s = s\<lparr> particlesRef := filter alive (map advance (particlesRef s)) \<rparr>"

section \<open>Analysis\<close>

text \<open>\<open>Uint8Array.slice(a, b)\<close> for indices \<open>0 \<le> a \<le> b\<close>; the end is clamped to the length.\<close>

definition slice :: "nat \<Rightarrow> nat \<Rightarrow> 'a list \<Rightarrow> 'a list" where
  "slice a b xs = take (b - a) (drop a xs)"

text \<open>
  \<open>range.reduce((sum, val) => sum + val, 0) / range.length\<close>. On an empty range JavaScript
  computes \<open>0 / 0 = NaN\<close>, which the model does not represent; the analyser is configured
  with 128 bins, where no range is empty.
\<close>

definition level :: "uint8 list \<Rightarrow> real" where
  "level xs = foldl (\<lambda>sum val. sum + real (unat val)) 0 xs / real (length xs)"

text \<open>
  \<open>analyzeAudio\<close>: \<open>None\<close> is the \<open>null\<close> it returns without an analyser. The moving
  average is stored first; the comparison then reads the stored value.
\<close>

definition analyzeAudio :: "Env \<Rightarrow> State \<Rightarrow> VisualizerData option \<times> State" where
  "analyzeAudio env s =
     (case analyserRef s of
        None \<Rightarrow> (None, s)
      | Some analyser \<Rightarrow>
          let freqs = map (byteFrequencyData env) [0..<frequencyBinCount analyser];
              wave = map (byteTimeDomainData env) [0..<frequencyBinCount analyser];
              bassRange = slice 0 10 freqs;
              midRange = slice 10 50 freqs;
              trebleRange = slice 50 100 freqs;
              bass = level bassRange;
              mid = level midRange;
              treble = level trebleRange;
              alpha = 0.2;
              s1 = s\<lparr> bassEmaRef := (1 - alpha) * bassEmaRef s + alpha * bass \<rparr>;
              threshold = 35;
              minInterval = 180;
              b = (bass > bassEmaRef s1 + threshold
                   \<and> now env - lastBeatTsRef s1 > minInterval);
              s2 = (if b then s1\<lparr> lastBeatTsRef := now env \<rparr> else s1)
          in (Some \<lparr> frequencies = freqs, waveform = wave, bassLevel = bass,
                     midLevel = mid, trebleLevel = treble, beat = b \<rparr>, s2))"

section \<open>Session stop\<close>

text \<open>
  \<open>cancelAnimationFrame(id)\<close> takes the request out of the browser's queue.
\<close>

definition cancelAnimationFrame :: "nat \<Rightarrow> State \<Rightarrow> State" where
  "cancelAnimationFrame n s = s\<lparr> frameQueue := removeAll n (frameQueue s) \<rparr>"

text \<open>
  \<open>stopAudio\<close>: the stream cell is cleared; the refs of the audio graph keep their values
  (the context is closed, the ref is not reset).
\<close>

definition stopAudio :: "State \<Rightarrow> State" where
  "stopAudio s =
     (let s1 = (case audioStream s of None \<Rightarrow> s | Some stream \<Rightarrow> s\<lparr> audioStream := None \<rparr>);
          s2 = s1\<lparr> isPlaying := False \<rparr>;
          s3 = cancelAnimationFrame (animationIdRef s2) s2
      in s3\<lparr> sourceType := None, errorMsg := [] \<rparr>)"

section \<open>Smoothing and drawing\<close>

text \<open>
  The two lines both draw loops share:
  \<open>delta = Math.max(Math.min(target - prev, maxDelta), -maxDelta)\<close> and \<open>prev + delta\<close>.
  The difference and the sum are rounded; \<open>Math.max\<close> and \<open>Math.min\<close> select.
\<close>

definition follow :: "real \<Rightarrow> real \<Rightarrow> real \<Rightarrow> real" where
  "follow maxDelta target prev =
     fl (prev + max (min (fl (target - prev)) maxDelta) (- maxDelta))"

text \<open>
  \<open>targetHeight\<close> of bar \<open>i\<close> in \<open>drawBars\<close>: a quotient and two products, from left to
  right, with the double that the literal \<open>0.7\<close> denotes.
\<close>

definition targetHeight :: "VisualizerData \<Rightarrow> real \<Rightarrow> nat \<Rightarrow> real" where
  "targetHeight d h i = fl (fl (fl (real (unat (frequencies d ! i)) / 255) * h) * fl 0.7)"

text \<open>\<open>targetY\<close> of sample \<open>i\<close> in \<open>drawWaveform\<close>: \<open>v * height / 2\<close> with \<open>v = sample / 128.0\<close>.\<close>

definition targetY :: "VisualizerData \<Rightarrow> real \<Rightarrow> nat \<Rightarrow> real" where
  "targetY d h i = fl (fl (fl (real (unat (waveform d ! i)) / 128) * h) / 2)"

text \<open>
  One iteration of the loop of \<open>drawBars\<close> at index \<open>i < barCount\<close>. The length test sits
  inside the loop; after it the series has \<open>barCount\<close> elements, so index \<open>i\<close> is in range.
\<close>

definition drawBarsBody :: "VisualizerData \<Rightarrow> real \<Rightarrow> real \<Rightarrow> nat \<Rightarrow> State \<Rightarrow> State" where
  "drawBarsBody d w h i s =
     (let barWidth = w / real (length (frequencies d));
          barCount = length (frequencies d);
          maxDelta = 8;
          s1 = (if length (prevBarHeightsRef s) \<noteq> barCount
                then s\<lparr> prevBarHeightsRef := replicate barCount 0 \<rparr> else s);
          prev = prevBarHeightsRef s1 ! i;
          barHeight = follow maxDelta (targetHeight d h i) prev;
          s2 = s1\<lparr> prevBarHeightsRef := (prevBarHeightsRef s1)[i := barHeight] \<rparr>;
          x = real i * barWidth;
          y = h - barHeight;
          rect = FillRect x y (barWidth - 1) barHeight
      in s2\<lparr> raster := raster s2 @
                (if unat (frequencies d ! i) > 200 then [rect, rect] else [rect]) \<rparr>)"

definition drawBars :: "VisualizerData \<Rightarrow> real \<Rightarrow> real \<Rightarrow> State \<Rightarrow> State" where
  "drawBars d w h s = fold (drawBarsBody d w h) [0..<length (frequencies d)] s"

text \<open>
  One iteration of the loop of \<open>drawWaveform\<close>; the loop carries the pen position \<open>x\<close>.
\<close>

definition drawWaveformBody ::
  "VisualizerData \<Rightarrow> real \<Rightarrow> real \<Rightarrow> nat \<Rightarrow> real \<times> State \<Rightarrow> real \<times> State" where
  "drawWaveformBody d w h i xs =
     (let x = fst xs; s = snd xs;
          sliceWidth = w / real (length (waveform d));
          maxDelta = 3;
          prev = prevWaveRef s ! i;
          y = follow maxDelta (targetY d h i) prev;
          s1 = s\<lparr> prevWaveRef := (prevWaveRef s)[i := y] \<rparr>;
          s2 = s1\<lparr> raster := raster s1 @ [if i = 0 then MoveTo x y else LineTo x y] \<rparr>
      in (x + sliceWidth, s2))"

definition drawWaveform :: "VisualizerData \<Rightarrow> real \<Rightarrow> real \<Rightarrow> State \<Rightarrow> State" where
  "drawWaveform d w h s =
     (let s1 = s\<lparr> raster := raster s @ [BeginPath] \<rparr>;
          s2 = (if length (prevWaveRef s1) \<noteq> length (waveform d)
                then s1\<lparr> prevWaveRef := replicate (length (waveform d)) (h / 2) \<rparr> else s1);
          s3 = snd (fold (drawWaveformBody d w h) [0..<length (waveform d)] (0, s2))
      in s3\<lparr> raster := raster s3 @ [Stroke] \<rparr>)"

text \<open>The opacity \<open>drawParticles\<close> gives a particle.\<close>

definition alphaOf :: "Particle \<Rightarrow> real" where
  "alphaOf p = 1 - (life p / maxLife p)"

definition drawParticle :: "Particle \<Rightarrow> DrawCmd list" where
  "drawParticle p = [GlobalAlpha (alphaOf p), BeginPath, Arc (px p) (py p) 2, Fill, GlobalAlpha 1]"

definition drawParticles :: "real \<Rightarrow> real \<Rightarrow> State \<Rightarrow> State" where
  "drawParticles w h s = s\<lparr> raster := raster s @ concat (map drawParticle (particlesRef s)) \<rparr>"

section \<open>The tick\<close>

text \<open>
  \<open>requestAnimationFrame(animate)\<close>, with the assignment of its result to \<open>animationIdRef\<close>.
\<close>

definition requestAnimationFrame :: "State \<Rightarrow> State" where
  "requestAnimationFrame s =
     (let n = frameCounter s + 1
      in s\<lparr> frameCounter := n, frameQueue := frameQueue s @ [n], animationIdRef := n \<rparr>)"

text \<open>
  The call \<open>createParticle(width / 2, height / 2, 0.8)\<close> in iteration \<open>i\<close> of the loop of
  \<open>animate\<close> that pushes six particles; it reads the draws \<open>4 i, \<dots>, 4 i + 3\<close> of the tick.
  The intensity is the double that the literal \<open>0.8\<close> denotes.
\<close>

definition spawned :: "Env \<Rightarrow> real \<Rightarrow> real \<Rightarrow> nat \<Rightarrow> Particle" where
  "spawned env w h i =
     createParticle (w / 2) (h / 2) (fl 0.8) (\<lambda>k. random env (4 * i + k))"

definition spawnBody :: "Env \<Rightarrow> real \<Rightarrow> real \<Rightarrow> nat \<Rightarrow> State \<Rightarrow> State" where
  "spawnBody env w h i s = s\<lparr> particlesRef := particlesRef s @ [spawned env w h i] \<rparr>"

definition spawnBurst :: "Env \<Rightarrow> real \<Rightarrow> real \<Rightarrow> State \<Rightarrow> State" where
  "spawnBurst env w h s = fold (spawnBody env w h) [0..<6] s"

text \<open>
  The part of \<open>animate\<close> after the data is there, up to the call of \<open>drawParticles\<close>:
  the burst on a beat, \<open>updateParticles\<close>, \<open>drawBars\<close>, \<open>drawWaveform\<close>.
\<close>

definition beforeDrawParticles :: "Env \<Rightarrow> VisualizerData \<Rightarrow> real \<Rightarrow> real \<Rightarrow> State \<Rightarrow> State" where
  "beforeDrawParticles env d w h s =
     (let s1 = (if beat d then spawnBurst env w h s else s);
          s2 = updateParticles s1;
          s3 = drawBars d w h s2
      in drawWaveform d w h s3)"

text \<open>
  \<open>animate\<close>. Each early \<open>return\<close> is a branch; the fading rectangle is painted before the
  data is sampled, the next frame is requested at the very end only.
\<close>

definition animate :: "Env \<Rightarrow> State \<Rightarrow> State" where
  "animate env s =
     (case canvasRef s of
        None \<Rightarrow> s
      | Some canvas \<Rightarrow>
          if \<not> isPlaying s then s
          else if \<not> has2d canvas then s
          else
            let w = width canvas;
                h = height canvas;
                s1 = s\<lparr> raster := raster s @ [FillRect 0 0 w h] \<rparr>
            in (case analyzeAudio env s1 of
                  (None, s2) \<Rightarrow> s2
                | (Some d, s2) \<Rightarrow>
                    requestAnimationFrame
                      (drawParticles w h (beforeDrawParticles env d w h s2))))"

section \<open>Runs of the component\<close>

text \<open>
  What can happen to a mounted component: a click on one of the start buttons with the
  outcome of its \<open>try\<close> block, a click on stop, a resize of the canvas, and a call of
  \<open>animate\<close>. \<open>animate\<close> is called when the browser fires the pending frame request,
  which thereby leaves the browser's list, and by the effect that follows a change of
  \<open>isPlaying\<close>, whose cleanup cancels the pending request first: either way the request
  named by \<open>animationIdRef\<close> is no longer pending when \<open>animate\<close> runs.
\<close>

datatype Event =
    StartMic "MediaStream Settled"
  | StartSystem "MediaStream Settled"
  | Stop
  | Resize real real
  | Frame Env

text \<open>The resize handler copies the element's size into the canvas.\<close>

definition handleResize :: "real \<Rightarrow> real \<Rightarrow> State \<Rightarrow> State" where
  "handleResize w h s =
     (case canvasRef s of
        None \<Rightarrow> s
      | Some canvas \<Rightarrow> s\<lparr> canvasRef := Some (canvas\<lparr> width := w, height := h \<rparr>) \<rparr>)"

fun step :: "Event \<Rightarrow> State \<Rightarrow> State" where
  "step (StartMic r) s = initializeMicrophone r s"
| "step (StartSystem r) s = initializeSystemAudio r s"
| "step Stop s = stopAudio s"
| "step (Resize w h) s = handleResize w h s"
| "step (Frame env) s = animate env (cancelAnimationFrame (animationIdRef s) s)"

definition run :: "Event list \<Rightarrow> State \<Rightarrow> State" where
  "run es s = fold step es s"

text \<open>\<open>Math.random()\<close> returns a number in \<open>[0, 1)\<close>.\<close>

definition unitInterval :: "real \<Rightarrow> bool" where
  "unitInterval r = (0 \<le> r \<and> r < 1)"

text \<open>A tick makes at most 24 calls of \<open>Math.random()\<close> (six particles, four calls each).\<close>

definition randomOk :: "Env \<Rightarrow> bool" where
  "randomOk env = list_all (\<lambda>k. unitInterval (random env k)) [0..<24]"

text \<open>What \<open>Math.random()\<close> returns is a double: rounding leaves it as it is.\<close>

definition doubleDraws :: "Env \<Rightarrow> bool" where
  "doubleDraws env = list_all (\<lambda>k. fl (random env k) = random env k) [0..<24]"

section \<open>Properties stated about the component\<close>

text \<open>A particle as it may be drawn: aged at least one tick, not expired, opacity inside (0, 1).\<close>

definition drawable :: "Particle \<Rightarrow> bool" where
  "drawable p = (1 \<le> life p \<and> life p < maxLife p \<and> 60 \<le> maxLife p
                 \<and> 0 < alphaOf p \<and> alphaOf p < 1)"

text \<open>
  A particle as a burst creates it for a canvas of size \<open>w\<close> by \<open>h\<close>. The bound on the
  velocity is half the double that \<open>0.8\<close> denotes, which is the double that \<open>0.4\<close> denotes.
\<close>

definition freshBurst :: "real \<Rightarrow> real \<Rightarrow> Particle \<Rightarrow> bool" where
  "freshBurst w h p = (px p = w / 2 \<and> py p = h / 2 \<and> life p = 0
     \<and> \<bar>vx p\<bar> \<le> fl 0.8 / 2 \<and> \<bar>vy p\<bar> \<le> fl 0.8 / 2 \<and> 60 \<le> maxLife p \<and> maxLife p \<le> 120
     \<and> color p \<in> set colors)"

text \<open>An event whose frame callback draws its random numbers from \<open>[0, 1)\<close>.\<close>

fun eventOk :: "Event \<Rightarrow> bool" where
  "eventOk (Frame env) = randomOk env"
| "eventOk _ = True"


text \<open>An analyser, when there is one, has the transform size the start handlers set.\<close>

definition analyserOk :: "State \<Rightarrow> bool" where
  "analyserOk s = (case analyserRef s of None \<Rightarrow> True | Some a \<Rightarrow> fftSize a = 256)"

section \<open>The draw loops in closed form\<close>

text \<open>
  The series the loop of \<open>drawBars\<close> starts from and the series it leaves: the stored one
  when it has the length of the snapshot, else zeros; then one step towards the targets.
\<close>

definition barsBefore :: "VisualizerData \<Rightarrow> State \<Rightarrow> real list" where
  "barsBefore d s =
     (if length (prevBarHeightsRef s) \<noteq> length (frequencies d)
      then replicate (length (frequencies d)) 0 else prevBarHeightsRef s)"

definition barsAfter :: "VisualizerData \<Rightarrow> real \<Rightarrow> State \<Rightarrow> real list" where
  "barsAfter d h s =
     map (\<lambda>i. follow 8 (targetHeight d h i) (barsBefore d s ! i)) [0..<length (frequencies d)]"

text \<open>The same for \<open>drawWaveform\<close>, whose initial series lies at \<open>height / 2\<close>.\<close>

definition waveBefore :: "VisualizerData \<Rightarrow> real \<Rightarrow> State \<Rightarrow> real list" where
  "waveBefore d h s =
     (if length (prevWaveRef s) \<noteq> length (waveform d)
      then replicate (length (waveform d)) (h / 2) else prevWaveRef s)"

definition waveAfter :: "VisualizerData \<Rightarrow> real \<Rightarrow> State \<Rightarrow> real list" where
  "waveAfter d h s =
     map (\<lambda>i. follow 3 (targetY d h i) (waveBefore d h s ! i)) [0..<length (waveform d)]"

text \<open>
  The rectangles \<open>drawBars\<close> paints for the bar heights \<open>hs\<close>: one per bar, from left to
  right, painted a second time (the glow) when the bin is above 200.
\<close>

definition barCommands :: "VisualizerData \<Rightarrow> real \<Rightarrow> real \<Rightarrow> real list \<Rightarrow> DrawCmd list" where
  "barCommands d w h hs =
     concat (map (\<lambda>i. let barWidth = w / real (length (frequencies d));
                           rect = FillRect (real i * barWidth) (h - hs ! i) (barWidth - 1) (hs ! i)
                       in if unat (frequencies d ! i) > 200 then [rect, rect] else [rect])
               [0..<length (frequencies d)])"

text \<open>
  The path \<open>drawWaveform\<close> traces through the samples \<open>ys\<close>: it starts at the left edge
  and advances by \<open>width / length\<close> per sample.
\<close>

definition waveCommands :: "VisualizerData \<Rightarrow> real \<Rightarrow> real list \<Rightarrow> DrawCmd list" where
  "waveCommands d w ys =
     map (\<lambda>i. let x = real i * (w / real (length (waveform d)))
               in if i = 0 then MoveTo x (ys ! i) else LineTo x (ys ! i))
       [0..<length (waveform d)]"

section \<open>Inputs for the examples\<close>

text \<open>
  An environment in which every frequency bin reads \<open>f\<close>, every time-domain sample reads
  \<open>u\<close>, the clock reads \<open>t\<close> and every call of \<open>Math.random()\<close> returns \<open>r\<close>.
\<close>

definition constEnv :: "uint8 \<Rightarrow> uint8 \<Rightarrow> real \<Rightarrow> real \<Rightarrow> Env" where
  "constEnv f u t r =
     \<lparr> byteFrequencyData = (\<lambda>i. f), byteTimeDomainData = (\<lambda>i. u), now = t,
       random = (\<lambda>k. r) \<rparr>"

definition demoCanvas :: Canvas where
  "demoCanvas = \<lparr> width = 800, height = 400, has2d = True \<rparr>"

text \<open>A fresh component on which the microphone has just been granted.\<close>

definition demoPlaying :: State where
  "demoPlaying =
     initializeMicrophone (Resolved \<lparr> audioTracks = 1, videoTracks = 0 \<rparr>)
       (initialState demoCanvas)"

text \<open>A snapshot of two bins and two samples, and a state whose series have that length.\<close>

definition demoData :: VisualizerData where
  "demoData = \<lparr> frequencies = [255, 0], waveform = [128, 0], bassLevel = 0, midLevel = 0,
                 trebleLevel = 0, beat = False \<rparr>"

definition demoSeries :: State where
  "demoSeries = (initialState demoCanvas)\<lparr> prevBarHeightsRef := [0, 5], prevWaveRef := [200, 1] \<rparr>"

text \<open>
  Successive ticks of a session, 16 ms apart from time \<open>t\<close> on: on each tick every
  frequency bin reads the next byte of the list, every sample reads 128, and every call of
  \<open>Math.random()\<close> returns one half.
\<close>

fun demoTicks :: "real \<Rightarrow> uint8 list \<Rightarrow> State \<Rightarrow> State" where
  "demoTicks t [] s = s"
| "demoTicks t (b # bs) s = demoTicks (t + 16) bs (step (Frame (constEnv b 128 t (1 / 2))) s)"

text \<open>The largest double below 1.\<close>

definition lastDouble :: real where
  "lastDouble = 1 - 1 / 2 ^ 53"

section \<open>Rounding\<close>

lemma pow2_powr: "pow2 k = 2 powr (real_of_int k)"
  by (simp add: pow2_def powr_int)

lemma pow2_pos [simp]: "0 < pow2 k"
  by (simp add: pow2_powr)

lemma pow2_nonzero [simp]: "pow2 k \<noteq> 0"
  by (simp add: pow2_powr)

lemma pow2_nonneg [simp]: "0 \<le> pow2 k"
  by (simp add: pow2_powr)

lemma pow2_abs [simp]: "\<bar>pow2 k\<bar> = pow2 k"
  by simp

lemma pow2_not_neg [simp]: "\<not> pow2 k < 0"
  by (simp add: pow2_powr not_less)

lemma pow2_add: "pow2 (a + b) = pow2 a * pow2 b"
  by (simp add: pow2_powr powr_add)

lemma pow2_less: "pow2 a < pow2 b \<Longrightarrow> a < b"
  by (simp add: pow2_powr)

lemma pow2_nat: "0 \<le> k \<Longrightarrow> pow2 k = real_of_int (2 ^ nat k)"
  by (simp add: pow2_def)

lemma expo_bounds:
  assumes "x \<noteq> 0"
  shows "pow2 (expo x) \<le> \<bar>x\<bar>" and "\<bar>x\<bar> < pow2 (expo x + 1)"
proof -
  define a where "a = \<bar>x\<bar>"
  have apos: "0 < a" using assms by (simp add: a_def)
  have "pow2 (expo x) \<le> a \<and> a < pow2 (expo x + 1)"
  proof (cases "1 \<le> a")
    case True
    define n where "n = nat \<lfloor>a\<rfloor>"
    define k where "k = floorlog 2 n"
    have n1: "0 < n" using True by (simp add: n_def)
    have b: "2 ^ (k - 1) \<le> n" "n < 2 ^ k"
      using floorlog_bounds [of n 2] n1 by (simp_all add: k_def)
    have k1: "0 < k" using b(2) n1 by (cases k) simp_all
    have e: "expo x = int k - 1"
      using True by (simp add: expo_def a_def k_def n_def)
    have "0 \<le> \<lfloor>a\<rfloor>" using True by simp
    then have nn: "real n = real_of_int \<lfloor>a\<rfloor>" by (simp add: n_def)
    have na: "real n \<le> a" "a < real n + 1"
      unfolding nn by linarith+
    have "pow2 (expo x) = 2 ^ (k - 1)"
      using k1 by (simp add: e pow2_def nat_diff_distrib)
    also have "\<dots> \<le> real n" using of_nat_mono [OF b(1), where ?'a = real] by simp
    finally have lo: "pow2 (expo x) \<le> a" using na(1) by linarith
    have "Suc n \<le> 2 ^ k" using b(2) by simp
    then have "real (Suc n) \<le> real (2 ^ k)" by (rule of_nat_mono)
    then have "real n + 1 \<le> 2 ^ k" by simp
    then have "a < 2 ^ k" using na(2) by linarith
    moreover have "pow2 (expo x + 1) = 2 ^ k"
      by (simp add: e pow2_def)
    ultimately show ?thesis using lo by simp
  next
    case False
    define y where "y = 1 / a"
    define n where "n = nat (\<lceil>y\<rceil> - 1)"
    define k where "k = floorlog 2 n"
    have y1: "1 < y" using False apos by (simp add: y_def)
    then have c2: "2 \<le> \<lceil>y\<rceil>" by linarith
    have n1: "0 < n" using c2 by (simp add: n_def)
    have b: "2 ^ (k - 1) \<le> n" "n < 2 ^ k"
      using floorlog_bounds [of n 2] n1 by (simp_all add: k_def)
    have k1: "0 < k" using b(2) n1 by (cases k) simp_all
    have e: "expo x = - int k"
      using False by (simp add: expo_def a_def k_def n_def y_def)
    have nn: "real n = real_of_int \<lceil>y\<rceil> - 1" using c2 by (simp add: n_def)
    have ny: "real n < y" "y \<le> real n + 1"
      unfolding nn by linarith+
    have "Suc n \<le> 2 ^ k" using b(2) by simp
    then have "real (Suc n) \<le> real (2 ^ k)" by (rule of_nat_mono)
    then have "real n + 1 \<le> 2 ^ k" by simp
    then have "y \<le> 2 ^ k" using ny(2) by linarith
    then have "1 / 2 ^ k \<le> a"
      using apos by (simp add: y_def field_simps)
    moreover have "pow2 (expo x) = 1 / 2 ^ k"
      using k1 by (simp add: e pow2_def)
    ultimately have lo: "pow2 (expo x) \<le> a" by simp
    have "(2::real) ^ (k - 1) \<le> real n"
      using of_nat_mono [OF b(1), where ?'a = real] by simp
    then have "2 ^ (k - 1) < y" using ny(1) by linarith
    then have "a < 1 / 2 ^ (k - 1)"
      using apos by (simp add: y_def field_simps)
    moreover have "pow2 (expo x + 1) = 1 / 2 ^ (k - 1)"
      using k1 by (simp add: e pow2_def nat_diff_distrib)
    ultimately show ?thesis using lo by simp
  qed
  then show "pow2 (expo x) \<le> \<bar>x\<bar>" and "\<bar>x\<bar> < pow2 (expo x + 1)"
    by (simp_all add: a_def)
qed

lemma expo_unique:
  assumes "x \<noteq> 0" and "pow2 e \<le> \<bar>x\<bar>" and "\<bar>x\<bar> < pow2 (e + 1)"
  shows "expo x = e"
proof -
  have "pow2 (expo x) < pow2 (e + 1)"
    using expo_bounds(1) [OF assms(1)] assms(3) by simp
  then have a: "expo x < e + 1" by (rule pow2_less)
  have "pow2 e < pow2 (expo x + 1)"
    using expo_bounds(2) [OF assms(1)] assms(2) by simp
  then have "e < expo x + 1" by (rule pow2_less)
  with a show ?thesis by simp
qed

lemma roundEven_err: "\<bar>real_of_int (roundEven y) - y\<bar> \<le> 1 / 2"
  unfolding roundEven_def Let_def by (simp; linarith)

lemma roundEven_le: "y \<le> real_of_int N \<Longrightarrow> roundEven y \<le> N"
  unfolding roundEven_def Let_def by (simp; linarith)

lemma roundEven_ge: "real_of_int N \<le> y \<Longrightarrow> N \<le> roundEven y"
  unfolding roundEven_def Let_def by (simp; linarith)

lemma roundEven_below: "y < real_of_int N - 1 / 2 \<Longrightarrow> roundEven y \<le> N - 1"
  unfolding roundEven_def Let_def by (simp; linarith)

lemma roundEven_near:
  "real_of_int N - 1 / 2 < y \<Longrightarrow> y < real_of_int N + 1 / 2 \<Longrightarrow> roundEven y = N"
  unfolding roundEven_def Let_def by (simp; linarith)

lemma roundEven_tie:
  "y = real_of_int N + 1 / 2 \<Longrightarrow> roundEven y = (if even N then N else N + 1)"
proof -
  assume y: "y = real_of_int N + 1 / 2"
  have "\<lfloor>y\<rfloor> = N" unfolding y by linarith
  then show ?thesis
    by (simp add: roundEven_def Let_def y)
qed

lemma fl_zero [simp]: "fl 0 = 0"
  by (simp add: fl_def)

lemma fl_eval:
  assumes "x \<noteq> 0" and "pow2 e \<le> \<bar>x\<bar>" and "\<bar>x\<bar> < pow2 (e + 1)"
    and "roundEven (x / pow2 (e - 52)) = M"
  shows "fl x = real_of_int M * pow2 (e - 52)"
  using assms expo_unique [OF assms(1-3)] by (simp add: fl_def)

lemma fl_err: "\<bar>fl x - x\<bar> \<le> \<bar>x\<bar> / 2 ^ 53"
proof (cases "x = 0")
  case True
  then show ?thesis by simp
next
  case False
  define u where "u = pow2 (expo x - 52)"
  have upos: "0 < u" by (simp add: u_def)
  have "pow2 (expo x) = u * 2 ^ 52"
    using pow2_add [of "expo x - 52" 52] by (simp add: u_def pow2_def)
  then have ux: "u * 2 ^ 52 \<le> \<bar>x\<bar>"
    using expo_bounds(1) [OF False] by simp
  have "fl x - x = (real_of_int (roundEven (x / u)) - x / u) * u"
    using False upos by (simp add: fl_def u_def field_simps)
  then have "\<bar>fl x - x\<bar> = \<bar>real_of_int (roundEven (x / u)) - x / u\<bar> * u"
    using upos by (simp add: abs_mult)
  also have "\<dots> \<le> (1 / 2) * u"
    using roundEven_err [of "x / u"] upos by (intro mult_right_mono) simp_all
  also have "\<dots> \<le> \<bar>x\<bar> / 2 ^ 53"
    using ux by simp
  finally show ?thesis .
qed

lemma grid_multiple:
  assumes "x \<noteq> 0" and "\<bar>x\<bar> < pow2 (k + 53)"
  shows "\<exists>j. pow2 k = real_of_int (2 ^ j) * pow2 (expo x - 52)"
proof -
  have "pow2 (expo x) < pow2 (k + 53)"
    using expo_bounds(1) [OF assms(1)] assms(2) by simp
  then have "expo x < k + 53" by (rule pow2_less)
  then have d: "0 \<le> k - (expo x - 52)" by simp
  have "pow2 k = pow2 (k - (expo x - 52)) * pow2 (expo x - 52)"
    using pow2_add [of "k - (expo x - 52)" "expo x - 52"] by simp
  also have "pow2 (k - (expo x - 52)) = real_of_int (2 ^ nat (k - (expo x - 52)))"
    using d by (rule pow2_nat)
  finally show ?thesis by blast
qed

lemma fl_le:
  assumes "x \<le> real_of_int M * pow2 k" and "\<bar>x\<bar> < pow2 (k + 53)"
  shows "fl x \<le> real_of_int M * pow2 k"
proof (cases "x = 0")
  case True
  then show ?thesis using assms(1) by simp
next
  case False
  define u where "u = pow2 (expo x - 52)"
  have upos: "0 < u" by (simp add: u_def)
  obtain j where j: "pow2 k = real_of_int (2 ^ j) * u"
    using grid_multiple [OF False assms(2)] unfolding u_def by blast
  have "x / u \<le> real_of_int (M * 2 ^ j)"
    using assms(1) upos by (simp add: j field_simps)
  then have "roundEven (x / u) \<le> M * 2 ^ j" by (rule roundEven_le)
  then have "real_of_int (roundEven (x / u)) \<le> real_of_int (M * 2 ^ j)"
    by (rule of_int_le_iff [THEN iffD2])
  then have "real_of_int (roundEven (x / u)) * u \<le> real_of_int (M * 2 ^ j) * u"
    using upos by (intro mult_right_mono) simp_all
  then show ?thesis
    using False by (simp add: fl_def u_def [symmetric] j mult.assoc)
qed

lemma fl_ge:
  assumes "real_of_int M * pow2 k \<le> x" and "\<bar>x\<bar> < pow2 (k + 53)"
  shows "real_of_int M * pow2 k \<le> fl x"
proof (cases "x = 0")
  case True
  then show ?thesis using assms(1) by simp
next
  case False
  define u where "u = pow2 (expo x - 52)"
  have upos: "0 < u" by (simp add: u_def)
  obtain j where j: "pow2 k = real_of_int (2 ^ j) * u"
    using grid_multiple [OF False assms(2)] unfolding u_def by blast
  have "real_of_int (M * 2 ^ j) \<le> x / u"
    using assms(1) upos by (simp add: j field_simps)
  then have "M * 2 ^ j \<le> roundEven (x / u)" by (rule roundEven_ge)
  then have "real_of_int (M * 2 ^ j) \<le> real_of_int (roundEven (x / u))"
    by (rule of_int_le_iff [THEN iffD2])
  then have "real_of_int (M * 2 ^ j) * u \<le> real_of_int (roundEven (x / u)) * u"
    using upos by (intro mult_right_mono) simp_all
  then show ?thesis
    using False by (simp add: fl_def u_def [symmetric] j mult.assoc)
qed

lemma fl_fix:
  assumes "\<bar>real_of_int M\<bar> < 2 ^ 53"
  shows "fl (real_of_int M * pow2 k) = real_of_int M * pow2 k"
proof -
  have "\<bar>real_of_int M * pow2 k\<bar> = \<bar>real_of_int M\<bar> * pow2 k"
    by (simp add: abs_mult)
  also have "\<dots> < 2 ^ 53 * pow2 k"
    using assms by (intro mult_strict_right_mono) simp_all
  also have "\<dots> = pow2 (k + 53)"
    using pow2_add [of k 53] by (simp add: pow2_def)
  finally have r: "\<bar>real_of_int M * pow2 k\<bar> < pow2 (k + 53)" .
  show ?thesis
    using fl_le [OF order_refl r] fl_ge [OF order_refl r] by simp
qed

lemma fl_below:
  assumes "x < (real_of_int M - 1 / 2) * pow2 k" and "\<bar>x\<bar> < pow2 (k + 53)"
  shows "fl x \<le> (real_of_int M - 1 / 2) * pow2 k"
proof (cases "x = 0")
  case True
  then show ?thesis using assms(1) by simp
next
  case False
  define u where "u = pow2 (expo x - 52)"
  have upos: "0 < u" by (simp add: u_def)
  obtain j where j: "pow2 k = real_of_int (2 ^ j) * u"
    using grid_multiple [OF False assms(2)] unfolding u_def by blast
  have lt: "x / u < (real_of_int M - 1 / 2) * real_of_int (2 ^ j)"
    using assms(1) upos by (simp add: j field_simps)
  have "real_of_int (roundEven (x / u)) \<le> (real_of_int M - 1 / 2) * real_of_int (2 ^ j)"
  proof (cases j)
    case 0
    then have "x / u < real_of_int M - 1 / 2" using lt by simp
    then have "roundEven (x / u) \<le> M - 1" by (rule roundEven_below)
    then have "real_of_int (roundEven (x / u)) \<le> real_of_int (M - 1)"
      by (rule of_int_le_iff [THEN iffD2])
    then show ?thesis using 0 by simp
  next
    case (Suc i)
    have eq: "(real_of_int M - 1 / 2) * real_of_int (2 ^ j) = real_of_int (M * 2 ^ j - 2 ^ i)"
      by (simp add: Suc algebra_simps)
    then have "x / u \<le> real_of_int (M * 2 ^ j - 2 ^ i)" using lt by simp
    then have "roundEven (x / u) \<le> M * 2 ^ j - 2 ^ i" by (rule roundEven_le)
    then have "real_of_int (roundEven (x / u)) \<le> real_of_int (M * 2 ^ j - 2 ^ i)"
      by (rule of_int_le_iff [THEN iffD2])
    then show ?thesis unfolding eq .
  qed
  then have "real_of_int (roundEven (x / u)) * u
      \<le> (real_of_int M - 1 / 2) * real_of_int (2 ^ j) * u"
    using upos by (intro mult_right_mono) simp_all
  then show ?thesis
    using False by (simp add: fl_def u_def [symmetric] j mult.assoc)
qed

text \<open>A double in \<open>[0, 1)\<close> is at most \<open>1 - 2\<^sup>-\<^sup>5\<^sup>3\<close>.\<close>

lemma double_below_one:
  assumes "fl r = r" and "0 \<le> r" and "r < 1"
  shows "r \<le> 1 - 1 / 2 ^ 53"
proof (rule ccontr)
  assume "\<not> r \<le> 1 - 1 / 2 ^ 53"
  then have big: "1 - 1 / 2 ^ 53 < r" by simp
  then have half: "1 / 2 \<le> r" by simp
  have r0: "r \<noteq> 0" using half by auto
  have e: "expo r = - 1"
    using half assms(3) by (intro expo_unique) (simp_all add: pow2_def)
  define N where "N = roundEven (r / pow2 (- 53))"
  have "r = real_of_int N * pow2 (- 53)"
    using assms(1) r0 e by (simp add: fl_def N_def)
  then have rn: "r = real_of_int N / 2 ^ 53" by (simp add: pow2_def)
  have "2 ^ 53 - 1 < real_of_int N" using big by (simp add: rn field_simps)
  then have "real_of_int (2 ^ 53 - 1) < real_of_int N" by simp
  then have lo: "2 ^ 53 - 1 < N" by (simp only: of_int_less_iff)
  have "real_of_int N < 2 ^ 53" using assms(3) by (simp add: rn field_simps)
  then have "real_of_int N < real_of_int (2 ^ 53)" by simp
  then have hi: "N < 2 ^ 53" by (simp only: of_int_less_iff)
  show False using lo hi by simp
qed

text \<open>A rounded number is a double.\<close>

lemma fl_idem: "fl (fl x) = fl x"
proof (cases "x = 0")
  case True
  then show ?thesis by simp
next
  case False
  define u where "u = pow2 (expo x - 52)"
  define M where "M = roundEven (x / u)"
  have upos: "0 < u" by (simp add: u_def)
  have f: "fl x = real_of_int M * u"
    using False by (simp add: fl_def u_def M_def)
  have p53: "pow2 53 = 2 ^ 53" by (simp add: pow2_def)
  have "pow2 (expo x + 1) = u * pow2 53"
    unfolding u_def using pow2_add [of "expo x - 52" 53] by (simp add: add.commute)
  then have top: "pow2 (expo x + 1) = 2 ^ 53 * u"
    by (simp add: p53)
  then have "\<bar>x\<bar> < 2 ^ 53 * u"
    using expo_bounds(2) [OF False] by simp
  then have "\<bar>x / u\<bar> < 2 ^ 53"
    using upos by (simp add: field_simps)
  then have "x / u \<le> 2 ^ 53" "- (2 ^ 53) \<le> x / u"
    by linarith+
  then have y: "x / u \<le> real_of_int (2 ^ 53)" "real_of_int (- (2 ^ 53)) \<le> x / u"
    by simp_all
  have hi: "M \<le> 2 ^ 53" unfolding M_def using y(1) by (rule roundEven_le)
  have lo: "- (2 ^ 53) \<le> M" unfolding M_def using y(2) by (rule roundEven_ge)
  consider "\<bar>M\<bar> < 2 ^ 53" | "M = 2 ^ 53" | "M = - (2 ^ 53)"
    using hi lo by linarith
  then show ?thesis
  proof cases
    case 1
    then have "real_of_int \<bar>M\<bar> < real_of_int (2 ^ 53)"
      by (simp only: of_int_less_iff)
    then have "\<bar>real_of_int M\<bar> < 2 ^ 53"
      by simp
    then show ?thesis
      unfolding f u_def by (rule fl_fix)
  next
    case 2
    have "real_of_int M * u = real_of_int 1 * pow2 (expo x + 1)"
      by (simp add: 2 top)
    then show ?thesis
      unfolding f using fl_fix [of 1 "expo x + 1"] by simp
  next
    case 3
    have "real_of_int M * u = real_of_int (- 1) * pow2 (expo x + 1)"
      by (simp add: 3 top)
    then show ?thesis
      unfolding f using fl_fix [of "- 1" "expo x + 1"] by simp
  qed
qed

text \<open>
  The doubles that occur in the examples below, each with the integer its significand rounds
  to.
\<close>

lemma dbl_1:
  "fl (7 / 10)
     = 3152519739159347 / 4503599627370496"
proof -
  have "roundEven ((7 / 10)
          / pow2 ((- 1) - 52)) = 6305039478318694"
    by (rule roundEven_near) (simp_all add: pow2_def)
  then show ?thesis
    using fl_eval [of "7 / 10" "- 1" "6305039478318694"]
    by (simp add: pow2_def)
qed

lemma dbl_2:
  "fl (4 / 5)
     = 3602879701896397 / 4503599627370496"
proof -
  have "roundEven ((4 / 5)
          / pow2 ((- 1) - 52)) = 7205759403792794"
    by (rule roundEven_near) (simp_all add: pow2_def)
  then show ?thesis
    using fl_eval [of "4 / 5" "- 1" "7205759403792794"]
    by (simp add: pow2_def)
qed

lemma dbl_3:
  "fl (2 / 5)
     = 3602879701896397 / 9007199254740992"
proof -
  have "roundEven ((2 / 5)
          / pow2 ((- 2) - 52)) = 7205759403792794"
    by (rule roundEven_near) (simp_all add: pow2_def)
  then show ?thesis
    using fl_eval [of "2 / 5" "- 2" "7205759403792794"]
    by (simp add: pow2_def)
qed

lemma dbl_4:
  "fl (1 / 2)
     = 1 / 2"
proof -
  have "roundEven ((1 / 2)
          / pow2 ((- 1) - 52)) = 4503599627370496"
    by (rule roundEven_near) (simp_all add: pow2_def)
  then show ?thesis
    using fl_eval [of "1 / 2" "- 1" "4503599627370496"]
    by (simp add: pow2_def)
qed

lemma dbl_5:
  "fl (1 / 255)
     = 282578800148737 / 72057594037927936"
proof -
  have "roundEven ((1 / 255)
          / pow2 ((- 8) - 52)) = 4521260802379792"
    by (rule roundEven_near) (simp_all add: pow2_def)
  then show ?thesis
    using fl_eval [of "1 / 255" "- 8" "4521260802379792"]
    by (simp add: pow2_def)
qed

lemma dbl_6:
  "fl (7064470003718425 / 4503599627370496)
     = 7064470003718425 / 4503599627370496"
proof -
  have "roundEven ((7064470003718425 / 4503599627370496)
          / pow2 (0 - 52)) = 7064470003718425"
    by (rule roundEven_near) (simp_all add: pow2_def)
  then show ?thesis
    using fl_eval [of "7064470003718425 / 4503599627370496" "0" "7064470003718425"]
    by (simp add: pow2_def)
qed

lemma dbl_7:
  "fl (22270881133421440312173594868475 / 20282409603651670423947251286016)
     = 4945129002602897 / 4503599627370496"
proof -
  have "roundEven ((22270881133421440312173594868475 / 20282409603651670423947251286016)
          / pow2 (0 - 52)) = 4945129002602897"
    by (rule roundEven_near) (simp_all add: pow2_def)
  then show ?thesis
    using fl_eval [of "22270881133421440312173594868475 / 20282409603651670423947251286016" "0" "4945129002602897"]
    by (simp add: pow2_def)
qed

lemma dbl_8:
  "fl (1 / 85)
     = 847736400446211 / 72057594037927936"
proof -
  have "roundEven ((1 / 85)
          / pow2 ((- 7) - 52)) = 6781891203569688"
    by (rule roundEven_near) (simp_all add: pow2_def)
  then show ?thesis
    using fl_eval [of "1 / 85" "- 7" "6781891203569688"]
    by (simp add: pow2_def)
qed

lemma dbl_9:
  "fl (21193410011155275 / 4503599627370496)
     = 5298352502788819 / 1125899906842624"
proof -
  have "roundEven ((21193410011155275 / 4503599627370496)
          / pow2 (2 - 52)) = 5298352502788819"
    by (rule roundEven_near) (simp_all add: pow2_def)
  then show ?thesis
    using fl_eval [of "21193410011155275 / 4503599627370496" "2" "5298352502788819"]
    by (simp add: pow2_def)
qed

lemma dbl_10:
  "fl (16703160850066081022260130941193 / 5070602400912917605986812821504)
     = 3708846751952173 / 1125899906842624"
proof -
  have "roundEven ((16703160850066081022260130941193 / 5070602400912917605986812821504)
          / pow2 (1 - 52)) = 7417693503904346"
    by (rule roundEven_near) (simp_all add: pow2_def)
  then show ?thesis
    using fl_eval [of "16703160850066081022260130941193 / 5070602400912917605986812821504" "1" "7417693503904346"]
    by (simp add: pow2_def)
qed

lemma dbl_11:
  "fl (3 / 85)
     = 2543209201338633 / 72057594037927936"
proof -
  have "roundEven ((3 / 85)
          / pow2 ((- 5) - 52)) = 5086418402677266"
    by (rule roundEven_near) (simp_all add: pow2_def)
  then show ?thesis
    using fl_eval [of "3 / 85" "- 5" "5086418402677266"]
    by (simp add: pow2_def)
qed

lemma dbl_12:
  "fl (63580230033465825 / 4503599627370496)
     = 1986882188545807 / 140737488355328"
proof -
  have "roundEven ((63580230033465825 / 4503599627370496)
          / pow2 (3 - 52)) = 7947528754183228"
    by (rule roundEven_near) (simp_all add: pow2_def)
  then show ?thesis
    using fl_eval [of "63580230033465825 / 4503599627370496" "3" "7947528754183228"]
    by (simp add: pow2_def)
qed

lemma dbl_13:
  "fl (6263685318774779989282581708029 / 633825300114114700748351602688)
     = 5563270127928259 / 562949953421312"
proof -
  have "roundEven ((6263685318774779989282581708029 / 633825300114114700748351602688)
          / pow2 (3 - 52)) = 5563270127928259"
    by (rule roundEven_near) (simp_all add: pow2_def)
  then show ?thesis
    using fl_eval [of "6263685318774779989282581708029 / 633825300114114700748351602688" "3" "5563270127928259"]
    by (simp add: pow2_def)
qed

lemma dbl_14:
  "fl (1)
     = 1"
proof -
  have "roundEven ((1)
          / pow2 (0 - 52)) = 4503599627370496"
    by (rule roundEven_near) (simp_all add: pow2_def)
  then show ?thesis
    using fl_eval [of "1" "0" "4503599627370496"]
    by (simp add: pow2_def)
qed

lemma dbl_15:
  "fl (400)
     = 400"
proof -
  have "roundEven ((400)
          / pow2 (8 - 52)) = 7036874417766400"
    by (rule roundEven_near) (simp_all add: pow2_def)
  then show ?thesis
    using fl_eval [of "400" "8" "7036874417766400"]
    by (simp add: pow2_def)
qed

lemma dbl_16:
  "fl (78812993478983675 / 281474976710656)
     = 280"
proof -
  have "roundEven ((78812993478983675 / 281474976710656)
          / pow2 (8 - 52)) = 4925812092436480"
    by (rule roundEven_near) (simp_all add: pow2_def)
  then show ?thesis
    using fl_eval [of "78812993478983675 / 281474976710656" "8" "4925812092436480"]
    by (simp add: pow2_def)
qed

lemma dbl_17:
  "fl (200)
     = 200"
proof -
  have "roundEven ((200)
          / pow2 (7 - 52)) = 7036874417766400"
    by (rule roundEven_near) (simp_all add: pow2_def)
  then show ?thesis
    using fl_eval [of "200" "7" "7036874417766400"]
    by (simp add: pow2_def)
qed

lemma dbl_18:
  "fl (280)
     = 280"
proof -
  have "roundEven ((280)
          / pow2 (8 - 52)) = 4925812092436480"
    by (rule roundEven_near) (simp_all add: pow2_def)
  then show ?thesis
    using fl_eval [of "280" "8" "4925812092436480"]
    by (simp add: pow2_def)
qed

lemma dbl_19:
  "fl (8)
     = 8"
proof -
  have "roundEven ((8)
          / pow2 (3 - 52)) = 4503599627370496"
    by (rule roundEven_near) (simp_all add: pow2_def)
  then show ?thesis
    using fl_eval [of "8" "3" "4503599627370496"]
    by (simp add: pow2_def)
qed

lemma dbl_20:
  "fl (- 5)
     = - 5"
proof -
  have "roundEven ((- 5)
          / pow2 (2 - 52)) = (- 5629499534213120)"
    by (rule roundEven_near) (simp_all add: pow2_def)
  then show ?thesis
    using fl_eval [of "- 5" "2" "- 5629499534213120"]
    by (simp add: pow2_def)
qed

lemma dbl_21:
  "fl (- 1)
     = - 1"
proof -
  have "roundEven ((- 1)
          / pow2 (0 - 52)) = (- 4503599627370496)"
    by (rule roundEven_near) (simp_all add: pow2_def)
  then show ?thesis
    using fl_eval [of "- 1" "0" "- 4503599627370496"]
    by (simp add: pow2_def)
qed

lemma dbl_22:
  "fl (3708846751952173 / 1125899906842624)
     = 3708846751952173 / 1125899906842624"
proof -
  have "roundEven ((3708846751952173 / 1125899906842624)
          / pow2 (1 - 52)) = 7417693503904346"
    by (rule roundEven_near) (simp_all add: pow2_def)
  then show ?thesis
    using fl_eval [of "3708846751952173 / 1125899906842624" "1" "7417693503904346"]
    by (simp add: pow2_def)
qed

lemma dbl_23:
  "fl (- (9890258005205795 / 4503599627370496))
     = - (2472564501301449 / 1125899906842624)"
proof -
  have "roundEven ((- (9890258005205795 / 4503599627370496))
          / pow2 (1 - 52)) = (- 4945129002602898)"
    using roundEven_tie [of _ "- 4945129002602898"] by (simp add: pow2_def)
  then show ?thesis
    using fl_eval [of "- (9890258005205795 / 4503599627370496)" "1" "- 4945129002602898"]
    by (simp add: pow2_def)
qed

lemma dbl_24:
  "fl (309070562662681 / 281474976710656)
     = 309070562662681 / 281474976710656"
proof -
  have "roundEven ((309070562662681 / 281474976710656)
          / pow2 (0 - 52)) = 4945129002602896"
    by (rule roundEven_near) (simp_all add: pow2_def)
  then show ?thesis
    using fl_eval [of "309070562662681 / 281474976710656" "0" "4945129002602896"]
    by (simp add: pow2_def)
qed

lemma dbl_25:
  "fl (5563270127928259 / 562949953421312)
     = 5563270127928259 / 562949953421312"
proof -
  have "roundEven ((5563270127928259 / 562949953421312)
          / pow2 (3 - 52)) = 5563270127928259"
    by (rule roundEven_near) (simp_all add: pow2_def)
  then show ?thesis
    using fl_eval [of "5563270127928259 / 562949953421312" "3" "5563270127928259"]
    by (simp add: pow2_def)
qed

lemma dbl_26:
  "fl (1059670500557763 / 562949953421312)
     = 1059670500557763 / 562949953421312"
proof -
  have "roundEven ((1059670500557763 / 562949953421312)
          / pow2 (0 - 52)) = 8477364004462104"
    by (rule roundEven_near) (simp_all add: pow2_def)
  then show ?thesis
    using fl_eval [of "1059670500557763 / 562949953421312" "0" "8477364004462104"]
    by (simp add: pow2_def)
qed

lemma dbl_27:
  "fl (152062716830039101 / 562949953421312)
     = 2375979950469361 / 8796093022208"
proof -
  have "roundEven ((152062716830039101 / 562949953421312)
          / pow2 (8 - 52)) = 4751959900938722"
    by (rule roundEven_near) (simp_all add: pow2_def)
  then show ?thesis
    using fl_eval [of "152062716830039101 / 562949953421312" "8" "4751959900938722"]
    by (simp add: pow2_def)
qed

lemma dbl_28:
  "fl (10066869755298755 / 562949953421312)
     = 2516717438824689 / 140737488355328"
proof -
  have "roundEven ((10066869755298755 / 562949953421312)
          / pow2 (4 - 52)) = 5033434877649378"
    using roundEven_tie [of _ "5033434877649377"] by (simp add: pow2_def)
  then show ?thesis
    using fl_eval [of "10066869755298755 / 562949953421312" "4" "5033434877649378"]
    by (simp add: pow2_def)
qed

lemma dbl_29:
  "fl (9007199254740991 / 9007199254740992)
     = 9007199254740991 / 9007199254740992"
proof -
  have "roundEven ((9007199254740991 / 9007199254740992)
          / pow2 ((- 1) - 52)) = 9007199254740991"
    by (rule roundEven_near) (simp_all add: pow2_def)
  then show ?thesis
    using fl_eval [of "9007199254740991 / 9007199254740992" "- 1" "9007199254740991"]
    by (simp add: pow2_def)
qed

lemma dbl_30:
  "fl (30)
     = 30"
proof -
  have "roundEven ((30)
          / pow2 (4 - 52)) = 8444249301319680"
    by (rule roundEven_near) (simp_all add: pow2_def)
  then show ?thesis
    using fl_eval [of "30" "4" "8444249301319680"]
    by (simp add: pow2_def)
qed

lemma dbl_31:
  "fl (90)
     = 90"
proof -
  have "roundEven ((90)
          / pow2 (6 - 52)) = 6333186975989760"
    by (rule roundEven_near) (simp_all add: pow2_def)
  then show ?thesis
    using fl_eval [of "90" "6" "6333186975989760"]
    by (simp add: pow2_def)
qed

lemma dbl_32:
  "fl (3)
     = 3"
proof -
  have "roundEven ((3)
          / pow2 (1 - 52)) = 6755399441055744"
    by (rule roundEven_near) (simp_all add: pow2_def)
  then show ?thesis
    using fl_eval [of "3" "1" "6755399441055744"]
    by (simp add: pow2_def)
qed

lemma dbl_33:
  "fl (4503599627370495 / 9007199254740992)
     = 4503599627370495 / 9007199254740992"
proof -
  have "roundEven ((4503599627370495 / 9007199254740992)
          / pow2 ((- 2) - 52)) = 9007199254740990"
    by (rule roundEven_near) (simp_all add: pow2_def)
  then show ?thesis
    using fl_eval [of "4503599627370495 / 9007199254740992" "- 2" "9007199254740990"]
    by (simp add: pow2_def)
qed

lemma dbl_34:
  "fl (16225927682921333636998024606515 / 40564819207303340847894502572032)
     = 900719925474099 / 2251799813685248"
proof -
  have "roundEven ((16225927682921333636998024606515 / 40564819207303340847894502572032)
          / pow2 ((- 2) - 52)) = 7205759403792792"
    by (rule roundEven_near) (simp_all add: pow2_def)
  then show ?thesis
    using fl_eval [of "16225927682921333636998024606515 / 40564819207303340847894502572032" "- 2" "7205759403792792"]
    by (simp add: pow2_def)
qed

lemma dbl_35:
  "fl (135107988821114865 / 2251799813685248)
     = 8444249301319679 / 140737488355328"
proof -
  have "roundEven ((135107988821114865 / 2251799813685248)
          / pow2 (5 - 52)) = 8444249301319679"
    by (rule roundEven_near) (simp_all add: pow2_def)
  then show ?thesis
    using fl_eval [of "135107988821114865 / 2251799813685248" "5" "8444249301319679"]
    by (simp add: pow2_def)
qed

lemma dbl_36:
  "fl (16888498602639359 / 140737488355328)
     = 120"
proof -
  have "roundEven ((16888498602639359 / 140737488355328)
          / pow2 (6 - 52)) = 8444249301319680"
    using roundEven_tie [of _ "8444249301319679"] by (simp add: pow2_def)
  then show ?thesis
    using fl_eval [of "16888498602639359 / 140737488355328" "6" "8444249301319680"]
    by (simp add: pow2_def)
qed

lemma dbl_37:
  "fl (27021597764222973 / 4503599627370496)
     = 6755399441055743 / 1125899906842624"
proof -
  have "roundEven ((27021597764222973 / 4503599627370496)
          / pow2 (2 - 52)) = 6755399441055743"
    by (rule roundEven_near) (simp_all add: pow2_def)
  then show ?thesis
    using fl_eval [of "27021597764222973 / 4503599627370496" "2" "6755399441055743"]
    by (simp add: pow2_def)
qed

lemma dbl_38:
  "fl (- (1 / 2))
     = - (1 / 2)"
proof -
  have "roundEven ((- (1 / 2))
          / pow2 ((- 1) - 52)) = (- 4503599627370496)"
    by (rule roundEven_near) (simp_all add: pow2_def)
  then show ?thesis
    using fl_eval [of "- (1 / 2)" "- 1" "- 4503599627370496"]
    by (simp add: pow2_def)
qed

lemma dbl_39:
  "fl (- (3602879701896397 / 9007199254740992))
     = - (3602879701896397 / 9007199254740992)"
proof -
  have "roundEven ((- (3602879701896397 / 9007199254740992))
          / pow2 ((- 2) - 52)) = (- 7205759403792794)"
    by (rule roundEven_near) (simp_all add: pow2_def)
  then show ?thesis
    using fl_eval [of "- (3602879701896397 / 9007199254740992)" "- 2" "- 7205759403792794"]
    by (simp add: pow2_def)
qed

lemma dbl_40:
  "fl (60)
     = 60"
proof -
  have "roundEven ((60)
          / pow2 (5 - 52)) = 8444249301319680"
    by (rule roundEven_near) (simp_all add: pow2_def)
  then show ?thesis
    using fl_eval [of "60" "5" "8444249301319680"]
    by (simp add: pow2_def)
qed

lemmas double_values =
  dbl_1 dbl_2 dbl_3 dbl_4 dbl_5 dbl_6 dbl_7 dbl_8 dbl_9 dbl_10 dbl_11 dbl_12 dbl_13 dbl_14
  dbl_15 dbl_16 dbl_17 dbl_18 dbl_19 dbl_20 dbl_21 dbl_22 dbl_23 dbl_24 dbl_25 dbl_26 dbl_27
  dbl_28 dbl_29 dbl_30 dbl_31 dbl_32 dbl_33 dbl_34 dbl_35 dbl_36 dbl_37 dbl_38 dbl_39 dbl_40

section \<open>Band levels\<close>

lemma foldl_add_sum_list:
  "foldl (\<lambda>sum val. sum + f val) a ys = a + sum_list (map f ys)"
  by (induction ys arbitrary: a) (simp_all add: add.assoc)

lemma sum_list_slice:
  assumes "b \<le> length xs"
  shows "sum_list (map f (slice a b xs)) = (\<Sum>i = a..<b. f (xs ! i))"
proof (cases "a \<le> b")
  case True
  have len: "length (slice a b xs) = b - a"
    using assms True by (simp add: slice_def)
  have "sum_list (map f (slice a b xs)) = (\<Sum>i = 0..<b - a. f (slice a b xs ! i))"
    by (simp add: sum_list_sum_nth len)
  also have "\<dots> = (\<Sum>i = 0..<b - a. f (xs ! (i + a)))"
    using assms True by (intro sum.cong) (simp_all add: slice_def add.commute)
  also have "\<dots> = (\<Sum>i = a..<b. f (xs ! i))"
    using True sum.shift_bounds_nat_ivl [of "\<lambda>i. f (xs ! i)" 0 a "b - a"] by simp
  finally show ?thesis .
next
  case False
  then show ?thesis by (simp add: slice_def)
qed

lemma level_slice:
  assumes "b \<le> length xs"
  shows "level (slice a b xs) = (\<Sum>i = a..<b. real (unat (xs ! i))) / real (b - a)"
proof -
  have "length (slice a b xs) = b - a"
    using assms by (simp add: slice_def)
  then show ?thesis
    by (simp add: level_def foldl_add_sum_list sum_list_slice [OF assms])
qed

lemma unat_uint8_le: "real (unat (v :: uint8)) \<le> 255"
proof -
  have "unat v < 2 ^ 8" using unsigned_less [of v] by simp
  then have "unat v \<le> 255" by simp
  then have "real (unat v) \<le> real 255" by (rule of_nat_mono)
  then show ?thesis by (simp del: of_nat_unat)
qed

lemma mean_bounds:
  assumes "a < b"
  shows "0 \<le> (\<Sum>i = a..<b. real (unat (g i :: uint8))) / real (b - a)"
    and "(\<Sum>i = a..<b. real (unat (g i :: uint8))) / real (b - a) \<le> 255"
proof -
  show "0 \<le> (\<Sum>i = a..<b. real (unat (g i))) / real (b - a)"
    by (intro divide_nonneg_nonneg sum_nonneg of_nat_0_le_iff)
  have "(\<Sum>i = a..<b. real (unat (g i))) \<le> (\<Sum>i = a..<b. 255)"
    by (intro sum_mono unat_uint8_le)
  also have "\<dots> = 255 * real (b - a)" by simp
  finally show "(\<Sum>i = a..<b. real (unat (g i))) / real (b - a) \<le> 255"
    using assms by (simp add: pos_divide_le_eq)
qed

lemma level_slice_const:
  assumes "a < b" and "b \<le> n"
  shows "level (slice a b (map (\<lambda>i. v) [0..<n])) = real (unat v)"
proof -
  have "level (slice a b (map (\<lambda>i. v) [0..<n]))
      = (\<Sum>i = a..<b. real (unat (map (\<lambda>i. v) [0..<n] ! i))) / real (b - a)"
    using assms by (intro level_slice) simp
  also have "(\<Sum>i = a..<b. real (unat (map (\<lambda>i. v) [0..<n] ! i)))
      = (\<Sum>i = a..<b. real (unat v))"
    using assms by (intro sum.cong) simp_all
  also have "\<dots> / real (b - a) = real (unat v)"
    using assms by simp
  finally show ?thesis .
qed

text \<open>What \<open>analyzeAudio\<close> returns and stores when there is an analyser.\<close>

lemma analyzeAudio_None: "analyserRef s = None \<Longrightarrow> analyzeAudio env s = (None, s)"
  by (simp add: analyzeAudio_def)

lemma analyzeAudio_Some:
  assumes "analyserRef s = Some a"
  shows "\<exists>d s'. analyzeAudio env s = (Some d, s')
    \<and> frequencies d = map (byteFrequencyData env) [0..<frequencyBinCount a]
    \<and> waveform d = map (byteTimeDomainData env) [0..<frequencyBinCount a]
    \<and> bassLevel d = level (slice 0 10 (frequencies d))
    \<and> midLevel d = level (slice 10 50 (frequencies d))
    \<and> trebleLevel d = level (slice 50 100 (frequencies d))
    \<and> beat d = (bassLevel d > (0.8 * bassEmaRef s + 0.2 * bassLevel d) + 35
               \<and> now env - lastBeatTsRef s > 180)
    \<and> s' = s\<lparr> bassEmaRef := 0.8 * bassEmaRef s + 0.2 * bassLevel d,
              lastBeatTsRef := (if beat d then now env else lastBeatTsRef s) \<rparr>"
  using assms by (simp add: analyzeAudio_def Let_def)

lemma demoPlaying_analyser:
  "analyserRef demoPlaying = Some \<lparr> fftSize = 256, smoothingTimeConstant = 0.9 \<rparr>"
  by (simp add: demoPlaying_def initializeMicrophone_def connectGraph_def)

lemma demoPlaying_beat_state:
  "bassEmaRef demoPlaying = 0" "lastBeatTsRef demoPlaying = 0"
  by (simp_all add: demoPlaying_def initializeMicrophone_def connectGraph_def
      initialState_def)

lemma demo_bass:
  "bassLevel (the (fst (analyzeAudio (constEnv v u t r) demoPlaying))) = real (unat v)"
proof -
  obtain d s' where run: "analyzeAudio (constEnv v u t r) demoPlaying = (Some d, s')"
    and fr: "frequencies d = map (byteFrequencyData (constEnv v u t r))
               [0..<frequencyBinCount \<lparr> fftSize = 256, smoothingTimeConstant = 0.9 \<rparr>]"
    and b: "bassLevel d = level (slice 0 10 (frequencies d))"
    using analyzeAudio_Some [OF demoPlaying_analyser, of "constEnv v u t r"] by blast
  have "frequencies d = map (\<lambda>i. v) [0..<128]"
    by (simp add: fr constEnv_def frequencyBinCount_def)
  then have "bassLevel d = real (unat v)"
    using b level_slice_const [of 0 10 128 v] by simp
  then show ?thesis by (simp add: run)
qed

text \<open>
  C5. With an analyser of at least 100 bins, the bass, mid and treble levels that
  \<open>analyzeAudio\<close> returns are the arithmetic means of the snapshot over the bins
  \<open>[0,10)\<close>, \<open>[10,50)\<close> and \<open>[50,100)\<close>, and each lies between 0 and 255. (Numbers are exact
  reals here; the rounding of the division is not modelled.)
\<close>

theorem band_levels_mean:
  assumes "analyserRef s = Some a" and "100 \<le> frequencyBinCount a"
  shows "\<exists>d s'. analyzeAudio env s = (Some d, s')
    \<and> length (frequencies d) = frequencyBinCount a
    \<and> bassLevel d = (\<Sum>i = 0..<10. real (unat (frequencies d ! i))) / 10
    \<and> midLevel d = (\<Sum>i = 10..<50. real (unat (frequencies d ! i))) / 40
    \<and> trebleLevel d = (\<Sum>i = 50..<100. real (unat (frequencies d ! i))) / 50
    \<and> 0 \<le> bassLevel d \<and> bassLevel d \<le> 255
    \<and> 0 \<le> midLevel d \<and> midLevel d \<le> 255
    \<and> 0 \<le> trebleLevel d \<and> trebleLevel d \<le> 255"
proof -
  obtain d s' where run: "analyzeAudio env s = (Some d, s')"
    and fr: "frequencies d = map (byteFrequencyData env) [0..<frequencyBinCount a]"
    and b: "bassLevel d = level (slice 0 10 (frequencies d))"
    and m: "midLevel d = level (slice 10 50 (frequencies d))"
    and t: "trebleLevel d = level (slice 50 100 (frequencies d))"
    using analyzeAudio_Some [OF assms(1), of env] by blast
  have len: "length (frequencies d) = frequencyBinCount a"
    by (simp add: fr)
  have b': "bassLevel d = (\<Sum>i = 0..<10. real (unat (frequencies d ! i))) / 10"
    using level_slice [of 10 "frequencies d" 0] assms(2) len b by (simp del: of_nat_unat)
  have m': "midLevel d = (\<Sum>i = 10..<50. real (unat (frequencies d ! i))) / 40"
    using level_slice [of 50 "frequencies d" 10] assms(2) len m by (simp del: of_nat_unat)
  have t': "trebleLevel d = (\<Sum>i = 50..<100. real (unat (frequencies d ! i))) / 50"
    using level_slice [of 100 "frequencies d" 50] assms(2) len t by (simp del: of_nat_unat)
  have b0: "0 \<le> bassLevel d" and b1: "bassLevel d \<le> 255"
    using mean_bounds [of 0 10 "\<lambda>i. frequencies d ! i"] b' by (simp_all del: of_nat_unat)
  have m0: "0 \<le> midLevel d" and m1: "midLevel d \<le> 255"
    using mean_bounds [of 10 50 "\<lambda>i. frequencies d ! i"] m' by (simp_all del: of_nat_unat)
  have t0: "0 \<le> trebleLevel d" and t1: "trebleLevel d \<le> 255"
    using mean_bounds [of 50 100 "\<lambda>i. frequencies d ! i"] t' by (simp_all del: of_nat_unat)
  show ?thesis
    using run len b' m' t' b0 b1 m0 m1 t0 t1 by blast
qed

theorem band_levels_mean_witness:
  "analyserRef demoPlaying = Some \<lparr> fftSize = 256, smoothingTimeConstant = 0.9 \<rparr>
   \<and> 100 \<le> frequencyBinCount \<lparr> fftSize = 256, smoothingTimeConstant = 0.9 \<rparr>
   \<and> bassLevel (the (fst (analyzeAudio (constEnv 36 128 1000 0) demoPlaying))) = 36
   \<and> midLevel (the (fst (analyzeAudio (constEnv 36 128 1000 0) demoPlaying))) \<le> 255"
proof -
  have h1: "analyserRef demoPlaying = Some \<lparr> fftSize = 256, smoothingTimeConstant = 0.9 \<rparr>"
    by (simp add: demoPlaying_def initializeMicrophone_def connectGraph_def)
  have h2: "100 \<le> frequencyBinCount \<lparr> fftSize = 256, smoothingTimeConstant = 0.9 \<rparr>"
    by (simp add: frequencyBinCount_def)
  from band_levels_mean [OF h1 h2, of "constEnv 36 128 1000 0"]
  have "midLevel (the (fst (analyzeAudio (constEnv 36 128 1000 0) demoPlaying))) \<le> 255"
    by auto
  with h1 h2 demo_bass [of 36 128 1000 0] show ?thesis by simp
qed

section \<open>Beat detection\<close>

text \<open>
  The comparison in \<open>analyzeAudio\<close> reads the moving average after it has been updated.
  With a fresh average of 0 and a bass level of 36 (one above the threshold) no beat is
  flagged, although the level exceeds the average before the update by more than 35 and
  the last beat is more than 180 ms ago.
\<close>

theorem beat_pre_update_counterexample:
  "beat (the (fst (analyzeAudio (constEnv 36 128 1000 0) demoPlaying)))
   \<noteq> (bassLevel (the (fst (analyzeAudio (constEnv 36 128 1000 0) demoPlaying)))
        > bassEmaRef demoPlaying + 35
      \<and> now (constEnv 36 128 1000 0) - lastBeatTsRef demoPlaying > 180)"
proof -
  obtain d s' where run: "analyzeAudio (constEnv 36 128 1000 0) demoPlaying = (Some d, s')"
    and bt: "beat d = (bassLevel d > (0.8 * bassEmaRef demoPlaying + 0.2 * bassLevel d) + 35
               \<and> now (constEnv 36 128 1000 0) - lastBeatTsRef demoPlaying > 180)"
    using analyzeAudio_Some [OF demoPlaying_analyser, of "constEnv 36 128 1000 0"] by blast
  have bass: "bassLevel d = 36"
    using demo_bass [of 36 128 1000 0] by (simp add: run)
  have nw: "now (constEnv 36 128 1000 0) = 1000"
    by (simp add: constEnv_def)
  have "\<not> beat d" using bt bass demoPlaying_beat_state by simp
  then show ?thesis
    using bass demoPlaying_beat_state nw by (simp add: run)
qed

text \<open>
  C1, as the code has it. On every tick with an analyser the moving average becomes
  \<open>0.8 * ema + 0.2 * bass\<close> first, and the beat flag is
  \<open>bass > ema_after + 35\<close> and \<open>now - lastBeatTime > 180\<close>, where \<open>ema_after\<close> is the
  updated average; in terms of the average before the update this is
  \<open>bass > ema_before + 43.75\<close>. \<open>lastBeatTime\<close> becomes \<open>now\<close> exactly when the flag is set.
  A bass level equal to the average fires no beat, and after a beat no tick within the
  next 180 ms fires one, whatever its bass level.
\<close>

theorem beat_detector_tick:
  assumes "analyserRef s = Some a"
  shows "\<exists>d s'. analyzeAudio env s = (Some d, s')
    \<and> bassEmaRef s' = 0.8 * bassEmaRef s + 0.2 * bassLevel d
    \<and> beat d = (bassLevel d > bassEmaRef s' + 35 \<and> now env - lastBeatTsRef s > 180)
    \<and> beat d = (bassLevel d > bassEmaRef s + 43.75 \<and> now env - lastBeatTsRef s > 180)
    \<and> lastBeatTsRef s' = (if beat d then now env else lastBeatTsRef s)
    \<and> (bassLevel d = bassEmaRef s \<longrightarrow> \<not> beat d)
    \<and> (beat d \<and> now env2 - now env \<le> 180 \<longrightarrow> \<not> beat (the (fst (analyzeAudio env2 s'))))"
proof -
  obtain d s' where run: "analyzeAudio env s = (Some d, s')"
    and bt: "beat d = (bassLevel d > (0.8 * bassEmaRef s + 0.2 * bassLevel d) + 35
               \<and> now env - lastBeatTsRef s > 180)"
    and st: "s' = s\<lparr> bassEmaRef := 0.8 * bassEmaRef s + 0.2 * bassLevel d,
              lastBeatTsRef := (if beat d then now env else lastBeatTsRef s) \<rparr>"
    using analyzeAudio_Some [OF assms, of env] by blast
  have ema: "bassEmaRef s' = 0.8 * bassEmaRef s + 0.2 * bassLevel d"
    by (simp add: st)
  have last: "lastBeatTsRef s' = (if beat d then now env else lastBeatTsRef s)"
    by (simp add: st)
  have an: "analyserRef s' = Some a"
    using assms by (simp add: st)
  have c1: "beat d = (bassLevel d > bassEmaRef s' + 35 \<and> now env - lastBeatTsRef s > 180)"
    using bt ema by simp
  have c2: "beat d = (bassLevel d > bassEmaRef s + 43.75 \<and> now env - lastBeatTsRef s > 180)"
    using bt by auto
  have c3: "bassLevel d = bassEmaRef s \<longrightarrow> \<not> beat d"
    using c2 by auto
  have c4: "beat d \<and> now env2 - now env \<le> 180 \<longrightarrow> \<not> beat (the (fst (analyzeAudio env2 s')))"
  proof
    assume h: "beat d \<and> now env2 - now env \<le> 180"
    obtain d2 s2 where run2: "analyzeAudio env2 s' = (Some d2, s2)"
      and bt2: "beat d2 = (bassLevel d2 > (0.8 * bassEmaRef s' + 0.2 * bassLevel d2) + 35
               \<and> now env2 - lastBeatTsRef s' > 180)"
      using analyzeAudio_Some [OF an, of env2] by blast
    have "\<not> beat d2" using bt2 last h by simp
    then show "\<not> beat (the (fst (analyzeAudio env2 s')))" by (simp add: run2)
  qed
  show ?thesis
    using run ema c1 c2 last c3 c4 by blast
qed

text \<open>
  On a fresh session: a bass level of 100 at 1000 ms fires a beat, the same level at
  1100 ms does not; a bass level of 0, equal to the average, fires none.
\<close>

theorem beat_detector_tick_witness:
  "analyserRef demoPlaying = Some \<lparr> fftSize = 256, smoothingTimeConstant = 0.9 \<rparr>
   \<and> beat (the (fst (analyzeAudio (constEnv 100 128 1000 0) demoPlaying)))
   \<and> \<not> beat (the (fst (analyzeAudio (constEnv 100 128 1100 0)
               (snd (analyzeAudio (constEnv 100 128 1000 0) demoPlaying)))))
   \<and> bassLevel (the (fst (analyzeAudio (constEnv 0 128 1000 0) demoPlaying)))
       = bassEmaRef demoPlaying
   \<and> \<not> beat (the (fst (analyzeAudio (constEnv 0 128 1000 0) demoPlaying)))"
proof -
  have nw: "now (constEnv 100 128 1000 0) = 1000" "now (constEnv 100 128 1100 0) = 1100"
    "now (constEnv 0 128 1000 0) = 1000"
    by (simp_all add: constEnv_def)
  have first: "beat (the (fst (analyzeAudio (constEnv 100 128 1000 0) demoPlaying)))
    \<and> \<not> beat (the (fst (analyzeAudio (constEnv 100 128 1100 0)
               (snd (analyzeAudio (constEnv 100 128 1000 0) demoPlaying)))))"
    using beat_detector_tick [OF demoPlaying_analyser, of "constEnv 100 128 1000 0"
        "constEnv 100 128 1100 0"]
      demo_bass [of 100 128 1000 0] demoPlaying_beat_state nw
    by auto
  have second: "\<not> beat (the (fst (analyzeAudio (constEnv 0 128 1000 0) demoPlaying)))"
    using beat_detector_tick [OF demoPlaying_analyser, of "constEnv 0 128 1000 0"
        "constEnv 0 128 1000 0"]
      demo_bass [of 0 128 1000 0] demoPlaying_beat_state
    by auto
  show ?thesis
    using first second demoPlaying_analyser demo_bass [of 0 128 1000 0]
      demoPlaying_beat_state by simp
qed

section \<open>Particle life cycle\<close>

lemma advance_iter:
  "vx ((advance ^^ k) p) = vx p * 0.98 ^ k \<and> vy ((advance ^^ k) p) = vy p * 0.98 ^ k
   \<and> life ((advance ^^ k) p) = life p + real k \<and> maxLife ((advance ^^ k) p) = maxLife p"
  by (induction k) (simp_all add: advance_def)

text \<open>
  C8. One pass of \<open>updateParticles\<close> advances every particle (position plus velocity, each
  velocity component times 0.98, age plus 1, lifetime and colour kept) and then removes
  exactly the particles whose age has reached their \<open>maxLife\<close>. After \<open>k\<close> advances the age has
  grown by \<open>k\<close>, each velocity component and the velocity magnitude are the initial ones
  times \<open>0.98 ^ k\<close>. (Numbers are exact reals.)
\<close>

theorem particle_lifecycle:
  "px (advance p) = px p + vx p \<and> py (advance p) = py p + vy p
   \<and> vx (advance p) = vx p * 0.98 \<and> vy (advance p) = vy p * 0.98
   \<and> life (advance p) = life p + 1
   \<and> maxLife (advance p) = maxLife p \<and> color (advance p) = color p
   \<and> particlesRef (updateParticles s)
       = filter (\<lambda>q. \<not> life q \<ge> maxLife q) (map advance (particlesRef s))
   \<and> life ((advance ^^ k) p) = life p + real k
   \<and> vx ((advance ^^ k) p) = vx p * 0.98 ^ k
   \<and> vy ((advance ^^ k) p) = vy p * 0.98 ^ k
   \<and> sqrt ((vx ((advance ^^ k) p))\<^sup>2 + (vy ((advance ^^ k) p))\<^sup>2)
       = sqrt ((vx p)\<^sup>2 + (vy p)\<^sup>2) * 0.98 ^ k"
proof -
  have step: "px (advance p) = px p + vx p \<and> py (advance p) = py p + vy p
   \<and> vx (advance p) = vx p * 0.98 \<and> vy (advance p) = vy p * 0.98
   \<and> life (advance p) = life p + 1
   \<and> maxLife (advance p) = maxLife p \<and> color (advance p) = color p"
    by (simp add: advance_def)
  have "alive = (\<lambda>q. \<not> life q \<ge> maxLife q)"
    by (rule ext) (simp add: alive_def not_le)
  then have cull: "particlesRef (updateParticles s)
       = filter (\<lambda>q. \<not> life q \<ge> maxLife q) (map advance (particlesRef s))"
    by (simp add: updateParticles_def)
  have "(vx p * 0.98 ^ k)\<^sup>2 + (vy p * 0.98 ^ k)\<^sup>2 = ((vx p)\<^sup>2 + (vy p)\<^sup>2) * (0.98 ^ k)\<^sup>2"
    by (simp add: power_mult_distrib distrib_right)
  then have "sqrt ((vx p * 0.98 ^ k)\<^sup>2 + (vy p * 0.98 ^ k)\<^sup>2)
      = sqrt ((vx p)\<^sup>2 + (vy p)\<^sup>2) * 0.98 ^ k"
    by (simp add: real_sqrt_mult)
  then have mag: "sqrt ((vx ((advance ^^ k) p))\<^sup>2 + (vy ((advance ^^ k) p))\<^sup>2)
       = sqrt ((vx p)\<^sup>2 + (vy p)\<^sup>2) * 0.98 ^ k"
    by (simp add: advance_iter)
  show ?thesis
    using step cull mag advance_iter [of k p] by simp
qed

section \<open>Smoothing\<close>

text \<open>
  One smoothing step on a single element. The clamp selects, so the step is off the exact
  value of \<open>current + clamp (target - current)\<close> only by the rounding of the difference and
  of the sum.
\<close>

lemma clamp_err:
  assumes "\<bar>d\<bar> \<le> (m::real)"
  shows "\<bar>max (min e m) (- m) - d\<bar> \<le> \<bar>e - d\<bar>"
  using assms by (auto simp: max_def min_def)

lemma clamp_abs: "0 \<le> (m::real) \<Longrightarrow> \<bar>max (min e m) (- m)\<bar> \<le> m"
  by (auto simp: max_def min_def)

lemma follow_change:
  assumes "0 \<le> m"
  shows "\<bar>follow m t c - c\<bar> \<le> m + (\<bar>c\<bar> + m) / 2 ^ 53"
proof -
  define e where "e = max (min (fl (t - c)) m) (- m)"
  have e: "\<bar>e\<bar> \<le> m" unfolding e_def using assms by (rule clamp_abs)
  have "\<bar>fl (c + e) - (c + e)\<bar> \<le> \<bar>c + e\<bar> / 2 ^ 53" by (rule fl_err)
  also have "\<dots> \<le> (\<bar>c\<bar> + m) / 2 ^ 53"
    using e by (intro divide_right_mono) (linarith, simp)
  finally have "\<bar>fl (c + e) - (c + e)\<bar> \<le> (\<bar>c\<bar> + m) / 2 ^ 53" .
  then have "\<bar>fl (c + e) - c\<bar> \<le> m + (\<bar>c\<bar> + m) / 2 ^ 53"
    using e by linarith
  then show ?thesis by (simp add: follow_def e_def)
qed

lemma follow_near:
  assumes "\<bar>t - c\<bar> \<le> m"
  shows "\<bar>follow m t c - t\<bar> \<le> (\<bar>t\<bar> + \<bar>t - c\<bar>) / 2 ^ 52"
proof -
  define d where "d = t - c"
  define e where "e = max (min (fl d) m) (- m)"
  have "\<bar>e - d\<bar> \<le> \<bar>fl d - d\<bar>"
    unfolding e_def using assms by (intro clamp_err) (simp add: d_def)
  also have "\<dots> \<le> \<bar>d\<bar> / 2 ^ 53" by (rule fl_err)
  finally have ed: "\<bar>e - d\<bar> \<le> \<bar>d\<bar> / 2 ^ 53" .
  have small: "\<bar>d\<bar> / 2 ^ 53 \<le> \<bar>d\<bar>"
    by (simp add: field_simps)
  have "\<bar>fl (c + e) - (c + e)\<bar> \<le> \<bar>c + e\<bar> / 2 ^ 53" by (rule fl_err)
  also have "\<dots> \<le> (\<bar>t\<bar> + \<bar>d\<bar>) / 2 ^ 53"
    using ed small unfolding d_def by (intro divide_right_mono) (linarith, simp)
  finally have f: "\<bar>fl (c + e) - (c + e)\<bar> \<le> (\<bar>t\<bar> + \<bar>d\<bar>) / 2 ^ 53" .
  have "(c + e) - t = e - d" by (simp add: d_def)
  then have "\<bar>fl (c + e) - t\<bar> \<le> (\<bar>t\<bar> + \<bar>d\<bar>) / 2 ^ 53 + \<bar>d\<bar> / 2 ^ 53"
    using f ed by linarith
  also have "\<dots> \<le> (\<bar>t\<bar> + \<bar>d\<bar>) / 2 ^ 52"
    by (simp add: field_simps)
  finally show ?thesis by (simp add: follow_def e_def d_def)
qed

lemma follow_stays:
  assumes "\<bar>t - c\<bar> \<le> m" and "\<bar>t\<bar> + m \<le> 2 ^ 52 * m"
  shows "\<bar>(follow m t ^^ Suc k) c - t\<bar> \<le> (\<bar>t\<bar> + m) / 2 ^ 52"
proof -
  have step: "\<bar>follow m t x - t\<bar> \<le> (\<bar>t\<bar> + m) / 2 ^ 52" if "\<bar>t - x\<bar> \<le> m" for x
  proof -
    have "\<bar>follow m t x - t\<bar> \<le> (\<bar>t\<bar> + \<bar>t - x\<bar>) / 2 ^ 52"
      using that by (rule follow_near)
    also have "\<dots> \<le> (\<bar>t\<bar> + m) / 2 ^ 52"
      using that by (intro divide_right_mono) simp_all
    finally show ?thesis .
  qed
  have lim: "(\<bar>t\<bar> + m) / 2 ^ 52 \<le> m"
    using assms(2) by (simp add: field_simps)
  have inv: "\<bar>t - (follow m t ^^ j) c\<bar> \<le> m" for j
  proof (induction j)
    case 0
    then show ?case using assms(1) by simp
  next
    case (Suc j)
    have "\<bar>follow m t ((follow m t ^^ j) c) - t\<bar> \<le> (\<bar>t\<bar> + m) / 2 ^ 52"
      using Suc by (rule step)
    then have "\<bar>follow m t ((follow m t ^^ j) c) - t\<bar> \<le> m"
      using lim by linarith
    then show ?case by (simp add: abs_minus_commute)
  qed
  show ?thesis
    using step [OF inv [of k]] by simp
qed

text \<open>The series of bar heights after one iteration and after the loop of \<open>drawBars\<close>.\<close>

lemma drawBarsBody_series:
  "prevBarHeightsRef (drawBarsBody d w h i s) =
     (if length (prevBarHeightsRef s) \<noteq> length (frequencies d)
      then (replicate (length (frequencies d)) 0)
             [i := follow 8 (targetHeight d h i) (replicate (length (frequencies d)) 0 ! i)]
      else (prevBarHeightsRef s)[i := follow 8 (targetHeight d h i) (prevBarHeightsRef s ! i)])"
  by (simp add: drawBarsBody_def Let_def)

lemma drawBarsBody_reset:
  assumes "length (prevBarHeightsRef s) \<noteq> length (frequencies d)"
  shows "drawBarsBody d w h i s
       = drawBarsBody d w h i (s\<lparr> prevBarHeightsRef := replicate (length (frequencies d)) 0 \<rparr>)"
  using assms by (simp add: drawBarsBody_def Let_def)

lemma drawBars_fold_series:
  assumes "length (prevBarHeightsRef s) = length (frequencies d)"
  shows "n \<le> length (frequencies d) \<Longrightarrow>
     length (prevBarHeightsRef (fold (drawBarsBody d w h) [0..<n] s)) = length (frequencies d)
     \<and> (\<forall>i < length (frequencies d).
          prevBarHeightsRef (fold (drawBarsBody d w h) [0..<n] s) ! i =
            (if i < n then follow 8 (targetHeight d h i) (prevBarHeightsRef s ! i)
             else prevBarHeightsRef s ! i))"
proof (induction n)
  case 0
  then show ?case using assms by simp
next
  case (Suc n)
  let ?t = "fold (drawBarsBody d w h) [0..<n] s"
  have ih: "length (prevBarHeightsRef ?t) = length (frequencies d)"
    and ihn: "\<forall>i < length (frequencies d). prevBarHeightsRef ?t ! i =
            (if i < n then follow 8 (targetHeight d h i) (prevBarHeightsRef s ! i)
             else prevBarHeightsRef s ! i)"
    using Suc by simp_all
  have step: "prevBarHeightsRef (fold (drawBarsBody d w h) [0..<Suc n] s)
      = (prevBarHeightsRef ?t)[n := follow 8 (targetHeight d h n) (prevBarHeightsRef ?t ! n)]"
    using ih by (simp add: drawBarsBody_series)
  have n: "n < length (frequencies d)" using Suc.prems by simp
  show ?case
    unfolding step using ih ihn n by (auto simp: nth_list_update less_Suc_eq)
qed

lemma drawBars_series:
  assumes "length (prevBarHeightsRef s) = length (frequencies d)"
  shows "prevBarHeightsRef (drawBars d w h s)
       = map (\<lambda>i. follow 8 (targetHeight d h i) (prevBarHeightsRef s ! i))
           [0..<length (frequencies d)]"
  using drawBars_fold_series [OF assms, of "length (frequencies d)" w h]
  by (intro nth_equalityI) (simp_all add: drawBars_def)

lemma drawBars_reset:
  assumes "frequencies d \<noteq> []"
    and "length (prevBarHeightsRef s) \<noteq> length (frequencies d)"
  shows "drawBars d w h s
       = drawBars d w h (s\<lparr> prevBarHeightsRef := replicate (length (frequencies d)) 0 \<rparr>)"
proof -
  have "[0..<length (frequencies d)] = 0 # [1..<length (frequencies d)]"
    using assms(1) by (simp add: upt_conv_Cons)
  then show ?thesis
    using drawBarsBody_reset [OF assms(2), of w h 0] by (simp add: drawBars_def)
qed

text \<open>The same for \<open>drawWaveform\<close>, whose length test precedes the loop.\<close>

lemma drawWaveformBody_series:
  "prevWaveRef (snd (drawWaveformBody d w h i xs))
     = (prevWaveRef (snd xs))[i := follow 3 (targetY d h i) (prevWaveRef (snd xs) ! i)]"
  by (simp add: drawWaveformBody_def Let_def)

lemma drawWaveform_fold_series:
  assumes "length (prevWaveRef (snd xs)) = length (waveform d)"
  shows "n \<le> length (waveform d) \<Longrightarrow>
     length (prevWaveRef (snd (fold (drawWaveformBody d w h) [0..<n] xs))) = length (waveform d)
     \<and> (\<forall>i < length (waveform d).
          prevWaveRef (snd (fold (drawWaveformBody d w h) [0..<n] xs)) ! i =
            (if i < n then follow 3 (targetY d h i) (prevWaveRef (snd xs) ! i)
             else prevWaveRef (snd xs) ! i))"
proof (induction n)
  case 0
  then show ?case using assms by simp
next
  case (Suc n)
  let ?t = "fold (drawWaveformBody d w h) [0..<n] xs"
  have ih: "length (prevWaveRef (snd ?t)) = length (waveform d)"
    and ihn: "\<forall>i < length (waveform d). prevWaveRef (snd ?t) ! i =
            (if i < n then follow 3 (targetY d h i) (prevWaveRef (snd xs) ! i)
             else prevWaveRef (snd xs) ! i)"
    using Suc by simp_all
  have step: "prevWaveRef (snd (fold (drawWaveformBody d w h) [0..<Suc n] xs))
      = (prevWaveRef (snd ?t))[n := follow 3 (targetY d h n) (prevWaveRef (snd ?t) ! n)]"
    by (simp add: drawWaveformBody_series)
  have n: "n < length (waveform d)" using Suc.prems by simp
  show ?case
    unfolding step using ih ihn n by (auto simp: nth_list_update less_Suc_eq)
qed

lemma drawWaveform_series:
  "prevWaveRef (drawWaveform d w h s)
     = map (\<lambda>i. follow 3 (targetY d h i)
                  ((if length (prevWaveRef s) \<noteq> length (waveform d)
                    then replicate (length (waveform d)) (h / 2) else prevWaveRef s) ! i))
         [0..<length (waveform d)]"
proof -
  let ?s2 = "if length (prevWaveRef s) \<noteq> length (waveform d)
             then s\<lparr> raster := raster s @ [BeginPath],
                      prevWaveRef := replicate (length (waveform d)) (h / 2) \<rparr>
             else s\<lparr> raster := raster s @ [BeginPath] \<rparr>"
  have len: "length (prevWaveRef (snd (0::real, ?s2))) = length (waveform d)"
    by simp
  have eq: "prevWaveRef (drawWaveform d w h s)
      = prevWaveRef (snd (fold (drawWaveformBody d w h) [0..<length (waveform d)] (0, ?s2)))"
    by (simp add: drawWaveform_def Let_def)
  show ?thesis
    unfolding eq
    using drawWaveform_fold_series [OF len, of "length (waveform d)" w h]
    by (intro nth_equalityI) auto
qed

lemma drawWaveform_reset:
  assumes "length (prevWaveRef s) \<noteq> length (waveform d)"
  shows "drawWaveform d w h s
       = drawWaveform d w h (s\<lparr> prevWaveRef := replicate (length (waveform d)) (h / 2) \<rparr>)"
proof -
  let ?a = "s\<lparr> raster := raster s @ [BeginPath],
              prevWaveRef := replicate (length (waveform d)) (h / 2) \<rparr>"
  let ?b = "s\<lparr> prevWaveRef := replicate (length (waveform d)) (h / 2),
              raster := raster s @ [BeginPath] \<rparr>"
  let ?end = "\<lambda>t. snd (fold (drawWaveformBody d w h) [0..<length (waveform d)] (0::real, t))"
  have eq: "?a = ?b"
    by (cases s) simp
  have l: "drawWaveform d w h s = (?end ?a)\<lparr> raster := raster (?end ?a) @ [Stroke] \<rparr>"
    using assms by (simp add: drawWaveform_def Let_def)
  have r: "drawWaveform d w h (s\<lparr> prevWaveRef := replicate (length (waveform d)) (h / 2) \<rparr>)
      = (?end ?b)\<lparr> raster := raster (?end ?b) @ [Stroke] \<rparr>"
    by (simp add: drawWaveform_def Let_def)
  show ?thesis
    by (simp only: l r eq)
qed

text \<open>Which parts of the state the draw functions touch.\<close>

lemma drawBarsBody_frame:
  "\<exists>r p. drawBarsBody d w h i s = s\<lparr> raster := r, prevBarHeightsRef := p \<rparr>"
proof (cases "length (prevBarHeightsRef s) \<noteq> length (frequencies d)")
  case True
  then show ?thesis
    by (cases s) (simp add: drawBarsBody_def Let_def)
next
  case False
  then show ?thesis
    by (cases s) (simp add: drawBarsBody_def Let_def)
qed

lemma drawBars_fold_frame:
  "\<exists>r p. fold (drawBarsBody d w h) xs s = s\<lparr> raster := r, prevBarHeightsRef := p \<rparr>"
proof (induction xs arbitrary: s)
  case Nil
  have "s = s\<lparr> raster := raster s, prevBarHeightsRef := prevBarHeightsRef s \<rparr>"
    by simp
  then show ?case by (metis fold_simps(1))
next
  case (Cons i xs)
  obtain r p where b: "drawBarsBody d w h i s = s\<lparr> raster := r, prevBarHeightsRef := p \<rparr>"
    using drawBarsBody_frame by blast
  obtain r' p' where f: "fold (drawBarsBody d w h) xs (drawBarsBody d w h i s)
      = (drawBarsBody d w h i s)\<lparr> raster := r', prevBarHeightsRef := p' \<rparr>"
    using Cons.IH by blast
  have "fold (drawBarsBody d w h) (i # xs) s = s\<lparr> raster := r', prevBarHeightsRef := p' \<rparr>"
    by (simp add: f) (simp add: b)
  then show ?case by blast
qed

lemma drawBars_frame:
  "drawBars d w h s = s\<lparr> raster := raster (drawBars d w h s),
       prevBarHeightsRef := prevBarHeightsRef (drawBars d w h s) \<rparr>"
proof -
  obtain r p where e: "drawBars d w h s = s\<lparr> raster := r, prevBarHeightsRef := p \<rparr>"
    using drawBars_fold_frame [of d w h _ s] unfolding drawBars_def by blast
  show ?thesis by (simp add: e)
qed

lemma drawWaveformBody_frame:
  "\<exists>r p. snd (drawWaveformBody d w h i xs) = (snd xs)\<lparr> raster := r, prevWaveRef := p \<rparr>"
  by (cases "snd xs") (simp add: drawWaveformBody_def Let_def)

lemma drawWaveform_fold_frame:
  "\<exists>r p. snd (fold (drawWaveformBody d w h) is xs) = (snd xs)\<lparr> raster := r, prevWaveRef := p \<rparr>"
proof (induction "is" arbitrary: xs)
  case Nil
  have "snd xs = (snd xs)\<lparr> raster := raster (snd xs), prevWaveRef := prevWaveRef (snd xs) \<rparr>"
    by simp
  then show ?case by (metis fold_simps(1))
next
  case (Cons i "is")
  obtain r p where b: "snd (drawWaveformBody d w h i xs)
      = (snd xs)\<lparr> raster := r, prevWaveRef := p \<rparr>"
    using drawWaveformBody_frame by blast
  obtain r' p' where f: "snd (fold (drawWaveformBody d w h) is (drawWaveformBody d w h i xs))
      = (snd (drawWaveformBody d w h i xs))\<lparr> raster := r', prevWaveRef := p' \<rparr>"
    using Cons.IH by blast
  have "snd (fold (drawWaveformBody d w h) (i # is) xs)
      = (snd xs)\<lparr> raster := r', prevWaveRef := p' \<rparr>"
    by (simp add: f) (simp add: b)
  then show ?case by blast
qed

lemma drawWaveform_frame:
  "drawWaveform d w h s = s\<lparr> raster := raster (drawWaveform d w h s),
       prevWaveRef := prevWaveRef (drawWaveform d w h s) \<rparr>"
proof -
  define s2 where "s2 = (if length (prevWaveRef s) \<noteq> length (waveform d)
             then s\<lparr> raster := raster s @ [BeginPath],
                      prevWaveRef := replicate (length (waveform d)) (h / 2) \<rparr>
             else s\<lparr> raster := raster s @ [BeginPath] \<rparr>)"
  define s3 where "s3 = snd (fold (drawWaveformBody d w h) [0..<length (waveform d)] (0, s2))"
  have "s2 = s\<lparr> raster := raster s2, prevWaveRef := prevWaveRef s2 \<rparr>"
    unfolding s2_def by simp
  then obtain r2 p2 where f2: "s2 = s\<lparr> raster := r2, prevWaveRef := p2 \<rparr>"
    by blast
  obtain r3 p3 where f3: "s3 = s2\<lparr> raster := r3, prevWaveRef := p3 \<rparr>"
    using drawWaveform_fold_frame [of d w h "[0..<length (waveform d)]" "(0, s2)"]
    unfolding s3_def by auto
  have dw: "drawWaveform d w h s = s3\<lparr> raster := raster s3 @ [Stroke] \<rparr>"
    by (simp add: drawWaveform_def Let_def s3_def s2_def)
  show ?thesis
    unfolding dw f3 f2 by simp
qed

lemma drawParticles_frame:
  "drawParticles w h s = s\<lparr> raster := raster (drawParticles w h s) \<rparr>"
  by (simp add: drawParticles_def)

lemma follow_exact:
  assumes "\<bar>fl t - c\<bar> \<le> m" and "fl (fl t - c) = fl t - c"
  shows "follow m (fl t) c = fl t"
proof -
  have "max (min (fl t - c) m) (- m) = fl t - c"
    using assms(1) by (auto simp: max_def min_def)
  then show ?thesis
    by (simp add: follow_def assms(2) fl_idem)
qed

lemma targetHeight_double: "fl (targetHeight d h i) = targetHeight d h i"
  by (simp add: targetHeight_def fl_idem)

lemma targetY_double: "fl (targetY d h i) = targetY d h i"
  by (simp add: targetY_def fl_idem)

text \<open>
  C6, as the code has it. When the stored series have the length of the snapshot, one call
  of \<open>drawBars\<close> sets every bar height to \<open>current + clamp (target - current) (-8) 8\<close> and one
  call of \<open>drawWaveform\<close> sets every sample to \<open>current + clamp (target - current) (-3) 3\<close>,
  where the difference and the sum are each rounded to a double. So an element moves by at
  most 8 (bars) or 3 (waveform) plus the rounding of the sum, which is at most
  \<open>(|current| + maxDelta) / 2\<^sup>5\<^sup>3\<close>. An element within \<open>maxDelta\<close> of its target lands within
  \<open>(|target| + |target - current|) / 2\<^sup>5\<^sup>2\<close> of the target, and on the target itself when the
  difference \<open>target - current\<close> is a double; with a fixed target every further step stays
  within \<open>(|target| + maxDelta) / 2\<^sup>5\<^sup>2\<close> of it.
\<close>

theorem smoothing_step:
  assumes "length (prevBarHeightsRef s) = length (frequencies d)"
    and "length (prevWaveRef s) = length (waveform d)"
  shows "prevBarHeightsRef (drawBars d w h s)
       = map (\<lambda>i. fl (prevBarHeightsRef s ! i
                   + max (min (fl (targetHeight d h i - prevBarHeightsRef s ! i)) 8) (- 8)))
           [0..<length (frequencies d)]
    \<and> prevWaveRef (drawWaveform d w h s)
       = map (\<lambda>i. fl (prevWaveRef s ! i
                   + max (min (fl (targetY d h i - prevWaveRef s ! i)) 3) (- 3)))
           [0..<length (waveform d)]
    \<and> (\<forall>i < length (frequencies d).
          \<bar>prevBarHeightsRef (drawBars d w h s) ! i - prevBarHeightsRef s ! i\<bar>
            \<le> 8 + (\<bar>prevBarHeightsRef s ! i\<bar> + 8) / 2 ^ 53
          \<and> (\<bar>targetHeight d h i - prevBarHeightsRef s ! i\<bar> \<le> 8
               \<longrightarrow> \<bar>prevBarHeightsRef (drawBars d w h s) ! i - targetHeight d h i\<bar>
                     \<le> (\<bar>targetHeight d h i\<bar>
                          + \<bar>targetHeight d h i - prevBarHeightsRef s ! i\<bar>) / 2 ^ 52
                   \<and> (fl (targetHeight d h i - prevBarHeightsRef s ! i)
                          = targetHeight d h i - prevBarHeightsRef s ! i
                        \<longrightarrow> prevBarHeightsRef (drawBars d w h s) ! i = targetHeight d h i)))
    \<and> (\<forall>i < length (waveform d).
          \<bar>prevWaveRef (drawWaveform d w h s) ! i - prevWaveRef s ! i\<bar>
            \<le> 3 + (\<bar>prevWaveRef s ! i\<bar> + 3) / 2 ^ 53
          \<and> (\<bar>targetY d h i - prevWaveRef s ! i\<bar> \<le> 3
               \<longrightarrow> \<bar>prevWaveRef (drawWaveform d w h s) ! i - targetY d h i\<bar>
                     \<le> (\<bar>targetY d h i\<bar> + \<bar>targetY d h i - prevWaveRef s ! i\<bar>) / 2 ^ 52
                   \<and> (fl (targetY d h i - prevWaveRef s ! i) = targetY d h i - prevWaveRef s ! i
                        \<longrightarrow> prevWaveRef (drawWaveform d w h s) ! i = targetY d h i)))
    \<and> (\<bar>t - c\<bar> \<le> 8 \<and> \<bar>t\<bar> + 8 \<le> 2 ^ 52 * 8
          \<longrightarrow> \<bar>(follow 8 t ^^ Suc k) c - t\<bar> \<le> (\<bar>t\<bar> + 8) / 2 ^ 52)
    \<and> (\<bar>t - c\<bar> \<le> 3 \<and> \<bar>t\<bar> + 3 \<le> 2 ^ 52 * 3
          \<longrightarrow> \<bar>(follow 3 t ^^ Suc k) c - t\<bar> \<le> (\<bar>t\<bar> + 3) / 2 ^ 52)"
proof -
  have bars: "prevBarHeightsRef (drawBars d w h s)
       = map (\<lambda>i. follow 8 (targetHeight d h i) (prevBarHeightsRef s ! i))
           [0..<length (frequencies d)]"
    by (rule drawBars_series [OF assms(1)])
  have wave: "prevWaveRef (drawWaveform d w h s)
       = map (\<lambda>i. follow 3 (targetY d h i) (prevWaveRef s ! i)) [0..<length (waveform d)]"
    using drawWaveform_series [of d w h s] assms(2) by simp
  have ex8: "follow 8 (targetHeight d h i) x = targetHeight d h i"
    if "\<bar>targetHeight d h i - x\<bar> \<le> 8" and "fl (targetHeight d h i - x) = targetHeight d h i - x"
    for i x
    using follow_exact [of "targetHeight d h i" x 8] that by (simp add: targetHeight_double)
  have ex3: "follow 3 (targetY d h i) x = targetY d h i"
    if "\<bar>targetY d h i - x\<bar> \<le> 3" and "fl (targetY d h i - x) = targetY d h i - x"
    for i x
    using follow_exact [of "targetY d h i" x 3] that by (simp add: targetY_double)
  have b1: "\<forall>i < length (frequencies d).
          \<bar>prevBarHeightsRef (drawBars d w h s) ! i - prevBarHeightsRef s ! i\<bar>
            \<le> 8 + (\<bar>prevBarHeightsRef s ! i\<bar> + 8) / 2 ^ 53
          \<and> (\<bar>targetHeight d h i - prevBarHeightsRef s ! i\<bar> \<le> 8
               \<longrightarrow> \<bar>prevBarHeightsRef (drawBars d w h s) ! i - targetHeight d h i\<bar>
                     \<le> (\<bar>targetHeight d h i\<bar>
                          + \<bar>targetHeight d h i - prevBarHeightsRef s ! i\<bar>) / 2 ^ 52
                   \<and> (fl (targetHeight d h i - prevBarHeightsRef s ! i)
                          = targetHeight d h i - prevBarHeightsRef s ! i
                        \<longrightarrow> prevBarHeightsRef (drawBars d w h s) ! i = targetHeight d h i))"
    using follow_change [of 8] follow_near [of _ _ 8] ex8 by (simp add: bars)
  have w1: "\<forall>i < length (waveform d).
          \<bar>prevWaveRef (drawWaveform d w h s) ! i - prevWaveRef s ! i\<bar>
            \<le> 3 + (\<bar>prevWaveRef s ! i\<bar> + 3) / 2 ^ 53
          \<and> (\<bar>targetY d h i - prevWaveRef s ! i\<bar> \<le> 3
               \<longrightarrow> \<bar>prevWaveRef (drawWaveform d w h s) ! i - targetY d h i\<bar>
                     \<le> (\<bar>targetY d h i\<bar> + \<bar>targetY d h i - prevWaveRef s ! i\<bar>) / 2 ^ 52
                   \<and> (fl (targetY d h i - prevWaveRef s ! i) = targetY d h i - prevWaveRef s ! i
                        \<longrightarrow> prevWaveRef (drawWaveform d w h s) ! i = targetY d h i))"
    using follow_change [of 3] follow_near [of _ _ 3] ex3 by (simp add: wave)
  have it: "\<bar>t - c\<bar> \<le> 8 \<and> \<bar>t\<bar> + 8 \<le> 2 ^ 52 * 8
          \<longrightarrow> \<bar>(follow 8 t ^^ Suc k) c - t\<bar> \<le> (\<bar>t\<bar> + 8) / 2 ^ 52"
    "\<bar>t - c\<bar> \<le> 3 \<and> \<bar>t\<bar> + 3 \<le> 2 ^ 52 * 3
          \<longrightarrow> \<bar>(follow 3 t ^^ Suc k) c - t\<bar> \<le> (\<bar>t\<bar> + 3) / 2 ^ 52"
    using follow_stays [of t c 8 k] follow_stays [of t c 3 k] by blast+
  have bars': "prevBarHeightsRef (drawBars d w h s)
       = map (\<lambda>i. fl (prevBarHeightsRef s ! i
                   + max (min (fl (targetHeight d h i - prevBarHeightsRef s ! i)) 8) (- 8)))
           [0..<length (frequencies d)]"
    unfolding bars by (simp add: follow_def)
  have wave': "prevWaveRef (drawWaveform d w h s)
       = map (\<lambda>i. fl (prevWaveRef s ! i
                   + max (min (fl (targetY d h i - prevWaveRef s ! i)) 3) (- 3)))
           [0..<length (waveform d)]"
    unfolding wave by (simp add: follow_def)
  show ?thesis
    using bars' wave' b1 w1 it by blast
qed

lemma demo_targets:
  "targetHeight demoData 400 0 = 280" "targetHeight demoData 400 (Suc 0) = 0"
  "targetY demoData 400 0 = 200" "targetY demoData 400 (Suc 0) = 0"
  by (simp_all add: targetHeight_def targetY_def demoData_def double_values)

lemma demo_series:
  "prevBarHeightsRef demoSeries = [0, 5]" "prevWaveRef demoSeries = [200, 1]"
  "length (frequencies demoData) = 2" "length (waveform demoData) = 2"
  by (simp_all add: demoSeries_def demoData_def)

theorem smoothing_step_witness:
  "length (prevBarHeightsRef demoSeries) = length (frequencies demoData)
   \<and> length (prevWaveRef demoSeries) = length (waveform demoData)
   \<and> prevBarHeightsRef (drawBars demoData 800 400 demoSeries) = [8, 0]
   \<and> prevWaveRef (drawWaveform demoData 800 400 demoSeries) = [200, 0]
   \<and> \<bar>(follow 8 280 ^^ Suc 0) 272 - 280\<bar> \<le> (\<bar>280\<bar> + 8) / 2 ^ 52"
proof -
  have h1: "length (prevBarHeightsRef demoSeries) = length (frequencies demoData)"
    and h2: "length (prevWaveRef demoSeries) = length (waveform demoData)"
    by (simp_all add: demo_series)
  have u: "[0..<2] = [0, Suc 0]"
    by (simp add: upt_conv_Cons)
  have b: "prevBarHeightsRef (drawBars demoData 800 400 demoSeries) = [8, 0]"
    and w: "prevWaveRef (drawWaveform demoData 800 400 demoSeries) = [200, 0]"
    and i: "\<bar>(follow 8 280 ^^ Suc 0) 272 - 280\<bar> \<le> (\<bar>280\<bar> + 8) / 2 ^ 52"
    using smoothing_step [OF h1 h2, of 800 400 280 272 0]
    by (simp_all add: demo_series demo_targets u double_values)
  show ?thesis
    using h1 h2 b w i by blast
qed

section \<open>Bursts\<close>

lemma spawn_fold:
  "fold (spawnBody env w h) [0..<n] s
     = s\<lparr> particlesRef := particlesRef s @ map (spawned env w h) [0..<n] \<rparr>"
  by (induction n) (simp_all add: spawnBody_def)

lemma spawnBurst_eq:
  "spawnBurst env w h s = s\<lparr> particlesRef := particlesRef s @ map (spawned env w h) [0..<6] \<rparr>"
  by (simp add: spawnBurst_def spawn_fold)

lemma colorAt_palette:
  assumes "0 \<le> k" and "k < 6"
  shows "colorAt k \<in> set colors" and "colorAt k = colors ! nat k"
proof -
  have len: "length colors = 6" by (simp add: colors_def)
  have n: "nat k < length colors"
    using assms len by linarith
  show "colorAt k = colors ! nat k"
    using assms by (simp add: colorAt_def len)
  then show "colorAt k \<in> set colors"
    using n by simp
qed

text \<open>The rounded velocity, lifetime and palette index of a particle, for a draw in \<open>[0, 1)\<close>.\<close>

lemma velocity_bound:
  assumes "unitInterval r"
  shows "\<bar>fl (fl (r - 1 / 2) * fl (4 / 5))\<bar> \<le> fl (4 / 5) / 2"
proof -
  define a where "a = fl (r - 1 / 2)"
  have r: "0 \<le> r" "r < 1" using assms by (simp_all add: unitInterval_def)
  have i: "fl (4 / 5) = 3602879701896397 / 4503599627370496"
    by (simp add: double_values)
  have "a \<le> real_of_int 1 * pow2 (- 1)"
    unfolding a_def using r by (intro fl_le) (simp_all add: pow2_def)
  moreover have "real_of_int (- 1) * pow2 (- 1) \<le> a"
    unfolding a_def using r by (intro fl_ge) (simp_all add: pow2_def)
  ultimately have a: "\<bar>a\<bar> \<le> 1 / 2" by (simp add: pow2_def)
  have "\<bar>a * fl (4 / 5)\<bar> = \<bar>a\<bar> * (3602879701896397 / 4503599627370496)"
    by (simp add: i abs_mult)
  also have "\<dots> \<le> (1 / 2) * (3602879701896397 / 4503599627370496)"
    using a by (intro mult_right_mono) simp_all
  finally have x: "\<bar>a * fl (4 / 5)\<bar> \<le> 3602879701896397 / 9007199254740992" by simp
  have "fl (a * fl (4 / 5)) \<le> real_of_int 3602879701896397 * pow2 (- 53)"
    using x by (intro fl_le) (simp_all add: pow2_def)
  moreover have "real_of_int (- 3602879701896397) * pow2 (- 53) \<le> fl (a * fl (4 / 5))"
    using x by (intro fl_ge) (simp_all add: pow2_def)
  ultimately have "\<bar>fl (a * fl (4 / 5))\<bar> \<le> 3602879701896397 / 9007199254740992"
    by (simp add: pow2_def)
  then show ?thesis by (simp add: a_def i)
qed

lemma lifetime_bound:
  assumes "unitInterval r"
  shows "60 \<le> fl (60 + fl (r * 60))" and "fl (60 + fl (r * 60)) \<le> 120"
proof -
  define b where "b = fl (r * 60)"
  have r: "0 \<le> r" "r < 1" using assms by (simp_all add: unitInterval_def)
  have "real_of_int 0 * pow2 0 \<le> b"
    unfolding b_def using r by (intro fl_ge) (simp_all add: pow2_def)
  moreover have "b \<le> real_of_int 60 * pow2 0"
    unfolding b_def using r by (intro fl_le) (simp_all add: pow2_def)
  ultimately have b: "0 \<le> b" "b \<le> 60" by (simp_all add: pow2_def)
  have "real_of_int 60 * pow2 0 \<le> fl (60 + b)"
    using b by (intro fl_ge) (simp_all add: pow2_def)
  then show "60 \<le> fl (60 + fl (r * 60))" by (simp add: pow2_def b_def)
  have "fl (60 + b) \<le> real_of_int 120 * pow2 0"
    using b by (intro fl_le) (simp_all add: pow2_def)
  then show "fl (60 + fl (r * 60)) \<le> 120" by (simp add: pow2_def b_def)
qed

lemma colour_index:
  assumes "unitInterval r" and "fl r = r"
  shows "0 \<le> \<lfloor>fl (r * 6)\<rfloor>" and "\<lfloor>fl (r * 6)\<rfloor> < 6"
proof -
  have r: "0 \<le> r" "r < 1" using assms(1) by (simp_all add: unitInterval_def)
  have top: "r \<le> 1 - 1 / 2 ^ 53"
    by (rule double_below_one [OF assms(2) r])
  have "real_of_int 0 * pow2 0 \<le> fl (r * 6)"
    using r by (intro fl_ge) (simp_all add: pow2_def)
  then show "0 \<le> \<lfloor>fl (r * 6)\<rfloor>" by (simp add: pow2_def)
  have "fl (r * 6) \<le> (real_of_int 6755399441055744 - 1 / 2) * pow2 (- 50)"
    using r top by (intro fl_below) (simp_all add: pow2_def)
  then have "fl (r * 6) < 6" by (simp add: pow2_def)
  then show "\<lfloor>fl (r * 6)\<rfloor> < 6" by (simp add: floor_less_iff)
qed

lemma createParticle_props:
  assumes "unitInterval (r 0)" "unitInterval (r 1)" "unitInterval (r 2)"
  shows "px (createParticle x y (fl 0.8) r) = x \<and> py (createParticle x y (fl 0.8) r) = y
    \<and> life (createParticle x y (fl 0.8) r) = 0
    \<and> \<bar>vx (createParticle x y (fl 0.8) r)\<bar> \<le> fl 0.8 / 2
    \<and> \<bar>vy (createParticle x y (fl 0.8) r)\<bar> \<le> fl 0.8 / 2
    \<and> 60 \<le> maxLife (createParticle x y (fl 0.8) r)
    \<and> maxLife (createParticle x y (fl 0.8) r) \<le> 120"
  using velocity_bound [OF assms(1)] velocity_bound [OF assms(2)] lifetime_bound [OF assms(3)]
  by (simp add: createParticle_def)

lemma randomOk_nth: "randomOk env \<Longrightarrow> k < 24 \<Longrightarrow> unitInterval (random env k)"
  by (simp add: randomOk_def list_all_iff)

lemma doubleDraws_nth: "doubleDraws env \<Longrightarrow> k < 24 \<Longrightarrow> fl (random env k) = random env k"
  by (simp add: doubleDraws_def list_all_iff)

lemma spawned_basic:
  assumes "randomOk env" and "i < 6"
  shows "life (spawned env w h i) = 0" and "60 \<le> maxLife (spawned env w h i)"
proof -
  have "unitInterval (random env (4 * i + 0))" "unitInterval (random env (4 * i + 1))"
    "unitInterval (random env (4 * i + 2))"
    using assms by (simp_all add: randomOk_nth)
  then show "life (spawned env w h i) = 0" and "60 \<le> maxLife (spawned env w h i)"
    unfolding spawned_def
    using createParticle_props [of "\<lambda>k. random env (4 * i + k)" "w / 2" "h / 2"] by simp_all
qed

lemma spawned_props:
  assumes "randomOk env" and "doubleDraws env" and "i < 6"
  shows "freshBurst w h (spawned env w h i)"
proof -
  have u: "unitInterval (random env (4 * i + 0))" "unitInterval (random env (4 * i + 1))"
    "unitInterval (random env (4 * i + 2))" "unitInterval (random env (4 * i + 3))"
    using assms by (simp_all add: randomOk_nth)
  have d: "fl (random env (4 * i + 3)) = random env (4 * i + 3)"
    using assms by (simp add: doubleDraws_nth)
  have len: "real (length colors) = 6" by (simp add: colors_def)
  have "color (spawned env w h i) = colorAt \<lfloor>fl (random env (4 * i + 3) * 6)\<rfloor>"
    by (simp add: spawned_def createParticle_def len)
  then have c: "color (spawned env w h i) \<in> set colors"
    using colorAt_palette(1) [OF colour_index [OF u(4) d]] by simp
  show ?thesis
    unfolding freshBurst_def
    using createParticle_props [of "\<lambda>k. random env (4 * i + k)" "w / 2" "h / 2"] u(1-3) c
    by (simp add: spawned_def)
qed

lemma burst_props:
  assumes "randomOk env" and "doubleDraws env"
  shows "list_all (freshBurst w h) (map (spawned env w h) [0..<6])"
  using spawned_props [OF assms] by (simp add: list_all_iff)

section \<open>The tick as a whole\<close>

lemma drawBars_keeps:
  "particlesRef (drawBars d w h s) = particlesRef s"
  "canvasRef (drawBars d w h s) = canvasRef s"
  "isPlaying (drawBars d w h s) = isPlaying s"
  "analyserRef (drawBars d w h s) = analyserRef s"
  "frameQueue (drawBars d w h s) = frameQueue s"
  "frameCounter (drawBars d w h s) = frameCounter s"
  by (subst drawBars_frame, simp)+

lemma drawWaveform_keeps:
  "particlesRef (drawWaveform d w h s) = particlesRef s"
  "canvasRef (drawWaveform d w h s) = canvasRef s"
  "isPlaying (drawWaveform d w h s) = isPlaying s"
  "analyserRef (drawWaveform d w h s) = analyserRef s"
  "frameQueue (drawWaveform d w h s) = frameQueue s"
  "frameCounter (drawWaveform d w h s) = frameCounter s"
  by (subst drawWaveform_frame, simp)+

lemma beforeDrawParticles_keeps:
  "canvasRef (beforeDrawParticles env d w h s) = canvasRef s"
  "isPlaying (beforeDrawParticles env d w h s) = isPlaying s"
  "analyserRef (beforeDrawParticles env d w h s) = analyserRef s"
  "frameQueue (beforeDrawParticles env d w h s) = frameQueue s"
  "frameCounter (beforeDrawParticles env d w h s) = frameCounter s"
  by (simp_all add: beforeDrawParticles_def Let_def drawWaveform_keeps drawBars_keeps
      updateParticles_def spawnBurst_eq)

lemma beforeDrawParticles_particles:
  "particlesRef (beforeDrawParticles env d w h s)
     = filter alive (map advance
         (particlesRef s @ (if beat d then map (spawned env w h) [0..<6] else [])))"
  by (simp add: beforeDrawParticles_def Let_def drawWaveform_keeps drawBars_keeps
      updateParticles_def spawnBurst_eq)

lemma analyzeAudio_keeps:
  "particlesRef (snd (analyzeAudio env s)) = particlesRef s"
  "canvasRef (snd (analyzeAudio env s)) = canvasRef s"
  "isPlaying (snd (analyzeAudio env s)) = isPlaying s"
  "analyserRef (snd (analyzeAudio env s)) = analyserRef s"
  "frameQueue (snd (analyzeAudio env s)) = frameQueue s"
  "frameCounter (snd (analyzeAudio env s)) = frameCounter s"
  by (simp_all add: analyzeAudio_def Let_def split: option.splits)

text \<open>The branches of \<open>animate\<close>.\<close>

lemma animate_full:
  assumes "canvasRef s = Some canvas" and "isPlaying s" and "has2d canvas"
    and "analyserRef s = Some a"
  shows "\<exists>d s2.
     analyzeAudio env (s\<lparr> raster := raster s @ [FillRect 0 0 (width canvas) (height canvas)] \<rparr>)
       = (Some d, s2)
     \<and> animate env s = requestAnimationFrame
          (drawParticles (width canvas) (height canvas)
             (beforeDrawParticles env d (width canvas) (height canvas) s2))"
proof -
  let ?s1 = "s\<lparr> raster := raster s @ [FillRect 0 0 (width canvas) (height canvas)] \<rparr>"
  have "analyserRef ?s1 = Some a" using assms(4) by simp
  then obtain d s2 where run: "analyzeAudio env ?s1 = (Some d, s2)"
    using analyzeAudio_Some [of ?s1 a env] by blast
  have "animate env s = requestAnimationFrame
          (drawParticles (width canvas) (height canvas)
             (beforeDrawParticles env d (width canvas) (height canvas) s2))"
    using assms(1-3) run by (simp add: animate_def Let_def)
  with run show ?thesis by blast
qed

lemma animate_skip:
  assumes "analyserRef s = None"
  shows "(animate env s)\<lparr> raster := raster s \<rparr> = s"
proof (cases "canvasRef s")
  case None
  then show ?thesis by (simp add: animate_def)
next
  case (Some canvas)
  let ?s1 = "s\<lparr> raster := raster s @ [FillRect 0 0 (width canvas) (height canvas)] \<rparr>"
  have "analyzeAudio env ?s1 = (None, ?s1)"
    using assms by (simp add: analyzeAudio_None)
  then show ?thesis
    using Some by (simp add: animate_def Let_def)
qed


lemma animate_keeps:
  "canvasRef (animate env s) = canvasRef s \<and> isPlaying (animate env s) = isPlaying s
   \<and> analyserRef (animate env s) = analyserRef s"
proof (cases "\<exists>canvas a. canvasRef s = Some canvas \<and> isPlaying s \<and> has2d canvas
                \<and> analyserRef s = Some a")
  case True
  then obtain canvas a where h: "canvasRef s = Some canvas" "isPlaying s" "has2d canvas"
    "analyserRef s = Some a" by blast
  let ?s1 = "s\<lparr> raster := raster s @ [FillRect 0 0 (width canvas) (height canvas)] \<rparr>"
  obtain d s2 where run: "analyzeAudio env ?s1 = (Some d, s2)"
    and an: "animate env s = requestAnimationFrame
          (drawParticles (width canvas) (height canvas)
             (beforeDrawParticles env d (width canvas) (height canvas) s2))"
    using animate_full [OF h, of env] by blast
  have s2: "s2 = snd (analyzeAudio env ?s1)" by (simp add: run)
  show ?thesis
    unfolding an s2
    by (simp add: requestAnimationFrame_def Let_def drawParticles_def
        beforeDrawParticles_keeps analyzeAudio_keeps)
next
  case False
  show ?thesis
  proof (cases "analyserRef s")
    case None
    have "canvasRef ((animate env s)\<lparr> raster := raster s \<rparr>) = canvasRef s
      \<and> isPlaying ((animate env s)\<lparr> raster := raster s \<rparr>) = isPlaying s
      \<and> analyserRef ((animate env s)\<lparr> raster := raster s \<rparr>) = analyserRef s"
      unfolding animate_skip [OF None] by simp
    then show ?thesis by simp
  next
    case (Some a)
    then have "animate env s = s"
      using False by (auto simp: animate_def split: option.splits)
    then show ?thesis by simp
  qed
qed

lemma animate_particles:
  assumes "canvasRef s = Some canvas" and "isPlaying s" and "has2d canvas"
    and "analyserRef s = Some a"
    and "analyzeAudio env (s\<lparr> raster := raster s @ [FillRect 0 0 (width canvas) (height canvas)] \<rparr>)
       = (Some d, s2)"
  shows "particlesRef (animate env s)
     = particlesRef (beforeDrawParticles env d (width canvas) (height canvas) s2)"
    and "particlesRef (animate env s)
     = filter alive (map advance (particlesRef s @
         (if beat d then map (spawned env (width canvas) (height canvas)) [0..<6] else [])))"
    and "frameQueue (animate env s) = frameQueue s @ [frameCounter s + 1]"
proof -
  let ?s1 = "s\<lparr> raster := raster s @ [FillRect 0 0 (width canvas) (height canvas)] \<rparr>"
  have an: "animate env s = requestAnimationFrame
          (drawParticles (width canvas) (height canvas)
             (beforeDrawParticles env d (width canvas) (height canvas) s2))"
    using animate_full [OF assms(1-4), of env] assms(5) by simp
  have s2: "s2 = snd (analyzeAudio env ?s1)" by (simp add: assms(5))
  show p: "particlesRef (animate env s)
     = particlesRef (beforeDrawParticles env d (width canvas) (height canvas) s2)"
    unfolding an by (simp add: requestAnimationFrame_def Let_def drawParticles_def)
  have "particlesRef s2 = particlesRef s"
    unfolding s2 by (simp add: analyzeAudio_keeps)
  then show "particlesRef (animate env s)
     = filter alive (map advance (particlesRef s @
         (if beat d then map (spawned env (width canvas) (height canvas)) [0..<6] else [])))"
    unfolding p by (simp add: beforeDrawParticles_particles)
  show "frameQueue (animate env s) = frameQueue s @ [frameCounter s + 1]"
    unfolding an s2
    by (simp add: requestAnimationFrame_def Let_def drawParticles_def
        beforeDrawParticles_keeps analyzeAudio_keeps)
qed

text \<open>What the loop of \<open>drawBars\<close> paints, and the function in closed form.\<close>

lemma drawBarsBody_raster:
  assumes "length (prevBarHeightsRef s) = length (frequencies d)"
  shows "raster (drawBarsBody d w h i s) = raster s @
     (let barWidth = w / real (length (frequencies d));
          barHeight = follow 8 (targetHeight d h i) (prevBarHeightsRef s ! i);
          rect = FillRect (real i * barWidth) (h - barHeight) (barWidth - 1) barHeight
      in if unat (frequencies d ! i) > 200 then [rect, rect] else [rect])"
  using assms by (simp add: drawBarsBody_def Let_def)

lemma drawBars_fold_raster:
  assumes "length (prevBarHeightsRef s) = length (frequencies d)"
  shows "n \<le> length (frequencies d) \<Longrightarrow>
     raster (fold (drawBarsBody d w h) [0..<n] s) = raster s @
       concat (map (\<lambda>i. let barWidth = w / real (length (frequencies d));
                             barHeight = follow 8 (targetHeight d h i) (prevBarHeightsRef s ! i);
                             rect = FillRect (real i * barWidth) (h - barHeight) (barWidth - 1)
                                      barHeight
                         in if unat (frequencies d ! i) > 200 then [rect, rect] else [rect])
                 [0..<n])"
proof (induction n)
  case 0
  then show ?case by simp
next
  case (Suc n)
  let ?t = "fold (drawBarsBody d w h) [0..<n] s"
  have n: "n \<le> length (frequencies d)" "n < length (frequencies d)"
    using Suc.prems by simp_all
  have len: "length (prevBarHeightsRef ?t) = length (frequencies d)"
    and nth: "prevBarHeightsRef ?t ! n = prevBarHeightsRef s ! n"
    using drawBars_fold_series [OF assms n(1), of w h] n(2) by simp_all
  have "raster (fold (drawBarsBody d w h) [0..<Suc n] s) = raster (drawBarsBody d w h n ?t)"
    by simp
  also have "\<dots> = raster ?t @
     (let barWidth = w / real (length (frequencies d));
          barHeight = follow 8 (targetHeight d h n) (prevBarHeightsRef s ! n);
          rect = FillRect (real n * barWidth) (h - barHeight) (barWidth - 1) barHeight
      in if unat (frequencies d ! n) > 200 then [rect, rect] else [rect])"
    using drawBarsBody_raster [OF len, of w h n] by (simp add: nth)
  finally show ?case
    using Suc.IH [OF n(1)] by simp
qed

lemma drawBars_matching:
  assumes "length (prevBarHeightsRef s) = length (frequencies d)"
  shows "drawBars d w h s
       = s\<lparr> raster := raster s @ barCommands d w h (barsAfter d h s),
            prevBarHeightsRef := barsAfter d h s \<rparr>"
proof -
  have after: "barsAfter d h s
      = map (\<lambda>i. follow 8 (targetHeight d h i) (prevBarHeightsRef s ! i))
          [0..<length (frequencies d)]"
    using assms by (simp add: barsAfter_def barsBefore_def)
  have p: "prevBarHeightsRef (drawBars d w h s) = barsAfter d h s"
    unfolding after by (rule drawBars_series [OF assms])
  have "concat (map (\<lambda>i. let barWidth = w / real (length (frequencies d));
                             barHeight = follow 8 (targetHeight d h i) (prevBarHeightsRef s ! i);
                             rect = FillRect (real i * barWidth) (h - barHeight) (barWidth - 1)
                                      barHeight
                         in if unat (frequencies d ! i) > 200 then [rect, rect] else [rect])
                 [0..<length (frequencies d)])
      = barCommands d w h (barsAfter d h s)"
    unfolding barCommands_def
    by (intro arg_cong [where f = concat] map_cong) (simp_all add: after Let_def)
  then have r: "raster (drawBars d w h s) = raster s @ barCommands d w h (barsAfter d h s)"
    using drawBars_fold_raster [OF assms order_refl, of w h] by (simp add: drawBars_def)
  show ?thesis
    by (subst drawBars_frame) (simp add: p r)
qed

lemma drawBars_outcome:
  assumes "frequencies d \<noteq> []"
  shows "drawBars d w h s
       = s\<lparr> raster := raster s @ barCommands d w h (barsAfter d h s),
            prevBarHeightsRef := barsAfter d h s \<rparr>"
proof (cases "length (prevBarHeightsRef s) = length (frequencies d)")
  case True
  then show ?thesis by (rule drawBars_matching)
next
  case False
  let ?s0 = "s\<lparr> prevBarHeightsRef := replicate (length (frequencies d)) 0 \<rparr>"
  have a: "barsAfter d h ?s0 = barsAfter d h s"
    using False by (simp add: barsAfter_def barsBefore_def)
  have "drawBars d w h s = drawBars d w h ?s0"
    by (rule drawBars_reset [OF assms False])
  also have "\<dots> = ?s0\<lparr> raster := raster ?s0 @ barCommands d w h (barsAfter d h ?s0),
                        prevBarHeightsRef := barsAfter d h ?s0 \<rparr>"
    by (rule drawBars_matching) simp
  finally show ?thesis
    by (simp add: a)
qed

text \<open>The same for \<open>drawWaveform\<close>; the pen advances by one slice per sample.\<close>

lemma drawWaveformBody_raster:
  "raster (snd (drawWaveformBody d w h i xs)) = raster (snd xs) @
     [let y = follow 3 (targetY d h i) (prevWaveRef (snd xs) ! i)
      in if i = 0 then MoveTo (fst xs) y else LineTo (fst xs) y]"
  "fst (drawWaveformBody d w h i xs) = fst xs + w / real (length (waveform d))"
  by (simp_all add: drawWaveformBody_def Let_def)

lemma drawWaveform_fold_raster:
  assumes "length (prevWaveRef (snd xs)) = length (waveform d)"
  shows "n \<le> length (waveform d) \<Longrightarrow>
     fst (fold (drawWaveformBody d w h) [0..<n] xs)
       = fst xs + real n * (w / real (length (waveform d)))
     \<and> raster (snd (fold (drawWaveformBody d w h) [0..<n] xs)) = raster (snd xs) @
         map (\<lambda>i. let x = fst xs + real i * (w / real (length (waveform d)));
                       y = follow 3 (targetY d h i) (prevWaveRef (snd xs) ! i)
                   in if i = 0 then MoveTo x y else LineTo x y)
           [0..<n]"
proof (induction n)
  case 0
  then show ?case by simp
next
  case (Suc n)
  let ?t = "fold (drawWaveformBody d w h) [0..<n] xs"
  have n: "n \<le> length (waveform d)" "n < length (waveform d)"
    using Suc.prems by simp_all
  have nth: "prevWaveRef (snd ?t) ! n = prevWaveRef (snd xs) ! n"
    using drawWaveform_fold_series [OF assms n(1), of w h] n(2) by simp
  have ih: "fst ?t = fst xs + real n * (w / real (length (waveform d)))"
    and ihr: "raster (snd ?t) = raster (snd xs) @
         map (\<lambda>i. let x = fst xs + real i * (w / real (length (waveform d)));
                       y = follow 3 (targetY d h i) (prevWaveRef (snd xs) ! i)
                   in if i = 0 then MoveTo x y else LineTo x y)
           [0..<n]"
    using Suc.IH [OF n(1)] by simp_all
  have f: "fold (drawWaveformBody d w h) [0..<Suc n] xs = drawWaveformBody d w h n ?t"
    by simp
  show ?case
    unfolding f drawWaveformBody_raster
    by (simp add: ih ihr nth Let_def algebra_simps add_divide_distrib)
qed

lemma drawWaveform_outcome:
  "drawWaveform d w h s
     = s\<lparr> raster := raster s @ [BeginPath] @ waveCommands d w (waveAfter d h s) @ [Stroke],
          prevWaveRef := waveAfter d h s \<rparr>"
proof -
  define s2 where "s2 = (if length (prevWaveRef s) \<noteq> length (waveform d)
             then s\<lparr> raster := raster s @ [BeginPath],
                      prevWaveRef := replicate (length (waveform d)) (h / 2) \<rparr>
             else s\<lparr> raster := raster s @ [BeginPath] \<rparr>)"
  define s3 where "s3 = snd (fold (drawWaveformBody d w h) [0..<length (waveform d)] (0, s2))"
  have len: "length (prevWaveRef (snd (0::real, s2))) = length (waveform d)"
    by (simp add: s2_def)
  have before: "prevWaveRef s2 = waveBefore d h s" "raster s2 = raster s @ [BeginPath]"
    by (simp_all add: s2_def waveBefore_def)
  have after: "waveAfter d h s
      = map (\<lambda>i. follow 3 (targetY d h i) (prevWaveRef s2 ! i)) [0..<length (waveform d)]"
    by (simp add: waveAfter_def before)
  have p: "prevWaveRef (drawWaveform d w h s) = waveAfter d h s"
    by (simp add: drawWaveform_series waveAfter_def waveBefore_def)
  have "map (\<lambda>i. let x = fst (0::real, s2) + real i * (w / real (length (waveform d)));
                     y = follow 3 (targetY d h i) (prevWaveRef (snd (0::real, s2)) ! i)
                 in if i = 0 then MoveTo x y else LineTo x y)
           [0..<length (waveform d)]
      = waveCommands d w (waveAfter d h s)"
    unfolding waveCommands_def
    by (intro map_cong) (auto simp: after Let_def)
  then have r3: "raster s3 = raster s @ [BeginPath] @ waveCommands d w (waveAfter d h s)"
    using drawWaveform_fold_raster [OF len order_refl, of w h]
    by (simp add: s3_def before)
  have dw: "drawWaveform d w h s = s3\<lparr> raster := raster s3 @ [Stroke] \<rparr>"
    by (simp add: drawWaveform_def Let_def s3_def s2_def)
  have r: "raster (drawWaveform d w h s)
      = raster s @ [BeginPath] @ waveCommands d w (waveAfter d h s) @ [Stroke]"
    by (simp add: dw r3)
  show ?thesis
    by (subst drawWaveform_frame) (simp add: p r)
qed

text \<open>\<open>analyzeAudio\<close> writes the moving average and the time of the last beat only.\<close>

lemma analyzeAudio_frame:
  "snd (analyzeAudio env s)
     = s\<lparr> bassEmaRef := bassEmaRef (snd (analyzeAudio env s)),
          lastBeatTsRef := lastBeatTsRef (snd (analyzeAudio env s)) \<rparr>"
  by (simp add: analyzeAudio_def Let_def split: option.splits)

lemma analyzeAudio_faded:
  "analyzeAudio env (s\<lparr> raster := r \<rparr>)
     = (fst (analyzeAudio env s), (snd (analyzeAudio env s))\<lparr> raster := r \<rparr>)"
  by (simp add: analyzeAudio_def Let_def split: option.splits)

text \<open>
  A tick of a playing session with an analyser, in closed form: the fading rectangle, the
  sampled data, the burst on a beat, the advance and cull of the particles, the two smoothed
  series with what is painted for them, the particles painted, and the request for the next
  frame.
\<close>

lemma animate_outcome:
  assumes "canvasRef s = Some canvas" and "isPlaying s" and "has2d canvas"
    and "analyzeAudio env s = (Some d, s2)" and "frequencies d \<noteq> []"
  shows "animate env s
     = s\<lparr> raster := raster s @ [FillRect 0 0 (width canvas) (height canvas)]
            @ barCommands d (width canvas) (height canvas) (barsAfter d (height canvas) s)
            @ [BeginPath] @ waveCommands d (width canvas) (waveAfter d (height canvas) s)
            @ [Stroke]
            @ concat (map drawParticle
                (filter alive (map advance (particlesRef s @
                   (if beat d then map (spawned env (width canvas) (height canvas)) [0..<6]
                    else []))))),
          bassEmaRef := bassEmaRef s2,
          lastBeatTsRef := lastBeatTsRef s2,
          particlesRef := filter alive (map advance (particlesRef s @
             (if beat d then map (spawned env (width canvas) (height canvas)) [0..<6] else []))),
          prevBarHeightsRef := barsAfter d (height canvas) s,
          prevWaveRef := waveAfter d (height canvas) s,
          frameCounter := frameCounter s + 1,
          frameQueue := frameQueue s @ [frameCounter s + 1],
          animationIdRef := frameCounter s + 1 \<rparr>"
proof -
  let ?w = "width canvas" and ?h = "height canvas"
  let ?s1 = "s\<lparr> raster := raster s @ [FillRect 0 0 ?w ?h] \<rparr>"
  have s2: "s2 = s\<lparr> bassEmaRef := bassEmaRef s2, lastBeatTsRef := lastBeatTsRef s2 \<rparr>"
    using analyzeAudio_frame [of env s] by (simp add: assms(4))
  then obtain e l where s2': "s2 = s\<lparr> bassEmaRef := e, lastBeatTsRef := l \<rparr>"
    by (rule that)
  have run: "analyzeAudio env ?s1 = (Some d, s2\<lparr> raster := raster s @ [FillRect 0 0 ?w ?h] \<rparr>)"
    by (simp add: analyzeAudio_faded assms(4))
  have an: "animate env s = requestAnimationFrame
          (drawParticles ?w ?h
             (beforeDrawParticles env d ?w ?h
                (s2\<lparr> raster := raster s @ [FillRect 0 0 ?w ?h] \<rparr>)))"
    using assms(1-3) run by (simp add: animate_def Let_def)
  show ?thesis
    unfolding an s2'
    by (cases s)
      (simp add: requestAnimationFrame_def Let_def drawParticles_def beforeDrawParticles_def
        drawWaveform_outcome drawBars_outcome [OF assms(5)] updateParticles_def spawnBurst_eq
        barsAfter_def barsBefore_def waveAfter_def waveBefore_def)
qed




text \<open>Every event keeps the transform size of the analyser at 256.\<close>

lemma analyserOk_step: "analyserOk s \<Longrightarrow> analyserOk (step e s)"
proof (cases e)
  case (StartMic r)
  assume "analyserOk s"
  then show ?thesis
    unfolding StartMic
    by (cases r) (simp_all add: analyserOk_def initializeMicrophone_def connectGraph_def)
next
  case (StartSystem r)
  assume "analyserOk s"
  then show ?thesis
    unfolding StartSystem
    by (cases r) (simp_all add: analyserOk_def initializeSystemAudio_def systemAudioCatch_def
        connectGraph_def)
next
  case Stop
  assume "analyserOk s"
  then show ?thesis
    unfolding Stop
    by (simp add: analyserOk_def stopAudio_def cancelAnimationFrame_def Let_def
        split: option.splits)
next
  case (Resize w h)
  assume "analyserOk s"
  then show ?thesis
    unfolding Resize
    by (simp add: analyserOk_def handleResize_def split: option.splits)
next
  case (Frame env)
  assume "analyserOk s"
  then show ?thesis
    unfolding Frame using animate_keeps [of env "cancelAnimationFrame (animationIdRef s) s"]
    by (simp add: analyserOk_def cancelAnimationFrame_def)
qed

lemma analyserOk_run: "analyserOk s \<Longrightarrow> analyserOk (run es s)"
  unfolding run_def by (induction es arbitrary: s) (simp_all add: analyserOk_step)

lemma analyserOk_initial: "analyserOk (initialState c)"
  by (simp add: analyserOk_def initialState_def)

text \<open>The smoothed series after a tick on which all bins read the same byte.\<close>

lemma barsAfter_const:
  assumes "frequencies d = map (\<lambda>i. b) [0..<n]"
    and "prevBarHeightsRef s = replicate n c \<or> (length (prevBarHeightsRef s) \<noteq> n \<and> c = 0)"
  shows "barsAfter d h s
       = replicate n (follow 8 (fl (fl (fl (real (unat b) / 255) * h) * fl 0.7)) c)"
proof -
  have before: "barsBefore d s = replicate n c"
    using assms by (auto simp: barsBefore_def)
  have "barsAfter d h s
      = map (\<lambda>i. follow 8 (fl (fl (fl (real (unat b) / 255) * h) * fl 0.7)) c) [0..<n]"
    unfolding barsAfter_def before
    by (simp add: assms(1) targetHeight_def del: of_nat_unat)
  then show ?thesis
    by (simp add: map_replicate_const)
qed



lemma demoPlaying_run:
  "demoPlaying = run [StartMic (Resolved \<lparr> audioTracks = 1, videoTracks = 0 \<rparr>)]
                   (initialState demoCanvas)"
  by (simp add: demoPlaying_def run_def)

lemma demoPlaying_fields:
  "isPlaying demoPlaying" "frameQueue demoPlaying = []" "frameCounter demoPlaying = 0"
  "particlesRef demoPlaying = []" "canvasRef demoPlaying = Some demoCanvas"
  "prevBarHeightsRef demoPlaying = []" "prevWaveRef demoPlaying = []"
  "animationIdRef demoPlaying = 0"
  by (simp_all add: demoPlaying_def initializeMicrophone_def connectGraph_def
      initialState_def)

lemma demoPlaying_cancel:
  "cancelAnimationFrame (animationIdRef demoPlaying) demoPlaying = demoPlaying"
  by (simp add: cancelAnimationFrame_def demoPlaying_fields)


section \<open>Resizing of the smoothed series\<close>

text \<open>Every snapshot a run of the component observes has 128 bins and 128 samples.\<close>

lemma observed_snapshot:
  assumes "analyserRef s' = analyserRef (run es (initialState c))"
    and "analyzeAudio env s' = (Some d, s2)"
  shows "length (frequencies d) = 128 \<and> length (waveform d) = 128"
proof -
  have ok: "analyserOk (run es (initialState c))"
    by (intro analyserOk_run analyserOk_initial)
  obtain a where a: "analyserRef s' = Some a"
    using assms(2) by (cases "analyserRef s'") (simp_all add: analyzeAudio_None)
  have "fftSize a = 256"
    using ok a assms(1) by (simp add: analyserOk_def)
  then have n: "frequencyBinCount a = 128"
    by (simp add: frequencyBinCount_def)
  obtain d' s'' where run: "analyzeAudio env s' = (Some d', s'')"
    and fr: "frequencies d' = map (byteFrequencyData env) [0..<frequencyBinCount a]"
    and wv: "waveform d' = map (byteTimeDomainData env) [0..<frequencyBinCount a]"
    using analyzeAudio_Some [OF a, of env] by blast
  have "d' = d" using run assms(2) by simp
  then show ?thesis using fr wv n by simp
qed

text \<open>
  C7. For the snapshot a tick observes (in any state the component reaches, it has 128 bins
  and 128 samples): when the stored series does not have the length of the snapshot,
  \<open>drawBars\<close> behaves as on a series of zeros and \<open>drawWaveform\<close> as on a series at the
  mid-line \<open>height / 2\<close>, so the series is replaced by the baseline and the same call
  interpolates from it. No branch of either function fails, and afterwards the series has
  the length of the snapshot, so the next call is a plain smoothing step.
\<close>

theorem smoothing_reinit:
  assumes "analyserRef s' = analyserRef (run es (initialState c))"
    and "analyzeAudio env s' = (Some d, s2)"
  shows "length (frequencies d) = 128 \<and> length (waveform d) = 128
   \<and> (length (prevBarHeightsRef t) \<noteq> length (frequencies d)
      \<longrightarrow> drawBars d w h t
            = drawBars d w h (t\<lparr> prevBarHeightsRef := replicate (length (frequencies d)) 0 \<rparr>)
        \<and> prevBarHeightsRef (drawBars d w h t)
            = map (\<lambda>i. follow 8 (targetHeight d h i) 0) [0..<length (frequencies d)])
   \<and> (length (prevWaveRef t) \<noteq> length (waveform d)
      \<longrightarrow> drawWaveform d w h t
            = drawWaveform d w h (t\<lparr> prevWaveRef := replicate (length (waveform d)) (h / 2) \<rparr>)
        \<and> prevWaveRef (drawWaveform d w h t)
            = map (\<lambda>i. follow 3 (targetY d h i) (h / 2)) [0..<length (waveform d)])
   \<and> length (prevBarHeightsRef (drawBars d w h t)) = length (frequencies d)
   \<and> length (prevWaveRef (drawWaveform d w h t)) = length (waveform d)"
proof -
  have shape: "length (frequencies d) = 128 \<and> length (waveform d) = 128"
    by (rule observed_snapshot [OF assms])
  then have ne: "frequencies d \<noteq> []" by auto
  have bars: "drawBars d w h t
            = drawBars d w h (t\<lparr> prevBarHeightsRef := replicate (length (frequencies d)) 0 \<rparr>)
        \<and> prevBarHeightsRef (drawBars d w h t)
            = map (\<lambda>i. follow 8 (targetHeight d h i) 0) [0..<length (frequencies d)]"
    if mis: "length (prevBarHeightsRef t) \<noteq> length (frequencies d)"
  proof -
    let ?t0 = "t\<lparr> prevBarHeightsRef := replicate (length (frequencies d)) 0 \<rparr>"
    have r: "drawBars d w h t = drawBars d w h ?t0"
      by (rule drawBars_reset [OF ne mis])
    have "prevBarHeightsRef (drawBars d w h ?t0)
        = map (\<lambda>i. follow 8 (targetHeight d h i) (prevBarHeightsRef ?t0 ! i))
            [0..<length (frequencies d)]"
      by (rule drawBars_series) simp
    also have "\<dots> = map (\<lambda>i. follow 8 (targetHeight d h i) 0) [0..<length (frequencies d)]"
      by (rule map_cong) simp_all
    finally show ?thesis using r by simp
  qed
  have wave: "drawWaveform d w h t
            = drawWaveform d w h (t\<lparr> prevWaveRef := replicate (length (waveform d)) (h / 2) \<rparr>)
        \<and> prevWaveRef (drawWaveform d w h t)
            = map (\<lambda>i. follow 3 (targetY d h i) (h / 2)) [0..<length (waveform d)]"
    if mis: "length (prevWaveRef t) \<noteq> length (waveform d)"
  proof -
    have "prevWaveRef (drawWaveform d w h t)
        = map (\<lambda>i. follow 3 (targetY d h i) (replicate (length (waveform d)) (h / 2) ! i))
            [0..<length (waveform d)]"
      using drawWaveform_series [of d w h t] mis by simp
    also have "\<dots> = map (\<lambda>i. follow 3 (targetY d h i) (h / 2)) [0..<length (waveform d)]"
      by (rule map_cong) simp_all
    finally show ?thesis using drawWaveform_reset [OF mis, of w h] by simp
  qed
  have lb: "length (prevBarHeightsRef (drawBars d w h t)) = length (frequencies d)"
  proof (cases "length (prevBarHeightsRef t) = length (frequencies d)")
    case True
    then show ?thesis by (simp add: drawBars_series)
  next
    case False
    then show ?thesis using bars [THEN conjunct2] by simp
  qed
  have lw: "length (prevWaveRef (drawWaveform d w h t)) = length (waveform d)"
    by (simp add: drawWaveform_series)
  show ?thesis
    using shape bars wave lb lw by blast
qed

text \<open>The first tick of a fresh session, with all bins at 255 and all samples at 128.\<close>

lemma demo_first_data:
  "\<exists>d s2. analyzeAudio (constEnv 255 128 1000 (1 / 2)) demoPlaying = (Some d, s2)
     \<and> frequencies d = replicate 128 255 \<and> waveform d = replicate 128 128"
proof -
  obtain d s2 where run: "analyzeAudio (constEnv 255 128 1000 (1 / 2)) demoPlaying = (Some d, s2)"
    and fr: "frequencies d = map (byteFrequencyData (constEnv 255 128 1000 (1 / 2)))
               [0..<frequencyBinCount \<lparr> fftSize = 256, smoothingTimeConstant = 0.9 \<rparr>]"
    and wv: "waveform d = map (byteTimeDomainData (constEnv 255 128 1000 (1 / 2)))
               [0..<frequencyBinCount \<lparr> fftSize = 256, smoothingTimeConstant = 0.9 \<rparr>]"
    using analyzeAudio_Some [OF demoPlaying_analyser, of "constEnv 255 128 1000 (1 / 2)"]
    by blast
  have "frequencies d = replicate 128 255" "waveform d = replicate 128 128"
    by (simp_all add: fr wv constEnv_def frequencyBinCount_def map_replicate_const)
  with run show ?thesis by blast
qed

theorem smoothing_reinit_witness:
  "analyserRef demoPlaying
     = analyserRef (run [StartMic (Resolved \<lparr> audioTracks = 1, videoTracks = 0 \<rparr>)]
                      (initialState demoCanvas))
   \<and> length (prevBarHeightsRef demoPlaying) = 0
   \<and> length (prevWaveRef demoPlaying) = 0
   \<and> prevBarHeightsRef
        (drawBars (the (fst (analyzeAudio (constEnv 255 128 1000 (1 / 2)) demoPlaying)))
           800 400 demoPlaying) = replicate 128 8
   \<and> prevWaveRef
        (drawWaveform (the (fst (analyzeAudio (constEnv 255 128 1000 (1 / 2)) demoPlaying)))
           800 400 demoPlaying) = replicate 128 200"
proof -
  obtain d s2 where run: "analyzeAudio (constEnv 255 128 1000 (1 / 2)) demoPlaying = (Some d, s2)"
    and fr: "frequencies d = replicate 128 255" and wv: "waveform d = replicate 128 128"
    using demo_first_data by blast
  have h1: "analyserRef demoPlaying
     = analyserRef (run [StartMic (Resolved \<lparr> audioTracks = 1, videoTracks = 0 \<rparr>)]
                      (initialState demoCanvas))"
    using demoPlaying_run by simp
  have e: "prevBarHeightsRef demoPlaying = []" "prevWaveRef demoPlaying = []"
    by (simp_all add: demoPlaying_def initializeMicrophone_def connectGraph_def
        initialState_def)
  have b: "prevBarHeightsRef (drawBars d 800 400 demoPlaying)
      = map (\<lambda>i. follow 8 (targetHeight d 400 i) 0) [0..<length (frequencies d)]"
    and w: "prevWaveRef (drawWaveform d 800 400 demoPlaying)
      = map (\<lambda>i. follow 3 (targetY d 400 i) (400 / 2)) [0..<length (waveform d)]"
  proof -
    have mb: "length (prevBarHeightsRef demoPlaying) \<noteq> length (frequencies d)"
      and mw: "length (prevWaveRef demoPlaying) \<noteq> length (waveform d)"
      by (simp_all add: e fr wv)
    show "prevBarHeightsRef (drawBars d 800 400 demoPlaying)
      = map (\<lambda>i. follow 8 (targetHeight d 400 i) 0) [0..<length (frequencies d)]"
      using smoothing_reinit [OF h1 run, of demoPlaying 800 400] mb by blast
    show "prevWaveRef (drawWaveform d 800 400 demoPlaying)
      = map (\<lambda>i. follow 3 (targetY d 400 i) (400 / 2)) [0..<length (waveform d)]"
      using smoothing_reinit [OF h1 run, of demoPlaying 800 400] mw by blast
  qed
  have "map (\<lambda>i. follow 8 (targetHeight d 400 i) 0) [0..<length (frequencies d)]
      = map (\<lambda>i. 8) [0..<length (frequencies d)]"
    by (rule map_cong) (simp_all add: fr targetHeight_def follow_def double_values)
  then have b': "prevBarHeightsRef (drawBars d 800 400 demoPlaying) = replicate 128 8"
    using b by (simp add: fr map_replicate_const)
  have "map (\<lambda>i. follow 3 (targetY d 400 i) (400 / 2)) [0..<length (waveform d)]
      = map (\<lambda>i. 200) [0..<length (waveform d)]"
    by (rule map_cong) (simp_all add: wv targetY_def follow_def double_values)
  then have w': "prevWaveRef (drawWaveform d 800 400 demoPlaying) = replicate 128 200"
    using w by (simp add: wv map_replicate_const)
  show ?thesis
    using h1 e b' w' by (simp add: run)
qed

section \<open>What drawing changes\<close>

lemma demo_first_bars:
  "prevBarHeightsRef
     (drawBars (the (fst (analyzeAudio (constEnv 255 128 1000 (1 / 2)) demoPlaying)))
        800 400 demoPlaying) = replicate 128 8"
proof -
  obtain d s2 where run: "analyzeAudio (constEnv 255 128 1000 (1 / 2)) demoPlaying = (Some d, s2)"
    and fr: "frequencies d = replicate 128 255"
    using demo_first_data by blast
  let ?s0 = "demoPlaying\<lparr> prevBarHeightsRef := replicate (length (frequencies d)) 0 \<rparr>"
  have e: "prevBarHeightsRef demoPlaying = []"
    by (simp add: demoPlaying_def initializeMicrophone_def connectGraph_def initialState_def)
  have ne: "frequencies d \<noteq> []"
    and mis: "length (prevBarHeightsRef demoPlaying) \<noteq> length (frequencies d)"
    by (simp_all add: fr e)
  have "prevBarHeightsRef (drawBars d 800 400 demoPlaying)
      = prevBarHeightsRef (drawBars d 800 400 ?s0)"
    using drawBars_reset [OF ne mis, of 800 400] by (rule arg_cong)
  also have "\<dots> = map (\<lambda>i. follow 8 (targetHeight d 400 i) (prevBarHeightsRef ?s0 ! i))
            [0..<length (frequencies d)]"
    by (rule drawBars_series) simp
  also have "\<dots> = map (\<lambda>i. 8) [0..<length (frequencies d)]"
    by (rule map_cong) (simp_all add: fr targetHeight_def follow_def double_values)
  also have "\<dots> = replicate 128 8"
    by (simp add: fr map_replicate_const)
  finally show ?thesis by (simp add: run)
qed

text \<open>
  The smoothing lives inside the draw functions. On the first tick of a session, with every
  bin at 255 on a canvas 400 high, \<open>drawBars\<close> finds an empty series and leaves 128 bar
  heights of 8: the smoothed series is not the same after the draw call.
\<close>

theorem draw_changes_series_counterexample:
  "prevBarHeightsRef demoPlaying = []
   \<and> prevBarHeightsRef
        (drawBars (the (fst (analyzeAudio (constEnv 255 128 1000 (1 / 2)) demoPlaying)))
           800 400 demoPlaying) = replicate 128 8
   \<and> prevBarHeightsRef
        (drawBars (the (fst (analyzeAudio (constEnv 255 128 1000 (1 / 2)) demoPlaying)))
           800 400 demoPlaying) \<noteq> prevBarHeightsRef demoPlaying"
proof -
  have e: "prevBarHeightsRef demoPlaying = []"
    by (simp add: demoPlaying_def initializeMicrophone_def connectGraph_def initialState_def)
  show ?thesis
    by (simp add: demo_first_bars e)
qed

text \<open>
  C4, as the code has it. Drawing the bars, the waveform and the particles changes the
  raster and the two smoothed series (\<open>drawBars\<close> its bar heights, \<open>drawWaveform\<close> its
  samples) and nothing else: the particle collection and the beat state are the same after
  the three calls, and the band levels are values of the data, which is not written.
\<close>

theorem renderer_effects:
  "drawParticles w h (drawWaveform d w h (drawBars d w h s))
     = s\<lparr> raster := raster (drawParticles w h (drawWaveform d w h (drawBars d w h s))),
          prevBarHeightsRef := prevBarHeightsRef (drawBars d w h s),
          prevWaveRef := prevWaveRef (drawWaveform d w h (drawBars d w h s)) \<rparr>
   \<and> particlesRef (drawParticles w h (drawWaveform d w h (drawBars d w h s))) = particlesRef s
   \<and> bassEmaRef (drawParticles w h (drawWaveform d w h (drawBars d w h s))) = bassEmaRef s
   \<and> lastBeatTsRef (drawParticles w h (drawWaveform d w h (drawBars d w h s)))
       = lastBeatTsRef s"
proof -
  define B where "B = drawBars d w h s"
  define W where "W = drawWaveform d w h B"
  define P where "P = drawParticles w h W"
  have "B = s\<lparr> raster := raster B, prevBarHeightsRef := prevBarHeightsRef B \<rparr>"
    unfolding B_def by (rule drawBars_frame)
  then obtain r1 p1 where b: "B = s\<lparr> raster := r1, prevBarHeightsRef := p1 \<rparr>"
    by (rule that)
  have "W = B\<lparr> raster := raster W, prevWaveRef := prevWaveRef W \<rparr>"
    unfolding W_def by (rule drawWaveform_frame)
  then obtain r2 p2 where w: "W = B\<lparr> raster := r2, prevWaveRef := p2 \<rparr>"
    by (rule that)
  have "P = W\<lparr> raster := raster P \<rparr>"
    unfolding P_def by (rule drawParticles_frame)
  then obtain r3 where p: "P = W\<lparr> raster := r3 \<rparr>"
    by (rule that)
  have e: "P = s\<lparr> raster := r3, prevBarHeightsRef := p1, prevWaveRef := p2 \<rparr>"
    by (simp add: p w b)
  have f: "raster P = r3" "prevBarHeightsRef B = p1" "prevWaveRef W = p2"
    by (simp_all add: p w b)
  have "P = s\<lparr> raster := raster P, prevBarHeightsRef := prevBarHeightsRef B,
               prevWaveRef := prevWaveRef W \<rparr>
     \<and> particlesRef P = particlesRef s \<and> bassEmaRef P = bassEmaRef s
     \<and> lastBeatTsRef P = lastBeatTsRef s"
    unfolding f by (simp add: e)
  then show ?thesis
    unfolding P_def W_def B_def .
qed

section \<open>Rounding in the smoothed series\<close>

text \<open>A run of demo ticks keeps the session, and its bars follow the bytes one after another.\<close>

lemma step_frame_keeps:
  "canvasRef (step (Frame env) s) = canvasRef s \<and> isPlaying (step (Frame env) s) = isPlaying s
   \<and> analyserRef (step (Frame env) s) = analyserRef s"
  using animate_keeps [of env "cancelAnimationFrame (animationIdRef s) s"]
  by (simp add: cancelAnimationFrame_def)

lemma demoTicks_keeps:
  "canvasRef (demoTicks t bs s) = canvasRef s \<and> isPlaying (demoTicks t bs s) = isPlaying s
   \<and> analyserRef (demoTicks t bs s) = analyserRef s"
  by (induction t bs s rule: demoTicks.induct) (simp_all add: step_frame_keeps del: step.simps)

lemma const_snapshot:
  assumes "analyserRef s = Some \<lparr> fftSize = 256, smoothingTimeConstant = 0.9 \<rparr>"
  shows "\<exists>d s2. analyzeAudio (constEnv b u t r) s = (Some d, s2)
     \<and> frequencies d = map (\<lambda>i. b) [0..<128] \<and> waveform d = map (\<lambda>i. u) [0..<128]"
  using analyzeAudio_Some [OF assms, of "constEnv b u t r"]
  by (auto simp: constEnv_def frequencyBinCount_def)

lemma demo_step_bars:
  assumes "canvasRef s = Some demoCanvas" and "isPlaying s"
    and "analyserRef s = Some \<lparr> fftSize = 256, smoothingTimeConstant = 0.9 \<rparr>"
    and "prevBarHeightsRef s = replicate 128 c \<or> (length (prevBarHeightsRef s) \<noteq> 128 \<and> c = 0)"
  shows "prevBarHeightsRef (step (Frame (constEnv b u t r)) s)
       = replicate 128 (follow 8 (fl (fl (fl (real (unat b) / 255) * 400) * fl 0.7)) c)"
proof -
  let ?s = "cancelAnimationFrame (animationIdRef s) s"
  have f: "canvasRef ?s = Some demoCanvas" "isPlaying ?s"
    "analyserRef ?s = Some \<lparr> fftSize = 256, smoothingTimeConstant = 0.9 \<rparr>"
    "prevBarHeightsRef ?s = prevBarHeightsRef s"
    using assms(1-3) by (simp_all add: cancelAnimationFrame_def)
  obtain d s2 where run: "analyzeAudio (constEnv b u t r) ?s = (Some d, s2)"
    and fr: "frequencies d = map (\<lambda>i. b) [0..<128]"
    using const_snapshot [OF f(3)] by blast
  have ne: "frequencies d \<noteq> []" by (simp add: fr)
  have c: "has2d demoCanvas" "height demoCanvas = 400" by (simp_all add: demoCanvas_def)
  have "prevBarHeightsRef (animate (constEnv b u t r) ?s) = barsAfter d 400 ?s"
    by (subst animate_outcome [OF f(1,2) c(1) run ne]) (simp add: c(2))
  also have "\<dots> = replicate 128 (follow 8 (fl (fl (fl (real (unat b) / 255) * 400) * fl 0.7)) c)"
    using assms(4) by (intro barsAfter_const [OF fr]) (simp add: f(4))
  finally show ?thesis by simp
qed

lemma demoTicks_bars:
  assumes "canvasRef s = Some demoCanvas" and "isPlaying s"
    and "analyserRef s = Some \<lparr> fftSize = 256, smoothingTimeConstant = 0.9 \<rparr>"
    and "prevBarHeightsRef s = replicate 128 c \<or> (length (prevBarHeightsRef s) \<noteq> 128 \<and> c = 0)"
    and "bs \<noteq> []"
  shows "prevBarHeightsRef (demoTicks t bs s)
       = replicate 128
           (foldl (\<lambda>c b. follow 8 (fl (fl (fl (real (unat b) / 255) * 400) * fl 0.7)) c) c bs)"
  using assms
proof (induction bs arbitrary: t s c)
  case Nil
  then show ?case by simp
next
  case (Cons b bs)
  let ?s = "step (Frame (constEnv b 128 t (1 / 2))) s"
  let ?c = "follow 8 (fl (fl (fl (real (unat b) / 255) * 400) * fl 0.7)) c"
  have k: "canvasRef ?s = Some demoCanvas" "isPlaying ?s"
    "analyserRef ?s = Some \<lparr> fftSize = 256, smoothingTimeConstant = 0.9 \<rparr>"
    using step_frame_keeps [of "constEnv b 128 t (1 / 2)" s] Cons.prems(1-3) by simp_all
  have p: "prevBarHeightsRef ?s = replicate 128 ?c"
    by (rule demo_step_bars [OF Cons.prems(1-4)])
  show ?case
  proof (cases "bs = []")
    case True
    then show ?thesis by (simp add: p del: step.simps of_nat_unat)
  next
    case False
    have "prevBarHeightsRef (demoTicks (t + 16) bs ?s)
       = replicate 128
           (foldl (\<lambda>c b. follow 8 (fl (fl (fl (real (unat b) / 255) * 400) * fl 0.7)) c) ?c bs)"
      using p by (intro Cons.IH [OF k _ False]) simp
    then show ?thesis by (simp del: step.simps of_nat_unat)
  qed
qed

lemma demoTicks_target:
  "targetHeight (the (fst (analyzeAudio (constEnv b u t r) (demoTicks t' bs demoPlaying)))) h 0
     = fl (fl (fl (real (unat b) / 255) * h) * fl 0.7)"
proof -
  have "analyserRef (demoTicks t' bs demoPlaying)
      = Some \<lparr> fftSize = 256, smoothingTimeConstant = 0.9 \<rparr>"
    using demoTicks_keeps [of t' bs demoPlaying] by (simp add: demoPlaying_analyser)
  then obtain d s2
    where run: "analyzeAudio (constEnv b u t r) (demoTicks t' bs demoPlaying) = (Some d, s2)"
    and fr: "frequencies d = map (\<lambda>i. b) [0..<128]"
    using const_snapshot by blast
  show ?thesis
    by (simp add: run targetHeight_def fr del: of_nat_unat)
qed

text \<open>
  Two runs of a session on a canvas 400 high. In the first all bins read 3 on one tick and 1
  on the next: after the first tick every bar is at 3.2941176470588234, which is within 8 of
  the next target 1.0980392156862744, yet the second tick leaves the bar at
  1.0980392156862742, not on the target. In the second run all bins read 9, 9 and 255: the
  second tick leaves every bar at 9.88235294117647 and the third at 17.88235294117647,
  which is \<open>8 + 2\<^sup>-\<^sup>4\<^sup>9\<close> higher: the bar has moved by more than 8.
\<close>

theorem smoothing_rounding_counterexample:
  "prevBarHeightsRef (demoTicks 1000 [3] demoPlaying) ! 0
     = 3708846751952173 / 1125899906842624
   \<and> targetHeight
       (the (fst (analyzeAudio (constEnv 1 128 1016 (1 / 2)) (demoTicks 1000 [3] demoPlaying))))
       400 0 = 4945129002602897 / 4503599627370496
   \<and> \<bar>targetHeight
        (the (fst (analyzeAudio (constEnv 1 128 1016 (1 / 2)) (demoTicks 1000 [3] demoPlaying))))
        400 0 - prevBarHeightsRef (demoTicks 1000 [3] demoPlaying) ! 0\<bar> \<le> 8
   \<and> prevBarHeightsRef (demoTicks 1000 [3, 1] demoPlaying) ! 0
     = 309070562662681 / 281474976710656
   \<and> prevBarHeightsRef (demoTicks 1000 [3, 1] demoPlaying) ! 0
     \<noteq> targetHeight
         (the (fst (analyzeAudio (constEnv 1 128 1016 (1 / 2)) (demoTicks 1000 [3] demoPlaying))))
         400 0
   \<and> length (prevBarHeightsRef (demoTicks 1000 [9, 9] demoPlaying)) = 128
   \<and> prevBarHeightsRef (demoTicks 1000 [9, 9] demoPlaying) ! 0
     = 5563270127928259 / 562949953421312
   \<and> prevBarHeightsRef (demoTicks 1000 [9, 9, 255] demoPlaying) ! 0
     = 2516717438824689 / 140737488355328
   \<and> 8 < \<bar>prevBarHeightsRef (demoTicks 1000 [9, 9, 255] demoPlaying) ! 0
          - prevBarHeightsRef (demoTicks 1000 [9, 9] demoPlaying) ! 0\<bar>"
proof -
  have start: "prevBarHeightsRef demoPlaying = replicate 128 0
      \<or> (length (prevBarHeightsRef demoPlaying) \<noteq> 128 \<and> (0::real) = 0)"
    by (simp add: demoPlaying_fields)
  have bars: "prevBarHeightsRef (demoTicks 1000 bs demoPlaying)
       = replicate 128
           (foldl (\<lambda>c b. follow 8 (fl (fl (fl (real (unat b) / 255) * 400) * fl 0.7)) c) 0 bs)"
    if "bs \<noteq> []" for bs
    by (rule demoTicks_bars [OF demoPlaying_fields(5,1) demoPlaying_analyser start that])
  have a1: "prevBarHeightsRef (demoTicks 1000 [3] demoPlaying) ! 0
     = 3708846751952173 / 1125899906842624"
    by (subst bars) (simp_all add: follow_def double_values)
  have a2: "prevBarHeightsRef (demoTicks 1000 [3, 1] demoPlaying) ! 0
     = 309070562662681 / 281474976710656"
    by (subst bars) (simp_all add: follow_def double_values)
  have t1: "targetHeight
       (the (fst (analyzeAudio (constEnv 1 128 1016 (1 / 2)) (demoTicks 1000 [3] demoPlaying))))
       400 0 = 4945129002602897 / 4503599627370496"
    by (subst demoTicks_target) (simp add: double_values)
  have b2: "prevBarHeightsRef (demoTicks 1000 [9, 9] demoPlaying) ! 0
     = 5563270127928259 / 562949953421312"
    by (subst bars) (simp_all add: follow_def double_values)
  have b3: "prevBarHeightsRef (demoTicks 1000 [9, 9, 255] demoPlaying) ! 0
     = 2516717438824689 / 140737488355328"
    by (subst bars) (simp_all add: follow_def double_values)
  have l: "length (prevBarHeightsRef (demoTicks 1000 [9, 9] demoPlaying)) = 128"
    by (subst bars) simp_all
  show ?thesis
    unfolding a1 a2 t1 b2 b3 l by simp
qed

section \<open>Beats and bursts\<close>

lemma spawned_alive:
  assumes "life p = 0" and "60 \<le> maxLife p"
  shows "alive (advance p)"
  using assms by (simp add: alive_def advance_def)

lemma burst_survives:
  assumes "randomOk env"
  shows "filter alive (map advance (map (spawned env w h) [0..<6]))
       = map advance (map (spawned env w h) [0..<6])"
proof -
  have "alive (advance (spawned env w h i))" if "i < 6" for i
    by (rule spawned_alive [OF spawned_basic [OF assms that]])
  then have "\<forall>q \<in> set (map advance (map (spawned env w h) [0..<6])). alive q"
    by auto
  then show ?thesis by (simp only: filter_True)
qed

lemma bass_full:
  assumes "analyserRef s = Some a" and "10 \<le> frequencyBinCount a"
    and "\<forall>i<10. byteFrequencyData env i = 255"
    and "analyzeAudio env s = (Some d, s2)"
  shows "bassLevel d = 255"
proof -
  obtain d' s' where run: "analyzeAudio env s = (Some d', s')"
    and fr: "frequencies d' = map (byteFrequencyData env) [0..<frequencyBinCount a]"
    and b: "bassLevel d' = level (slice 0 10 (frequencies d'))"
    using analyzeAudio_Some [OF assms(1), of env] by blast
  have d: "d' = d" using run assms(4) by simp
  have len: "10 \<le> length (frequencies d')" using assms(2) by (simp add: fr)
  have "level (slice 0 10 (frequencies d'))
      = (\<Sum>i = 0..<10. real (unat (frequencies d' ! i))) / real (10 - 0)"
    by (rule level_slice [OF len])
  also have "(\<Sum>i = 0..<10. real (unat (frequencies d' ! i))) = (\<Sum>i = 0..<10::nat. 255)"
    using assms(2,3) by (intro sum.cong) (simp_all add: fr)
  finally show ?thesis using b d by simp
qed

text \<open>The beat state after a tick is that of the sampling.\<close>

lemma analyzeAudio_raster:
  "fst (analyzeAudio env (s\<lparr> raster := r \<rparr>)) = fst (analyzeAudio env s)"
  "bassEmaRef (snd (analyzeAudio env (s\<lparr> raster := r \<rparr>))) = bassEmaRef (snd (analyzeAudio env s))"
  "lastBeatTsRef (snd (analyzeAudio env (s\<lparr> raster := r \<rparr>)))
     = lastBeatTsRef (snd (analyzeAudio env s))"
  by (simp_all add: analyzeAudio_def Let_def split: option.splits)

lemma drawBars_beat_state:
  "bassEmaRef (drawBars d w h s) = bassEmaRef s"
  "lastBeatTsRef (drawBars d w h s) = lastBeatTsRef s"
  by (subst drawBars_frame, simp)+

lemma drawWaveform_beat_state:
  "bassEmaRef (drawWaveform d w h s) = bassEmaRef s"
  "lastBeatTsRef (drawWaveform d w h s) = lastBeatTsRef s"
  by (subst drawWaveform_frame, simp)+

lemma animate_beat_state:
  assumes "canvasRef s = Some canvas" and "isPlaying s" and "has2d canvas"
    and "analyserRef s = Some a"
  shows "bassEmaRef (animate env s) = bassEmaRef (snd (analyzeAudio env s))"
    and "lastBeatTsRef (animate env s) = lastBeatTsRef (snd (analyzeAudio env s))"
proof -
  let ?s1 = "s\<lparr> raster := raster s @ [FillRect 0 0 (width canvas) (height canvas)] \<rparr>"
  obtain d s2 where run: "analyzeAudio env ?s1 = (Some d, s2)"
    and an: "animate env s = requestAnimationFrame
          (drawParticles (width canvas) (height canvas)
             (beforeDrawParticles env d (width canvas) (height canvas) s2))"
    using animate_full [OF assms, of env] by blast
  have s2: "s2 = snd (analyzeAudio env ?s1)" by (simp add: run)
  have "bassEmaRef (animate env s) = bassEmaRef s2 \<and> lastBeatTsRef (animate env s) = lastBeatTsRef s2"
    unfolding an
    by (simp add: requestAnimationFrame_def Let_def drawParticles_def beforeDrawParticles_def
        drawWaveform_beat_state drawBars_beat_state updateParticles_def spawnBurst_eq)
  then show "bassEmaRef (animate env s) = bassEmaRef (snd (analyzeAudio env s))"
    and "lastBeatTsRef (animate env s) = lastBeatTsRef (snd (analyzeAudio env s))"
    unfolding s2 by (simp_all add: analyzeAudio_raster)
qed

lemma tick_beat_flag:
  assumes "analyserRef s = Some a"
  shows "beat (the (fst (analyzeAudio env s)))
     = (bassLevel (the (fst (analyzeAudio env s)))
          > 0.8 * bassEmaRef s + 0.2 * bassLevel (the (fst (analyzeAudio env s))) + 35
        \<and> now env - lastBeatTsRef s > 180)"
    and "bassEmaRef (snd (analyzeAudio env s))
     = 0.8 * bassEmaRef s + 0.2 * bassLevel (the (fst (analyzeAudio env s)))"
    and "lastBeatTsRef (snd (analyzeAudio env s))
     = (if beat (the (fst (analyzeAudio env s))) then now env else lastBeatTsRef s)"
    and "0 \<le> bassLevel (the (fst (analyzeAudio env s)))"
proof -
  obtain d s' where run: "analyzeAudio env s = (Some d, s')"
    and bl: "bassLevel d = level (slice 0 10 (frequencies d))"
    and bt: "beat d = (bassLevel d > (0.8 * bassEmaRef s + 0.2 * bassLevel d) + 35
               \<and> now env - lastBeatTsRef s > 180)"
    and st: "s' = s\<lparr> bassEmaRef := 0.8 * bassEmaRef s + 0.2 * bassLevel d,
              lastBeatTsRef := (if beat d then now env else lastBeatTsRef s) \<rparr>"
    using analyzeAudio_Some [OF assms, of env] by blast
  show "beat (the (fst (analyzeAudio env s)))
     = (bassLevel (the (fst (analyzeAudio env s)))
          > 0.8 * bassEmaRef s + 0.2 * bassLevel (the (fst (analyzeAudio env s))) + 35
        \<and> now env - lastBeatTsRef s > 180)"
    using bt by (simp add: run)
  show "bassEmaRef (snd (analyzeAudio env s))
     = 0.8 * bassEmaRef s + 0.2 * bassLevel (the (fst (analyzeAudio env s)))"
    by (simp add: run st)
  show "lastBeatTsRef (snd (analyzeAudio env s))
     = (if beat (the (fst (analyzeAudio env s))) then now env else lastBeatTsRef s)"
    by (simp add: run st)
  have "0 \<le> level xs" for xs
    unfolding level_def foldl_add_sum_list
    by (intro divide_nonneg_nonneg add_nonneg_nonneg sum_list_nonneg) (auto simp del: of_nat_unat)
  then show "0 \<le> bassLevel (the (fst (analyzeAudio env s)))"
    by (simp add: run bl)
qed

text \<open>
  In every state the component reaches, the moving average is not negative, and while it is
  still 0 no beat has been flagged: the time of the last beat is still 0.
\<close>

lemma beat_state_animate:
  assumes "0 \<le> bassEmaRef s" and "bassEmaRef s = 0 \<longrightarrow> lastBeatTsRef s = 0"
  shows "0 \<le> bassEmaRef (animate env s)
     \<and> (bassEmaRef (animate env s) = 0 \<longrightarrow> lastBeatTsRef (animate env s) = 0)"
proof (cases "\<exists>canvas a. canvasRef s = Some canvas \<and> isPlaying s \<and> has2d canvas
                \<and> analyserRef s = Some a")
  case True
  then obtain canvas a where h: "canvasRef s = Some canvas" "isPlaying s" "has2d canvas"
    "analyserRef s = Some a" by blast
  define b where "b = bassLevel (the (fst (analyzeAudio env s)))"
  have b: "0 \<le> b"
    unfolding b_def by (rule tick_beat_flag(4) [OF h(4)])
  have e: "bassEmaRef (animate env s) = 0.8 * bassEmaRef s + 0.2 * b"
    unfolding b_def animate_beat_state(1) [OF h] by (rule tick_beat_flag(2) [OF h(4)])
  have l: "lastBeatTsRef (animate env s)
      = (if beat (the (fst (analyzeAudio env s))) then now env else lastBeatTsRef s)"
    unfolding animate_beat_state(2) [OF h] by (rule tick_beat_flag(3) [OF h(4)])
  have bt: "beat (the (fst (analyzeAudio env s)))
      = (b > 0.8 * bassEmaRef s + 0.2 * b + 35 \<and> now env - lastBeatTsRef s > 180)"
    unfolding b_def by (rule tick_beat_flag(1) [OF h(4)])
  have "0 \<le> bassEmaRef (animate env s)"
    using assms(1) b by (simp add: e)
  moreover have "lastBeatTsRef (animate env s) = 0" if "bassEmaRef (animate env s) = 0"
  proof -
    have "bassEmaRef s = 0 \<and> b = 0"
      using that assms(1) b unfolding e by linarith
    then show ?thesis
      using assms(2) by (simp add: l bt)
  qed
  ultimately show ?thesis by blast
next
  case False
  show ?thesis
  proof (cases "analyserRef s")
    case None
    have "bassEmaRef ((animate env s)\<lparr> raster := raster s \<rparr>) = bassEmaRef s
      \<and> lastBeatTsRef ((animate env s)\<lparr> raster := raster s \<rparr>) = lastBeatTsRef s"
      unfolding animate_skip [OF None] by simp
    then show ?thesis using assms by simp
  next
    case (Some a)
    then have "animate env s = s"
      using False by (auto simp: animate_def split: option.splits)
    then show ?thesis using assms by simp
  qed
qed

lemma beat_state_step:
  assumes "0 \<le> bassEmaRef s \<and> (bassEmaRef s = 0 \<longrightarrow> lastBeatTsRef s = 0)"
  shows "0 \<le> bassEmaRef (step e s)
     \<and> (bassEmaRef (step e s) = 0 \<longrightarrow> lastBeatTsRef (step e s) = 0)"
proof (cases e)
  case (StartMic r)
  show ?thesis
    unfolding StartMic using assms
    by (cases r) (simp_all add: initializeMicrophone_def connectGraph_def)
next
  case (StartSystem r)
  show ?thesis
    unfolding StartSystem using assms
    by (cases r) (simp_all add: initializeSystemAudio_def systemAudioCatch_def
        connectGraph_def)
next
  case Stop
  show ?thesis
    unfolding Stop using assms
    by (simp add: stopAudio_def cancelAnimationFrame_def Let_def split: option.splits)
next
  case (Resize w h)
  show ?thesis
    unfolding Resize using assms
    by (simp add: handleResize_def split: option.splits)
next
  case (Frame env)
  show ?thesis
    unfolding Frame
    using beat_state_animate [of "cancelAnimationFrame (animationIdRef s) s" env] assms
    by (simp add: cancelAnimationFrame_def)
qed

lemma beat_state_run:
  assumes "0 \<le> bassEmaRef s \<and> (bassEmaRef s = 0 \<longrightarrow> lastBeatTsRef s = 0)"
  shows "0 \<le> bassEmaRef (run es s)
     \<and> (bassEmaRef (run es s) = 0 \<longrightarrow> lastBeatTsRef (run es s) = 0)"
  using assms unfolding run_def
proof (induction es arbitrary: s)
  case Nil
  then show ?case by simp
next
  case (Cons e es)
  show ?case
    using Cons.IH [OF beat_state_step [OF Cons.prems, of e]] by simp
qed

text \<open>
  Before rounding each component of a particle is an increasing affine function of its draw,
  which carries \<open>[0, 1)\<close> onto the interval of the component; the palette index splits
  \<open>[0, 1)\<close> into six intervals of equal length.
\<close>

lemma affine_bij:
  assumes "0 < (a::real)"
  shows "bij_betw (\<lambda>r. b + r * a) {0..<1} {b..<b + a}"
proof (rule bij_betw_imageI)
  show "inj_on (\<lambda>r. b + r * a) {0..<1}"
    using assms by (simp add: inj_on_def)
  show "(\<lambda>r. b + r * a) ` {0..<1} = {b..<b + a}"
  proof (intro equalityI subsetI)
    fix y assume "y \<in> (\<lambda>r. b + r * a) ` {0..<1}"
    then obtain r where r: "0 \<le> r" "r < 1" "y = b + r * a" by auto
    have "0 \<le> r * a" "r * a < 1 * a"
      using r(1,2) assms by (simp_all add: mult_strict_right_mono)
    then show "y \<in> {b..<b + a}" by (simp add: r(3))
  next
    fix y assume "y \<in> {b..<b + a}"
    then have y: "b \<le> y" "y < b + a" by simp_all
    have "(y - b) / a \<in> {0..<1}"
      using y assms by (simp add: field_simps)
    moreover have "y = b + (y - b) / a * a"
      using assms by simp
    ultimately show "y \<in> (\<lambda>r. b + r * a) ` {0..<1}" by (rule rev_image_eqI)
  qed
qed

lemma velocity_bij:
  "bij_betw (\<lambda>r. (r - 1 / 2) * fl (4 / 5)) {0..<1} {- (fl (4 / 5) / 2)..<fl (4 / 5) / 2}"
proof -
  have pos: "0 < fl (4 / 5)" by (simp add: double_values)
  have "(\<lambda>r. (r - 1 / 2) * fl (4 / 5)) = (\<lambda>r. - (fl (4 / 5) / 2) + r * fl (4 / 5))"
    by (rule ext) (simp add: algebra_simps)
  moreover have "- (fl (4 / 5) / 2) + fl (4 / 5) = fl (4 / 5) / 2"
    by simp
  ultimately show ?thesis
    using affine_bij [OF pos, of "- (fl (4 / 5) / 2)"] by simp
qed

lemma lifetime_bij: "bij_betw (\<lambda>r. 60 + r * 60) {0..<1} {60..<120::real}"
  using affine_bij [of 60 60] by simp

lemma colour_classes:
  assumes "k < 6"
  shows "{r::real. 0 \<le> r \<and> r < 1 \<and> \<lfloor>r * 6\<rfloor> = int k} = {real k / 6..<(real k + 1) / 6}"
proof (intro equalityI subsetI)
  fix r :: real assume "r \<in> {r. 0 \<le> r \<and> r < 1 \<and> \<lfloor>r * 6\<rfloor> = int k}"
  then have "\<lfloor>r * 6\<rfloor> = int k" by simp
  then have "real k \<le> r * 6" "r * 6 < real k + 1"
    by linarith+
  then show "r \<in> {real k / 6..<(real k + 1) / 6}"
    by (simp add: field_simps)
next
  fix r :: real assume "r \<in> {real k / 6..<(real k + 1) / 6}"
  then have b: "real k \<le> r * 6" "r * 6 < real k + 1"
    by (simp_all add: field_simps)
  then have f: "\<lfloor>r * 6\<rfloor> = int k"
    by linarith
  have "real k + 1 \<le> 6" using assms by simp
  then have "0 \<le> r" "r < 1" using b by linarith+
  then show "r \<in> {r. 0 \<le> r \<and> r < 1 \<and> \<lfloor>r * 6\<rfloor> = int k}"
    using f by simp
qed

lemma spawned_fields:
  assumes "randomOk env" and "doubleDraws env" and "i < 6"
  shows "vx (spawned env w h i) = fl (fl (random env (4 * i) - 1 / 2) * fl (4 / 5))"
    and "vy (spawned env w h i) = fl (fl (random env (4 * i + 1) - 1 / 2) * fl (4 / 5))"
    and "maxLife (spawned env w h i) = fl (60 + fl (random env (4 * i + 2) * 60))"
    and "color (spawned env w h i) = colors ! nat \<lfloor>fl (random env (4 * i + 3) * 6)\<rfloor>"
proof -
  show "vx (spawned env w h i) = fl (fl (random env (4 * i) - 1 / 2) * fl (4 / 5))"
    and "vy (spawned env w h i) = fl (fl (random env (4 * i + 1) - 1 / 2) * fl (4 / 5))"
    and "maxLife (spawned env w h i) = fl (60 + fl (random env (4 * i + 2) * 60))"
    by (simp_all add: spawned_def createParticle_def)
  have u: "unitInterval (random env (4 * i + 3))"
    and d: "fl (random env (4 * i + 3)) = random env (4 * i + 3)"
    using assms by (simp_all add: randomOk_nth doubleDraws_nth)
  have len: "real (length colors) = 6" by (simp add: colors_def)
  have "color (spawned env w h i) = colorAt \<lfloor>fl (random env (4 * i + 3) * 6)\<rfloor>"
    by (simp add: spawned_def createParticle_def len)
  then show "color (spawned env w h i) = colors ! nat \<lfloor>fl (random env (4 * i + 3) * 6)\<rfloor>"
    using colorAt_palette(2) [OF colour_index [OF u d]] by simp
qed

text \<open>
  C9, as the code has it. On a tick of a playing session that flags a beat, the loop pushes
  exactly six particles onto the collection, each at the centre of the canvas with age 0
  and intensity 0.8; all six pass the advance-and-cull of the same tick. Without a beat none
  is pushed. With \<open>r\<close> the draw of \<open>Math.random()\<close> a component reads, a velocity component is
  \<open>(r - 0.5) * 0.8\<close>, the lifetime is \<open>60 + r * 60\<close> and the colour is entry \<open>\<lfloor>r * 6\<rfloor>\<close> of the
  palette, every operation rounded to a double. Before rounding these are increasing affine
  images of the draw, onto \<open>[-0.4, 0.4)\<close> and \<open>[60, 120)\<close>, and six classes of equal length,
  so each component is as uniform as the draw is. After rounding a velocity component has
  magnitude at most 0.4 (as a double), the colour is one of the six, and the lifetime lies
  in \<open>[60, 120]\<close>: the upper end is reached. A tick whose bass level is 255 while the average
  is 0 flags a beat when more than 180 ms have passed since the last beat; in a state the
  component has reached with the average still at 0 there was no beat yet, and that is when
  the clock reads more than 180 ms.
\<close>

theorem beat_burst:
  assumes "canvasRef s = Some canvas" and "isPlaying s" and "has2d canvas"
    and "analyserRef s = Some a" and "randomOk env" and "doubleDraws env"
  shows "(\<exists>d s2 burst.
     analyzeAudio env (s\<lparr> raster := raster s @ [FillRect 0 0 (width canvas) (height canvas)] \<rparr>)
       = (Some d, s2)
     \<and> length burst = 6
     \<and> list_all (freshBurst (width canvas) (height canvas)) burst
     \<and> (\<forall>i<6. vx (burst ! i) = fl (fl (random env (4 * i) - 1 / 2) * fl (4 / 5))
            \<and> vy (burst ! i) = fl (fl (random env (4 * i + 1) - 1 / 2) * fl (4 / 5))
            \<and> maxLife (burst ! i) = fl (60 + fl (random env (4 * i + 2) * 60))
            \<and> color (burst ! i) = colors ! nat \<lfloor>fl (random env (4 * i + 3) * 6)\<rfloor>)
     \<and> (beat d \<longrightarrow>
          particlesRef (spawnBurst env (width canvas) (height canvas) s2) = particlesRef s @ burst
          \<and> particlesRef (animate env s)
              = filter alive (map advance (particlesRef s)) @ map advance burst)
     \<and> (\<not> beat d \<longrightarrow>
          particlesRef (animate env s) = filter alive (map advance (particlesRef s)))
     \<and> (bassEmaRef s = 0 \<and> 10 \<le> frequencyBinCount a
          \<and> (\<forall>i<10. byteFrequencyData env i = 255)
          \<and> now env - lastBeatTsRef s > 180 \<longrightarrow> beat d)
     \<and> (s = run es (initialState c) \<and> bassEmaRef s = 0
          \<and> (\<forall>i<10. byteFrequencyData env i = 255)
          \<and> now env > 180 \<longrightarrow> beat d))
   \<and> fl (4 / 5) / 2 = fl (2 / 5)
   \<and> bij_betw (\<lambda>r. (r - 1 / 2) * fl (4 / 5)) {0..<1} {- (fl (4 / 5) / 2)..<fl (4 / 5) / 2}
   \<and> bij_betw (\<lambda>r. 60 + r * 60) {0..<1} {60..<120::real}
   \<and> (\<forall>k<6. {r::real. 0 \<le> r \<and> r < 1 \<and> \<lfloor>r * 6\<rfloor> = int k}
               = {real k / 6..<(real k + 1) / 6})"
proof -
  let ?w = "width canvas" and ?h = "height canvas"
  let ?s1 = "s\<lparr> raster := raster s @ [FillRect 0 0 ?w ?h] \<rparr>"
  let ?burst = "map (spawned env ?w ?h) [0..<6]"
  have an1: "analyserRef ?s1 = Some a" using assms(4) by simp
  obtain d s2 where run: "analyzeAudio env ?s1 = (Some d, s2)"
    and bt: "beat d = (bassLevel d > (0.8 * bassEmaRef ?s1 + 0.2 * bassLevel d) + 35
               \<and> now env - lastBeatTsRef ?s1 > 180)"
    using analyzeAudio_Some [OF an1, of env] by blast
  have s2: "particlesRef s2 = particlesRef s"
    using analyzeAudio_keeps(1) [of env ?s1] by (simp add: run)
  have len: "length ?burst = 6" by simp
  have props: "list_all (freshBurst ?w ?h) ?burst"
    by (rule burst_props [OF assms(5,6)])
  have fields: "\<forall>i<6. vx (?burst ! i) = fl (fl (random env (4 * i) - 1 / 2) * fl (4 / 5))
            \<and> vy (?burst ! i) = fl (fl (random env (4 * i + 1) - 1 / 2) * fl (4 / 5))
            \<and> maxLife (?burst ! i) = fl (60 + fl (random env (4 * i + 2) * 60))
            \<and> color (?burst ! i) = colors ! nat \<lfloor>fl (random env (4 * i + 3) * 6)\<rfloor>"
    using spawned_fields [OF assms(5,6), of _ ?w ?h] by simp
  have parts: "particlesRef (animate env s)
     = filter alive (map advance (particlesRef s @ (if beat d then ?burst else [])))"
    by (rule animate_particles(2) [OF assms(1-4) run])
  have yes: "particlesRef (spawnBurst env ?w ?h s2) = particlesRef s @ ?burst
          \<and> particlesRef (animate env s)
              = filter alive (map advance (particlesRef s)) @ map advance ?burst"
    if "beat d"
    using that parts s2 burst_survives [OF assms(5), of ?w ?h] by (simp add: spawnBurst_eq)
  have no: "particlesRef (animate env s) = filter alive (map advance (particlesRef s))"
    if "\<not> beat d"
    using that parts by simp
  have scen: "beat d"
    if h: "bassEmaRef s = 0 \<and> 10 \<le> frequencyBinCount a
          \<and> (\<forall>i<10. byteFrequencyData env i = 255) \<and> now env - lastBeatTsRef s > 180"
  proof -
    have "bassLevel d = 255"
      using bass_full [OF an1 _ _ run] h by blast
    then show ?thesis using bt h by simp
  qed
  have first: "beat d"
    if h: "s = run es (initialState c) \<and> bassEmaRef s = 0
          \<and> (\<forall>i<10. byteFrequencyData env i = 255) \<and> now env > 180"
  proof -
    from h have hs: "s = run es (initialState c)" and e0: "bassEmaRef s = 0"
      and nw: "now env > 180"
      by blast+
    have "analyserOk s"
      unfolding hs by (intro analyserOk_run analyserOk_initial)
    then have n: "10 \<le> frequencyBinCount a"
      using assms(4) by (simp add: analyserOk_def frequencyBinCount_def)
    have init: "0 \<le> bassEmaRef (initialState c)
        \<and> (bassEmaRef (initialState c) = 0 \<longrightarrow> lastBeatTsRef (initialState c) = 0)"
      by (simp add: initialState_def)
    have "bassEmaRef s = 0 \<longrightarrow> lastBeatTsRef s = 0"
      unfolding hs using beat_state_run [OF init, of es] by blast
    then have "lastBeatTsRef s = 0"
      using e0 by blast
    then have "now env - lastBeatTsRef s > 180"
      using nw by simp
    then show ?thesis
      using scen h n by blast
  qed
  have ex: "\<exists>d s2 burst.
     analyzeAudio env ?s1 = (Some d, s2)
     \<and> length burst = 6
     \<and> list_all (freshBurst ?w ?h) burst
     \<and> (\<forall>i<6. vx (burst ! i) = fl (fl (random env (4 * i) - 1 / 2) * fl (4 / 5))
            \<and> vy (burst ! i) = fl (fl (random env (4 * i + 1) - 1 / 2) * fl (4 / 5))
            \<and> maxLife (burst ! i) = fl (60 + fl (random env (4 * i + 2) * 60))
            \<and> color (burst ! i) = colors ! nat \<lfloor>fl (random env (4 * i + 3) * 6)\<rfloor>)
     \<and> (beat d \<longrightarrow>
          particlesRef (spawnBurst env ?w ?h s2) = particlesRef s @ burst
          \<and> particlesRef (animate env s)
              = filter alive (map advance (particlesRef s)) @ map advance burst)
     \<and> (\<not> beat d \<longrightarrow>
          particlesRef (animate env s) = filter alive (map advance (particlesRef s)))
     \<and> (bassEmaRef s = 0 \<and> 10 \<le> frequencyBinCount a
          \<and> (\<forall>i<10. byteFrequencyData env i = 255)
          \<and> now env - lastBeatTsRef s > 180 \<longrightarrow> beat d)
     \<and> (s = run es (initialState c) \<and> bassEmaRef s = 0
          \<and> (\<forall>i<10. byteFrequencyData env i = 255)
          \<and> now env > 180 \<longrightarrow> beat d)"
    using run len props fields yes no scen first by blast
  have half: "fl (4 / 5) / 2 = fl (2 / 5)"
    by (simp add: double_values)
  show ?thesis
    using ex half velocity_bij lifetime_bij colour_classes by blast
qed

lemma randomOk_const: "unitInterval r \<Longrightarrow> randomOk (constEnv f u t r)"
  by (simp add: randomOk_def constEnv_def list_all_iff)

lemma doubleDraws_const: "fl r = r \<Longrightarrow> doubleDraws (constEnv f u t r)"
  by (simp add: doubleDraws_def constEnv_def list_all_iff)

lemma demo_tick_particles:
  "particlesRef (animate (constEnv v u t r) demoPlaying)
     = (if beat (the (fst (analyzeAudio (constEnv v u t r) demoPlaying)))
        then filter alive (map advance (map (spawned (constEnv v u t r) 800 400) [0..<6]))
        else [])"
proof -
  let ?env = "constEnv v u t r"
  let ?s1 = "demoPlaying\<lparr> raster := raster demoPlaying @ [FillRect 0 0 (width demoCanvas) (height demoCanvas)] \<rparr>"
  have an1: "analyserRef ?s1 = Some \<lparr> fftSize = 256, smoothingTimeConstant = 0.9 \<rparr>"
    using demoPlaying_analyser by simp
  have c: "has2d demoCanvas" "width demoCanvas = 800" "height demoCanvas = 400"
    by (simp_all add: demoCanvas_def)
  obtain d s2 where run: "analyzeAudio ?env ?s1 = (Some d, s2)"
    using analyzeAudio_Some [OF an1, of ?env] by blast
  have same: "fst (analyzeAudio ?env ?s1) = fst (analyzeAudio ?env demoPlaying)"
    by (simp add: analyzeAudio_def Let_def split: option.splits)
  have "particlesRef (animate ?env demoPlaying)
     = filter alive (map advance (particlesRef demoPlaying @
         (if beat d then map (spawned ?env (width demoCanvas) (height demoCanvas)) [0..<6]
          else [])))"
    by (rule animate_particles(2) [OF demoPlaying_fields(5,1) c(1) demoPlaying_analyser run])
  moreover have "fst (analyzeAudio ?env demoPlaying) = Some d"
    using same run by (metis fst_conv)
  then have "d = the (fst (analyzeAudio ?env demoPlaying))"
    by simp
  ultimately show ?thesis
    by (simp add: demoPlaying_fields c)
qed

lemma demo_beat:
  "beat (the (fst (analyzeAudio (constEnv 255 u 1000 r) demoPlaying)))"
proof -
  have "bassLevel (the (fst (analyzeAudio (constEnv 255 u 1000 r) demoPlaying))) = 255"
    using demo_bass [of 255 u 1000 r] by simp
  moreover have "now (constEnv 255 u 1000 r) = 1000"
    by (simp add: constEnv_def)
  ultimately show ?thesis
    using tick_beat_flag(1) [OF demoPlaying_analyser, of "constEnv 255 u 1000 r"]
    by (simp add: demoPlaying_beat_state)
qed

text \<open>
  The lifetime reaches 120. On the first tick of a session every bin reads 255, which flags a
  beat, and every call of \<open>Math.random()\<close> returns the largest double below 1,
  \<open>1 - 2\<^sup>-\<^sup>5\<^sup>3\<close> (0.9999999999999999): the product with 60 rounds to \<open>60 - 2\<^sup>-\<^sup>4\<^sup>7\<close> and the sum
  with 60 lies halfway between two doubles and rounds to 120. All six particles of the burst
  have a lifetime of 120, which is not in \<open>[60, 120)\<close>. And when a call returns 0 the
  velocity component is minus half the double that \<open>0.8\<close> denotes, whose magnitude exceeds
  the real number 0.4 (by about \<open>2.2e-17\<close>): the bound 0.4 holds as a bound by the double
  that \<open>0.4\<close> denotes.
\<close>

theorem beat_burst_lifetime_counterexample:
  "unitInterval lastDouble \<and> fl lastDouble = lastDouble
   \<and> beat (the (fst (analyzeAudio (constEnv 255 128 1000 lastDouble) demoPlaying)))
   \<and> map maxLife (particlesRef (animate (constEnv 255 128 1000 lastDouble) demoPlaying))
       = replicate 6 120
   \<and> \<not> maxLife (particlesRef (animate (constEnv 255 128 1000 lastDouble) demoPlaying) ! 0)
         < 120
   \<and> unitInterval 0 \<and> fl 0 = 0
   \<and> vx (spawned (constEnv 255 128 1000 0) 800 400 0)
       = - (3602879701896397 / 9007199254740992)
   \<and> 2 / 5 < \<bar>vx (spawned (constEnv 255 128 1000 0) 800 400 0)\<bar>"
proof -
  let ?env = "constEnv 255 128 1000 lastDouble"
  let ?p = "createParticle 400 200 (fl (4 / 5)) (\<lambda>k. lastDouble)"
  have u: "unitInterval lastDouble"
    by (simp add: unitInterval_def lastDouble_def)
  have d: "fl lastDouble = lastDouble"
    by (simp add: lastDouble_def double_values)
  have "spawned ?env 800 400 = (\<lambda>i. ?p)"
    by (rule ext) (simp add: spawned_def constEnv_def)
  then have sp: "map (spawned ?env 800 400) [0..<6] = replicate 6 ?p"
    by (simp add: map_replicate_const)
  have "particlesRef (animate ?env demoPlaying)
      = filter alive (map advance (map (spawned ?env 800 400) [0..<6]))"
    using demo_tick_particles [of 255 128 1000 lastDouble] demo_beat [of 128 lastDouble]
    by simp
  also have "\<dots> = map advance (map (spawned ?env 800 400) [0..<6])"
    by (rule burst_survives [OF randomOk_const [OF u]])
  also have "\<dots> = replicate 6 (advance ?p)"
    by (simp add: sp)
  finally have ps: "particlesRef (animate ?env demoPlaying) = replicate 6 (advance ?p)" .
  have m: "maxLife (advance ?p) = 120"
    by (simp add: advance_def createParticle_def lastDouble_def double_values)
  have v: "vx (spawned (constEnv 255 128 1000 0) 800 400 0)
       = - (3602879701896397 / 9007199254740992)"
    by (simp add: spawned_def createParticle_def constEnv_def double_values)
  have z: "unitInterval 0"
    by (simp add: unitInterval_def)
  show ?thesis
    unfolding v using u d z demo_beat [of 128 lastDouble] by (simp add: ps m)
qed

theorem beat_burst_witness:
  "canvasRef demoPlaying = Some demoCanvas \<and> isPlaying demoPlaying \<and> has2d demoCanvas
   \<and> analyserRef demoPlaying = Some \<lparr> fftSize = 256, smoothingTimeConstant = 0.9 \<rparr>
   \<and> randomOk (constEnv 255 128 1000 (1 / 2))
   \<and> doubleDraws (constEnv 255 128 1000 (1 / 2))
   \<and> length (particlesRef (animate (constEnv 255 128 1000 (1 / 2)) demoPlaying)) = 6
   \<and> length (particlesRef (animate (constEnv 0 128 1000 (1 / 2)) demoPlaying)) = 0"
proof -
  have c: "has2d demoCanvas" by (simp add: demoCanvas_def)
  have r: "randomOk (constEnv 255 128 1000 (1 / 2))" "randomOk (constEnv 0 128 1000 (1 / 2))"
    by (simp_all add: randomOk_const unitInterval_def)
  have dd: "doubleDraws (constEnv 255 128 1000 (1 / 2))"
    "doubleDraws (constEnv 0 128 1000 (1 / 2))"
    by (simp_all add: doubleDraws_const double_values)
  have e: "now (constEnv 255 128 1000 (1 / 2)) = 1000"
    "\<forall>i<10. byteFrequencyData (constEnv 255 128 1000 (1 / 2)) i = 255"
    "10 \<le> frequencyBinCount \<lparr> fftSize = 256, smoothingTimeConstant = 0.9 \<rparr>"
    by (simp_all add: constEnv_def frequencyBinCount_def)
  have a: "length (particlesRef (animate (constEnv 255 128 1000 (1 / 2)) demoPlaying)) = 6"
    using beat_burst [OF demoPlaying_fields(5,1) c demoPlaying_analyser r(1) dd(1),
        where es = "[]" and c = demoCanvas]
      e demoPlaying_beat_state demoPlaying_fields(4)
    by auto
  obtain d s' where run: "analyzeAudio (constEnv 0 128 1000 (1 / 2)) demoPlaying = (Some d, s')"
    and bt: "beat d = (bassLevel d > (0.8 * bassEmaRef demoPlaying + 0.2 * bassLevel d) + 35
               \<and> now (constEnv 0 128 1000 (1 / 2)) - lastBeatTsRef demoPlaying > 180)"
    using analyzeAudio_Some [OF demoPlaying_analyser, of "constEnv 0 128 1000 (1 / 2)"] by blast
  have "bassLevel d = 0"
    using demo_bass [of 0 128 1000 "1 / 2"] by (simp add: run)
  then have nb: "\<not> beat d" using bt demoPlaying_beat_state by simp
  have same: "fst (analyzeAudio (constEnv 0 128 1000 (1 / 2))
       (demoPlaying\<lparr> raster := raster demoPlaying @ [FillRect 0 0 (width demoCanvas) (height demoCanvas)] \<rparr>))
     = fst (analyzeAudio (constEnv 0 128 1000 (1 / 2)) demoPlaying)"
    by (simp add: analyzeAudio_def Let_def split: option.splits)
  have b: "length (particlesRef (animate (constEnv 0 128 1000 (1 / 2)) demoPlaying)) = 0"
    using beat_burst [OF demoPlaying_fields(5,1) c demoPlaying_analyser r(2) dd(2),
        where es = "[]" and c = demoCanvas]
      nb same run demoPlaying_fields(4)
    by auto
  show ?thesis
    using a b c r(1) dd(1) demoPlaying_fields demoPlaying_analyser by simp
qed

section \<open>Particles at draw time\<close>

lemma advance_drawable:
  assumes "0 \<le> life p" and "60 \<le> maxLife p" and "alive (advance p)"
  shows "drawable (advance p)"
proof -
  let ?q = "advance p"
  have l: "life ?q = life p + 1" and m: "maxLife ?q = maxLife p"
    by (simp_all add: advance_def)
  have lt: "life ?q < maxLife ?q" using assms(3) by (simp add: alive_def)
  have pos: "0 < life ?q" "0 < maxLife ?q" using assms(1,2) l m by simp_all
  have "0 < life ?q / maxLife ?q" "life ?q / maxLife ?q < 1"
    using pos lt by simp_all
  then have "0 < alphaOf ?q" "alphaOf ?q < 1"
    by (simp_all add: alphaOf_def)
  then show ?thesis
    using assms(1,2) l m lt by (simp add: drawable_def)
qed

lemma update_drawable:
  assumes "\<forall>p \<in> set ps. 0 \<le> life p \<and> 60 \<le> maxLife p"
  shows "list_all drawable (filter alive (map advance ps))"
  using assms by (auto simp: list_all_iff intro: advance_drawable)

lemma beforeDrawParticles_drawable:
  assumes "list_all drawable (particlesRef s)" and "randomOk env"
  shows "list_all drawable (particlesRef (beforeDrawParticles env d w h s))"
proof -
  have old: "\<forall>p \<in> set (particlesRef s). 0 \<le> life p \<and> 60 \<le> maxLife p"
    using assms(1) by (auto simp: list_all_iff drawable_def)
  have new: "\<forall>p \<in> set (map (spawned env w h) [0..<6]). 0 \<le> life p \<and> 60 \<le> maxLife p"
    using spawned_basic [OF assms(2), of _ w h] by auto
  have "\<forall>p \<in> set (particlesRef s @ (if beat d then map (spawned env w h) [0..<6] else [])).
          0 \<le> life p \<and> 60 \<le> maxLife p"
    using old new by auto
  then show ?thesis
    unfolding beforeDrawParticles_particles by (rule update_drawable)
qed

lemma animate_drawable:
  assumes "list_all drawable (particlesRef s)" and "randomOk env"
  shows "list_all drawable (particlesRef (animate env s))"
proof (cases "\<exists>canvas a. canvasRef s = Some canvas \<and> isPlaying s \<and> has2d canvas
                \<and> analyserRef s = Some a")
  case True
  then obtain canvas a where h: "canvasRef s = Some canvas" "isPlaying s" "has2d canvas"
    "analyserRef s = Some a" by blast
  let ?s1 = "s\<lparr> raster := raster s @ [FillRect 0 0 (width canvas) (height canvas)] \<rparr>"
  obtain d s2 where run: "analyzeAudio env ?s1 = (Some d, s2)"
    using animate_full [OF h, of env] by blast
  have "particlesRef s2 = particlesRef s"
    using analyzeAudio_keeps(1) [of env ?s1] by (simp add: run)
  then have "list_all drawable (particlesRef s2)"
    using assms(1) by simp
  then have "list_all drawable
      (particlesRef (beforeDrawParticles env d (width canvas) (height canvas) s2))"
    using assms(2) by (rule beforeDrawParticles_drawable)
  then show ?thesis
    unfolding animate_particles(1) [OF h run] .
next
  case False
  show ?thesis
  proof (cases "analyserRef s")
    case None
    have "particlesRef ((animate env s)\<lparr> raster := raster s \<rparr>) = particlesRef s"
      unfolding animate_skip [OF None] by simp
    then show ?thesis using assms(1) by simp
  next
    case (Some a)
    then have "animate env s = s"
      using False by (auto simp: animate_def split: option.splits)
    then show ?thesis using assms(1) by simp
  qed
qed

lemma step_drawable:
  assumes "eventOk e" and "list_all drawable (particlesRef s)"
  shows "list_all drawable (particlesRef (step e s))"
proof (cases e)
  case (StartMic r)
  show ?thesis
    unfolding StartMic using assms(2)
    by (cases r) (simp_all add: initializeMicrophone_def connectGraph_def)
next
  case (StartSystem r)
  show ?thesis
    unfolding StartSystem using assms(2)
    by (cases r) (simp_all add: initializeSystemAudio_def systemAudioCatch_def
        connectGraph_def)
next
  case Stop
  show ?thesis
    unfolding Stop using assms(2)
    by (simp add: stopAudio_def cancelAnimationFrame_def Let_def split: option.splits)
next
  case (Resize w h)
  show ?thesis
    unfolding Resize using assms(2)
    by (simp add: handleResize_def split: option.splits)
next
  case (Frame env)
  have r: "randomOk env" using assms(1) Frame by simp
  show ?thesis
    unfolding Frame
    using animate_drawable [OF _ r, of "cancelAnimationFrame (animationIdRef s) s"] assms(2)
    by (simp add: cancelAnimationFrame_def)
qed

lemma run_drawable:
  "list_all eventOk es \<Longrightarrow> list_all drawable (particlesRef s)
     \<Longrightarrow> list_all drawable (particlesRef (run es s))"
  unfolding run_def by (induction es arbitrary: s) (simp_all add: step_drawable)

text \<open>
  C10. Whatever events a mounted component has gone through (with random draws in
  \<open>[0, 1)\<close>), every particle of its collection, and every particle in the state that
  \<open>animate\<close> hands to \<open>drawParticles\<close> on a further tick, has \<open>1 \<le> age < maxLife\<close> and
  \<open>maxLife \<ge> 60\<close>, so its opacity \<open>1 - age / maxLife\<close> lies strictly between 0 and 1.
\<close>

theorem draw_time_invariant:
  assumes "list_all eventOk es"
  shows "list_all drawable (particlesRef (run es (initialState c)))
    \<and> (randomOk env \<and> particlesRef s2 = particlesRef (run es (initialState c))
         \<longrightarrow> list_all drawable (particlesRef (beforeDrawParticles env d w h s2)))"
proof -
  have inv: "list_all drawable (particlesRef (run es (initialState c)))"
    by (rule run_drawable [OF assms]) (simp add: initialState_def)
  have "list_all drawable (particlesRef (beforeDrawParticles env d w h s2))"
    if "randomOk env" and "particlesRef s2 = particlesRef (run es (initialState c))"
    using beforeDrawParticles_drawable [of s2 env d w h] that inv by simp
  with inv show ?thesis by blast
qed

theorem draw_time_invariant_witness:
  "list_all eventOk [StartMic (Resolved \<lparr> audioTracks = 1, videoTracks = 0 \<rparr>),
                     Frame (constEnv 255 128 1000 (1 / 2))]
   \<and> list_all drawable (particlesRef
        (run [StartMic (Resolved \<lparr> audioTracks = 1, videoTracks = 0 \<rparr>),
              Frame (constEnv 255 128 1000 (1 / 2))] (initialState demoCanvas)))
   \<and> length (particlesRef
        (run [StartMic (Resolved \<lparr> audioTracks = 1, videoTracks = 0 \<rparr>),
              Frame (constEnv 255 128 1000 (1 / 2))] (initialState demoCanvas))) = 6"
proof -
  let ?es = "[StartMic (Resolved \<lparr> audioTracks = 1, videoTracks = 0 \<rparr>),
              Frame (constEnv 255 128 1000 (1 / 2))]"
  have ok: "list_all eventOk ?es"
    by (simp add: randomOk_const unitInterval_def)
  have r: "run ?es (initialState demoCanvas) = animate (constEnv 255 128 1000 (1 / 2)) demoPlaying"
    using demoPlaying_cancel by (simp add: run_def demoPlaying_def)
  obtain d s' where run: "analyzeAudio (constEnv 255 128 1000 (1 / 2)) demoPlaying = (Some d, s')"
    and bt: "beat d = (bassLevel d > (0.8 * bassEmaRef demoPlaying + 0.2 * bassLevel d) + 35
               \<and> now (constEnv 255 128 1000 (1 / 2)) - lastBeatTsRef demoPlaying > 180)"
    using analyzeAudio_Some [OF demoPlaying_analyser, of "constEnv 255 128 1000 (1 / 2)"]
    by blast
  have "bassLevel d = 255"
    using demo_bass [of 255 128 1000 "1 / 2"] by (simp add: run)
  moreover have "now (constEnv 255 128 1000 (1 / 2)) = 1000" by (simp add: constEnv_def)
  ultimately have b: "beat d" using bt demoPlaying_beat_state by simp
  have "randomOk (constEnv 255 128 1000 (1 / 2))"
    by (simp add: randomOk_const unitInterval_def)
  then have "length (particlesRef (animate (constEnv 255 128 1000 (1 / 2)) demoPlaying)) = 6"
    using demo_tick_particles [of 255 128 1000 "1 / 2"] b burst_survives [of _ 800 400]
    by (simp add: run)
  then show ?thesis
    using draw_time_invariant [OF ok, of demoCanvas] ok r by simp
qed

section \<open>Failed acquisition\<close>

text \<open>
  C2. What the code does on the failures the claim names. A shared-display stream without
  audio tracks throws the "No system audio available" error, but the \<open>catch\<close> block looks at
  the error's name only: the user is shown the generic failure message and the descriptive
  one reaches the console. A rejected microphone request is written to the console and
  shows the user no message at all.
\<close>

theorem acquisition_failure_messages:
  "errorMsg (initializeSystemAudio (Resolved \<lparr> audioTracks = 0, videoTracks = 1 \<rparr>)
               (initialState demoCanvas)) = failedMessage
   \<and> failedMessage \<noteq> noSystemAudioMessage
   \<and> console (initializeSystemAudio (Resolved \<lparr> audioTracks = 0, videoTracks = 1 \<rparr>)
               (initialState demoCanvas))
       = [systemErrorLog, ''Error'', noSystemAudioMessage]
   \<and> errorMsg (initializeMicrophone (Rejected (JsError ''NotAllowedError'' ''Permission denied''))
               (initialState demoCanvas)) = []
   \<and> console (initializeMicrophone (Rejected (JsError ''NotAllowedError'' ''Permission denied''))
               (initialState demoCanvas))
       = [micErrorLog, ''NotAllowedError'', ''Permission denied'']
   \<and> \<not> isPlaying (initializeSystemAudio (Resolved \<lparr> audioTracks = 0, videoTracks = 1 \<rparr>)
               (initialState demoCanvas))
   \<and> audioStream (initializeSystemAudio (Resolved \<lparr> audioTracks = 0, videoTracks = 1 \<rparr>)
               (initialState demoCanvas)) = None
   \<and> \<not> isPlaying (initializeMicrophone
               (Rejected (JsError ''NotAllowedError'' ''Permission denied''))
               (initialState demoCanvas))
   \<and> audioStream (initializeMicrophone
               (Rejected (JsError ''NotAllowedError'' ''Permission denied''))
               (initialState demoCanvas)) = None"
  by (simp add: initializeSystemAudio_def systemAudioCatch_def initializeMicrophone_def
      initialState_def failedMessage_def noSystemAudioMessage_def)

end
